theory Spec2Isabelle
  imports Complex_Main
begin

section \<open>Ephemeral catalog variants: provisioning and reclamation\<close>

text \<open>
  A shallow embedding of the cleanup worker (\<^verbatim>\<open>scripts/cleanupWorker.js\<close>) and of the
  provisioning route (\<^verbatim>\<open>app/routes/api.custom-product.js\<close>).

  Conventions of the embedding.
  \<^item> Time is the wall clock in milliseconds (\<^verbatim>\<open>Date.now()\<close>), carried in the state;
    a call to the remote catalog advances it by the time the call took.
  \<^item> The remote catalog is a parameter: a function from the calls made so far and the
    call being made to a reply (how long it took, and how the promise settled).
    Every behaviour of a deterministic remote service is such a function.
  \<^item> The persistent store is an in-memory table with the semantics of the Prisma
    operations on a healthy database; an update of a row that is not there raises.
  \<^item> JavaScript strings are byte strings (UTF-8); thrown values are \<^verbatim>\<open>Error\<close> objects.
  \<^item> A JavaScript number is an IEEE 754 double: a rational that the format represents,
    an infinity or NaN. Arithmetic rounds to nearest, ties to even. The sign of zero is
    not kept (nothing here divides by zero or prints a zero).
\<close>

subsection \<open>Numbers\<close>

text \<open>The value of a finite double is kept as the rational it denotes.\<close>

datatype jsnum = NaN | PosInf | NegInf | Fin rat

definition pow2 :: "int \<Rightarrow> rat" where
  "pow2 k = (if k \<ge> 0 then 2 ^ nat k else 1 / 2 ^ nat (- k))"

definition pow10 :: "int \<Rightarrow> rat" where
  "pow10 k = (if k \<ge> 0 then 10 ^ nat k else 1 / 10 ^ nat (- k))"

text \<open>The number of binary digits of a positive integer, and with it the binary
  exponent of a positive rational \<open>a\<close>: the \<open>k\<close> with \<open>2 ^ k \<le> a < 2 ^ (k + 1)\<close>.\<close>

function bitlen :: "int \<Rightarrow> int" where
  "bitlen n = (if n \<le> 0 then 0 else 1 + bitlen (n div 2))"
  by pat_completeness auto
termination
  by (relation "measure nat") auto

declare bitlen.simps [simp del]

definition ilog2 :: "rat \<Rightarrow> int" where
  "ilog2 a = (if a \<ge> 1 then bitlen \<lfloor>a\<rfloor> - 1 else - bitlen (\<lceil>1 / a\<rceil> - 1))"

text \<open>Rounding to binary64: 53 significant bits, exponents from \<open>-1074\<close> (gradual
  underflow), overflow to infinity from \<open>2 ^ 1024 - 2 ^ 970\<close> on.\<close>

definition round_even :: "rat \<Rightarrow> int" where
  "round_even q =
     (let f = \<lfloor>q\<rfloor>; d = q - of_int f
      in if d < 1 / 2 then f else if d > 1 / 2 then f + 1 else if even f then f else f + 1)"

definition fl :: "rat \<Rightarrow> jsnum" where
  "fl x =
     (if x = 0 then Fin 0
      else let a = \<bar>x\<bar>;
               k = ilog2 a;
               e = max (k - 52) (- 1074);
               m = round_even (a / pow2 e)
           in if k > 1023 \<or> (k = 1023 \<and> m \<ge> 2 ^ 53)
              then (if x > 0 then PosInf else NegInf)
              else Fin (if x > 0 then of_int m * pow2 e else - (of_int m * pow2 e)))"

text \<open>The operators \<^verbatim>\<open><\<close>, \<^verbatim>\<open>*\<close>, \<^verbatim>\<open>/\<close>, \<^verbatim>\<open>-\<close> on numbers, and the \<^verbatim>\<open>Math\<close> functions
  the code uses.\<close>

definition js_lt :: "jsnum \<Rightarrow> jsnum \<Rightarrow> bool" where
  "js_lt x y =
     (case (x, y) of
        (NaN, _) \<Rightarrow> False
      | (_, NaN) \<Rightarrow> False
      | (PosInf, _) \<Rightarrow> False
      | (_, NegInf) \<Rightarrow> False
      | (NegInf, _) \<Rightarrow> True
      | (_, PosInf) \<Rightarrow> True
      | (Fin a, Fin b) \<Rightarrow> a < b)"

definition js_mul :: "jsnum \<Rightarrow> jsnum \<Rightarrow> jsnum" where
  "js_mul x y =
     (case (x, y) of
        (Fin a, Fin b) \<Rightarrow> fl (a * b)
      | (NaN, _) \<Rightarrow> NaN
      | (_, NaN) \<Rightarrow> NaN
      | (Fin a, PosInf) \<Rightarrow> (if a = 0 then NaN else if a > 0 then PosInf else NegInf)
      | (Fin a, NegInf) \<Rightarrow> (if a = 0 then NaN else if a > 0 then NegInf else PosInf)
      | (PosInf, Fin b) \<Rightarrow> (if b = 0 then NaN else if b > 0 then PosInf else NegInf)
      | (NegInf, Fin b) \<Rightarrow> (if b = 0 then NaN else if b > 0 then NegInf else PosInf)
      | (PosInf, PosInf) \<Rightarrow> PosInf
      | (NegInf, NegInf) \<Rightarrow> PosInf
      | (PosInf, NegInf) \<Rightarrow> NegInf
      | (NegInf, PosInf) \<Rightarrow> NegInf)"

definition js_div :: "jsnum \<Rightarrow> jsnum \<Rightarrow> jsnum" where
  "js_div x y =
     (case (x, y) of
        (NaN, _) \<Rightarrow> NaN
      | (_, NaN) \<Rightarrow> NaN
      | (Fin a, Fin b) \<Rightarrow>
          (if b = 0 then (if a = 0 then NaN else if a > 0 then PosInf else NegInf)
           else fl (a / b))
      | (Fin a, _) \<Rightarrow> Fin 0
      | (PosInf, Fin b) \<Rightarrow> (if b \<ge> 0 then PosInf else NegInf)
      | (NegInf, Fin b) \<Rightarrow> (if b \<ge> 0 then NegInf else PosInf)
      | (_, _) \<Rightarrow> NaN)"

definition js_sub :: "jsnum \<Rightarrow> jsnum \<Rightarrow> jsnum" where
  "js_sub x y =
     (case (x, y) of
        (NaN, _) \<Rightarrow> NaN
      | (_, NaN) \<Rightarrow> NaN
      | (Fin a, Fin b) \<Rightarrow> fl (a - b)
      | (PosInf, PosInf) \<Rightarrow> NaN
      | (NegInf, NegInf) \<Rightarrow> NaN
      | (PosInf, _) \<Rightarrow> PosInf
      | (NegInf, _) \<Rightarrow> NegInf
      | (_, PosInf) \<Rightarrow> NegInf
      | (_, NegInf) \<Rightarrow> PosInf)"

definition Math_abs :: "jsnum \<Rightarrow> jsnum" where
  "Math_abs x = (case x of NaN \<Rightarrow> NaN | PosInf \<Rightarrow> PosInf | NegInf \<Rightarrow> PosInf | Fin a \<Rightarrow> Fin \<bar>a\<bar>)"

definition Math_round :: "jsnum \<Rightarrow> jsnum" where
  "Math_round x = (case x of Fin a \<Rightarrow> Fin (of_int \<lfloor>a + 1 / 2\<rfloor>) | _ \<Rightarrow> x)"

definition isNaN :: "jsnum \<Rightarrow> bool" where
  "isNaN x \<longleftrightarrow> x = NaN"

definition Math_floor :: "jsnum \<Rightarrow> jsnum" where
  "Math_floor x = (case x of Fin a \<Rightarrow> Fin (of_int \<lfloor>a\<rfloor>) | _ \<Rightarrow> x)"

definition Math_min :: "jsnum \<Rightarrow> jsnum \<Rightarrow> jsnum" where
  "Math_min x y = (if isNaN x \<or> isNaN y then NaN else if js_lt y x then y else x)"

definition Math_max :: "jsnum \<Rightarrow> jsnum \<Rightarrow> jsnum" where
  "Math_max x y = (if isNaN x \<or> isNaN y then NaN else if js_lt x y then y else x)"

text \<open>\<^verbatim>\<open>parseFloat\<close> and \<^verbatim>\<open>parseInt(_, 10)\<close>: leading white space is skipped (the
  characters of \<^verbatim>\<open>StrWhiteSpaceChar\<close>, in UTF-8), then the longest prefix that is a
  decimal literal is read and rounded; with no such prefix the result is NaN.\<close>

definition is_digit :: "char \<Rightarrow> bool" where
  "is_digit c \<longleftrightarrow> c \<in> set ''0123456789''"

text \<open>The value of a decimal digit is its position among the ten digits.\<close>

definition digit_of :: "char \<Rightarrow> int" where
  "digit_of c = int (length (takeWhile (\<lambda>d. d \<noteq> c) ''0123456789''))"

definition digits_value :: "string \<Rightarrow> int" where
  "digits_value ds = foldl (\<lambda>n c. 10 * n + digit_of c) 0 ds"

definition leading_ws :: "nat list \<Rightarrow> nat" where
  "leading_ws bs =
     (if take 1 bs \<in> set [[9], [10], [11], [12], [13], [32]] then 1
      else if take 2 bs = [0xC2, 0xA0] then 2
      else if take 3 bs \<in> set ([[0xE1, 0x9A, 0x80], [0xE2, 0x80, 0xA8], [0xE2, 0x80, 0xA9],
                [0xE2, 0x80, 0xAF], [0xE2, 0x81, 0x9F], [0xE3, 0x80, 0x80], [0xEF, 0xBB, 0xBF]]
              @ map (\<lambda>b. [0xE2, 0x80, b]) [0x80 ..< 0x8B]) then 3
      else 0)"

fun trim_ws :: "nat \<Rightarrow> string \<Rightarrow> string" where
  "trim_ws 0 s = s"
| "trim_ws (Suc n) s =
     (let k = leading_ws (map of_char s) in if k = 0 then s else trim_ws n (drop k s))"

definition trimStart :: "string \<Rightarrow> string" where
  "trimStart s = trim_ws (length s) s"

definition strip_sign :: "string \<Rightarrow> bool \<times> string" where
  "strip_sign s =
     (case s of
        [] \<Rightarrow> (False, [])
      | c # r \<Rightarrow> if c = CHR ''-'' then (True, r) else if c = CHR ''+'' then (False, r)
                 else (False, s))"

definition exponent_part :: "string \<Rightarrow> int" where
  "exponent_part s =
     (case s of
        [] \<Rightarrow> 0
      | c # r \<Rightarrow>
          if c = CHR ''e'' \<or> c = CHR ''E'' then
            (case strip_sign r of
               (neg, d) \<Rightarrow>
                 (let ds = takeWhile is_digit d
                  in if ds = [] then 0
                     else if neg then - digits_value ds else digits_value ds))
          else 0)"

definition parseFloat :: "string \<Rightarrow> jsnum" where
  "parseFloat input =
     (case strip_sign (trimStart input) of
        (neg, u) \<Rightarrow>
          if take 8 u = ''Infinity'' then (if neg then NegInf else PosInf)
          else
            (let ip = takeWhile is_digit u;
                 r1 = dropWhile is_digit u;
                 dot = (r1 \<noteq> [] \<and> hd r1 = CHR ''.'');
                 fp = (if dot then takeWhile is_digit (tl r1) else []);
                 r2 = (if dot then dropWhile is_digit (tl r1) else r1)
             in if ip = [] \<and> fp = [] then NaN
                else
                  (let mv = of_int (digits_value (ip @ fp))
                              * pow10 (exponent_part r2 - int (length fp))
                   in fl (if neg then - mv else mv))))"

definition parseInt10 :: "string \<Rightarrow> jsnum" where
  "parseInt10 input =
     (case strip_sign (trimStart input) of
        (neg, u) \<Rightarrow>
          (let ds = takeWhile is_digit u
           in if ds = [] then NaN
              else fl (if neg then - of_int (digits_value ds) else of_int (digits_value ds))))"

text \<open>\<^verbatim>\<open>String.prototype.includes\<close>.\<close>

fun string_includes :: "string \<Rightarrow> string \<Rightarrow> bool" where
  "string_includes [] pat = (pat = [])"
| "string_includes (c # cs) pat =
     (take (length pat) (c # cs) = pat \<or> string_includes cs pat)"

text \<open>\<^verbatim>\<open>String.prototype.toLowerCase\<close> on a string in UTF-8. The ASCII capitals are
  mapped to their small letters. Two characters outside ASCII have a lower-case form
  with an ASCII letter in it: U+212A (the Kelvin sign, bytes E2 84 AA) becomes \<^verbatim>\<open>k\<close>, and
  U+0130 (capital I with dot above, bytes C4 B0) becomes \<^verbatim>\<open>i\<close> followed by U+0307 (bytes
  CC 87). Every other character outside ASCII has a lower-case form outside ASCII and is
  left in place: the route compares the result with ASCII keys only, and no such
  character occurs in a key.\<close>

fun toLowerCase :: "string \<Rightarrow> string" where
  "toLowerCase [] = []"
| "toLowerCase (c # cs) =
     (if 65 \<le> (of_char c :: nat) \<and> (of_char c :: nat) \<le> 90
      then char_of ((of_char c :: nat) + 32) # toLowerCase cs
      else if c = CHR 0xE2 \<and> take 2 cs = [CHR 0x84, CHR 0xAA]
      then CHR ''k'' # toLowerCase (drop 2 cs)
      else if c = CHR 0xC4 \<and> take 1 cs = [CHR 0xB0]
      then CHR ''i'' # CHR 0xCC # CHR 0x87 # toLowerCase (drop 1 cs)
      else c # toLowerCase cs)"

subsection \<open>Data model\<close>

type_synonym millis = int

text \<open>Table \<^verbatim>\<open>temporary_products\<close> (the Prisma model \<^verbatim>\<open>temporaryProduct\<close>).\<close>

record temporaryProduct =
  row_id :: string
  productId :: string
  variantId :: string
  createdAt :: millis
  scheduledDeletionAt :: millis
  deletedAt :: "millis option"
  boy :: int
  en :: int
  materyal :: string
  calculatedPrice :: rat
  area :: int
  isOrdered :: bool
  orderIds :: "string list"
  cleanupAttempts :: nat
  lastCleanupError :: "string option"
  shopDomain :: string
  sessionId :: "string option"

text \<open>A thrown \<^verbatim>\<open>Error\<close>: its name and message, and what the handlers read of an
  HTTP failure: \<^verbatim>\<open>err.response?.code\<close> and \<^verbatim>\<open>err.response?.body?.errors?.base?.[0]\<close>.\<close>

record js_error =
  err_name :: string
  err_message :: string
  err_code :: "int option"
  err_base :: "string option"

definition Error_of :: "string \<Rightarrow> js_error" where
  "Error_of m = \<lparr>err_name = ''Error'', err_message = m, err_code = None, err_base = None\<rparr>"

text \<open>\<^verbatim>\<open>String(err)\<close>, that is \<^verbatim>\<open>Error.prototype.toString\<close>.\<close>

definition error_toString :: "js_error \<Rightarrow> string" where
  "error_toString e =
     (if err_name e = [] then err_message e
      else if err_message e = [] then err_name e
      else err_name e @ '': '' @ err_message e)"

text \<open>The context object handed to \<^verbatim>\<open>trackError\<close>.\<close>

datatype error_context = ItemContext string string | StageContext string

record errorLog =
  timestamp :: millis
  error :: string
  ctx :: error_context

record stats =
  checked :: nat
  deleted :: nat
  errors :: nat
  skipped :: nat

text \<open>Table \<^verbatim>\<open>cleanup_logs\<close>. Messages built from template strings and serialised
  JSON are kept symbolic: the constructor records the template and its arguments.\<close>

datatype log_action = Cleanup_run | Daily_scan | Deleted | Error | Variant_created | Alarm

datatype log_message =
    NoItemsToDelete
  | DeletedSuccessfully int int string
  | CleanupFailed
  | PassCompleted nat nat
  | DailyCompleted nat nat nat
  | ThresholdReached nat
  | TemporaryVariantCreated string string string jsnum "string option"

datatype log_details = ErrorText string | ErrorBatch "errorLog list" | StatsJson stats

record cleanupLog =
  log_createdAt :: millis
  log_action :: log_action
  log_productId :: "string option"
  log_variantId :: "string option"
  log_message :: log_message
  log_errorDetails :: "log_details option"

text \<open>What the worker writes with \<^verbatim>\<open>console.error\<close>.\<close>

datatype console_line =
    AlarmLine log_message
  | RecentErrorsLine "errorLog list"
  | ErrorTrackedLine errorLog
  | GlobalErrorLine string js_error
  | DailyScanErrorLine string js_error

subsection \<open>The remote catalog and the session store\<close>

text \<open>A variant as the catalog returns it; \<^verbatim>\<open>price\<close> is a string, possibly missing.\<close>

record variant =
  v_id :: string
  v_price :: "string option"
  v_product_id :: string
  v_option1 :: "string option"
  v_option2 :: "string option"
  v_option3 :: "string option"

text \<open>What the handlers read of a response: \<^verbatim>\<open>body?.variant\<close> and \<^verbatim>\<open>body?.variants\<close>.\<close>

record body =
  body_variant :: "variant option"
  body_variants :: "variant list option"

text \<open>A price on its way into a request or a response: a string of the catalog's,
  \<^verbatim>\<open>String(n)\<close> or \<^verbatim>\<open>n.toFixed(2)\<close> of a number. The two conversions are kept
  symbolic.\<close>

datatype price_text = CatalogPrice string | StringOf jsnum | ToFixed2 jsnum

text \<open>The payload of the create call (the constant fields are left out).\<close>

record variantData =
  d_product_id :: string
  d_price :: price_text
  d_sku_timestamp :: millis
  d_sku_suffix :: string
  d_option1 :: string
  d_option2 :: string
  d_option3 :: string
  d_weight :: jsnum

text \<open>The REST calls the two components make, by method and path.\<close>

datatype call =
    GetVariant string
  | ListVariants string
  | CreateVariant string variantData
  | UpdateVariantPrice string price_text
  | DeleteVariant string string

record session =
  session_id :: string
  shop :: string

datatype settled = Resolve body | Reject js_error

record reply =
  took :: nat
  result :: settled

type_synonym catalog = "call list \<Rightarrow> call \<Rightarrow> reply"

type_synonym sessionStorage = "string \<Rightarrow> session option"

text \<open>\<^verbatim>\<open>sessionStorage.loadSession(item.sessionId)\<close>; the column is nullable.\<close>

definition loadSession :: "sessionStorage \<Rightarrow> string option \<Rightarrow> session option" where
  "loadSession ses sid = (case sid of None \<Rightarrow> None | Some k \<Rightarrow> ses k)"

text \<open>An entry of the in-process map \<^verbatim>\<open>requestCache\<close>.\<close>

datatype request_id =
    GivenId string
  | GeneratedId "string option" "string option" "string option" millis

record cache_entry =
  cache_timestamp :: millis
  cache_requestId :: request_id

text \<open>The state of the process and of its database. The map keeps its keys in insertion
  order, as a JavaScript \<^verbatim>\<open>Map\<close> does.\<close>

record system =
  store :: "temporaryProduct list"
  cleanupLogs :: "cleanupLog list"
  recentErrors :: "errorLog list"
  requestCache :: "(string \<times> cache_entry) list"
  calls :: "call list"
  clock :: millis
  console :: "console_line list"

text \<open>An awaited REST call that is not raced against a timer: \<^verbatim>\<open>await admin.get(...)\<close>.\<close>

definition admin_request :: "catalog \<Rightarrow> call \<Rightarrow> system \<Rightarrow> settled \<times> system" where
  "admin_request cat c s =
     (let r = cat (calls s) c
      in (result r, s\<lparr>calls := calls s @ [c], clock := clock s + int (took r)\<rparr>))"

subsection \<open>The store operations\<close>

definition record_not_found :: js_error where
  "record_not_found =
     \<lparr>err_name = ''PrismaClientKnownRequestError'',
      err_message = ''Record to update not found.'', err_code = None, err_base = None\<rparr>"

text \<open>\<^verbatim>\<open>prisma.temporaryProduct.update({ where: { id }, data })\<close>.\<close>

definition temporaryProduct_update ::
  "string \<Rightarrow> (temporaryProduct \<Rightarrow> temporaryProduct) \<Rightarrow> system \<Rightarrow> js_error + system" where
  "temporaryProduct_update i f s =
     (if list_ex (\<lambda>r. row_id r = i) (store s)
      then Inr (s\<lparr>store := map (\<lambda>r. if row_id r = i then f r else r) (store s)\<rparr>)
      else Inl record_not_found)"

definition logCleanupAction ::
  "log_action \<Rightarrow> string option \<Rightarrow> string option \<Rightarrow> log_message \<Rightarrow> log_details option
     \<Rightarrow> system \<Rightarrow> system" where
  "logCleanupAction action pid vid msg details s =
     s\<lparr>cleanupLogs := cleanupLogs s @
        [\<lparr>log_createdAt = clock s, log_action = action, log_productId = pid,
          log_variantId = vid, log_message = msg, log_errorDetails = details\<rparr>]\<rparr>"

subsection \<open>The error tracker\<close>

definition ERROR_THRESHOLD :: nat where
  "ERROR_THRESHOLD = 3"

definition ERROR_WINDOW_MS :: millis where
  "ERROR_WINDOW_MS = 5 * 60 * 1000"

text \<open>\<^verbatim>\<open>sendAlarm\<close> is started without \<^verbatim>\<open>await\<close>; both serialisations of the error list
  happen before its first suspension, and the row is placed where the call is made.\<close>

definition sendAlarm :: "log_message \<Rightarrow> errorLog list \<Rightarrow> system \<Rightarrow> system" where
  "sendAlarm msg errs s =
     (let s1 = s\<lparr>console := console s @ [AlarmLine msg, RecentErrorsLine errs]\<rparr>
      in s1\<lparr>cleanupLogs := cleanupLogs s1 @
           [\<lparr>log_createdAt = clock s1, log_action = Alarm, log_productId = None,
             log_variantId = None, log_message = msg,
             log_errorDetails = Some (ErrorBatch errs)\<rparr>]\<rparr>)"

definition trackError :: "js_error \<Rightarrow> error_context \<Rightarrow> system \<Rightarrow> system" where
  "trackError err c s =
     (let errorLog = \<lparr>timestamp = clock s, error = err_message err, ctx = c\<rparr>;
          pushed = recentErrors s @ [errorLog];
          cutoff = clock s - ERROR_WINDOW_MS;
          kept = filter (\<lambda>e. timestamp e > cutoff) pushed;
          s1 = s\<lparr>recentErrors := kept\<rparr>;
          s2 = (if length kept \<ge> ERROR_THRESHOLD
                then sendAlarm (ThresholdReached ERROR_THRESHOLD) kept s1 else s1)
      in s2\<lparr>console := console s2 @ [ErrorTrackedLine errorLog]\<rparr>)"

subsection \<open>The deletion primitive\<close>

text \<open>The read-then-delete of \<^verbatim>\<open>deleteTemporaryVariant\<close>: the \<^verbatim>\<open>try\<close> block with its
  handler. \<^verbatim>\<open>None\<close> is normal completion (also after a swallowed 404).\<close>

definition read_then_delete :: "catalog \<Rightarrow> temporaryProduct \<Rightarrow> system \<Rightarrow> js_error option \<times> system" where
  "read_then_delete cat item s =
     (case admin_request cat (GetVariant (variantId item)) s of
        (Reject err, s1) \<Rightarrow> (if err_code err = Some 404 then (None, s1) else (Some err, s1))
      | (Resolve b, s1) \<Rightarrow>
          (case admin_request cat (DeleteVariant (productId item) (variantId item)) s1 of
             (Reject err, s2) \<Rightarrow> (if err_code err = Some 404 then (None, s2) else (Some err, s2))
           | (Resolve b2, s2) \<Rightarrow> (None, s2)))"

text \<open>\<^verbatim>\<open>None\<close> is normal return, \<^verbatim>\<open>Some err\<close> is \<^verbatim>\<open>throw err\<close>; the calls made before a
  throw stay made.\<close>

definition deleteTemporaryVariant ::
  "catalog \<Rightarrow> sessionStorage \<Rightarrow> temporaryProduct \<Rightarrow> system \<Rightarrow> js_error option \<times> system" where
  "deleteTemporaryVariant cat ses item s =
     (case loadSession ses (sessionId item) of
        None \<Rightarrow> (Some (Error_of ''Admin session not found''), s)
      | Some adminSession \<Rightarrow>
          (case read_then_delete cat item s of
             (Some err, s1) \<Rightarrow> (Some err, s1)
           | (None, s1) \<Rightarrow>
               (case temporaryProduct_update (row_id item)
                       (\<lambda>r. r\<lparr>deletedAt := Some (clock s1)\<rparr>) s1 of
                  Inl err \<Rightarrow> (Some err, s1)
                | Inr s2 \<Rightarrow> (None, s2))))"

subsection \<open>The frequent sweep\<close>

text \<open>The \<^verbatim>\<open>findMany\<close> of the sweep: the \<^verbatim>\<open>where\<close> clause, then \<^verbatim>\<open>orderBy\<close>
  (rows with equal keys stay in table order).\<close>

definition sweep_where :: "millis \<Rightarrow> temporaryProduct \<Rightarrow> bool" where
  "sweep_where now r \<longleftrightarrow> scheduledDeletionAt r \<le> now \<and> deletedAt r = None \<and> isOrdered r = False"

definition sweep_findMany :: "millis \<Rightarrow> temporaryProduct list \<Rightarrow> temporaryProduct list" where
  "sweep_findMany now rows = sort_key scheduledDeletionAt (filter (sweep_where now) rows)"

text \<open>The body of the \<^verbatim>\<open>for\<close> loop of \<^verbatim>\<open>runCleanupPass\<close>. The first component is an
  exception that leaves the loop (raised inside the \<^verbatim>\<open>catch\<close> handler).\<close>

definition cleanup_item ::
  "catalog \<Rightarrow> sessionStorage \<Rightarrow> temporaryProduct \<Rightarrow> stats \<Rightarrow> system
     \<Rightarrow> js_error option \<times> stats \<times> system" where
  "cleanup_item cat ses item st s =
     (case deleteTemporaryVariant cat ses item s of
        (None, s1) \<Rightarrow>
          (None, st\<lparr>deleted := deleted st + 1\<rparr>,
           logCleanupAction Deleted (Some (productId item)) (Some (variantId item))
             (DeletedSuccessfully (boy item) (en item) (materyal item)) None s1)
      | (Some err, s1) \<Rightarrow>
          (let st1 = st\<lparr>errors := errors st + 1\<rparr>;
               s2 = trackError err (ItemContext (variantId item) (productId item)) s1
           in case temporaryProduct_update (row_id item)
                     (\<lambda>r. r\<lparr>cleanupAttempts := cleanupAttempts r + 1,
                              lastCleanupError :=
                                Some (if err_message err \<noteq> [] then err_message err
                                      else error_toString err)\<rparr>) s2 of
                Inl e \<Rightarrow> (Some e, st1, s2)
              | Inr s3 \<Rightarrow>
                  (None, st1,
                   logCleanupAction Error (Some (productId item)) (Some (variantId item))
                     CleanupFailed (Some (ErrorText (error_toString err))) s3)))"

fun cleanup_loop ::
  "catalog \<Rightarrow> sessionStorage \<Rightarrow> temporaryProduct list \<Rightarrow> stats \<Rightarrow> system
     \<Rightarrow> js_error option \<times> stats \<times> system" where
  "cleanup_loop cat ses [] st s = (None, st, s)"
| "cleanup_loop cat ses (item # rest) st s =
     (case cleanup_item cat ses item st s of
        (Some e, st1, s1) \<Rightarrow> (Some e, st1, s1)
      | (None, st1, s1) \<Rightarrow> cleanup_loop cat ses rest st1 s1)"

definition runCleanupPass :: "catalog \<Rightarrow> sessionStorage \<Rightarrow> system \<Rightarrow> stats \<times> system" where
  "runCleanupPass cat ses s =
     (let now = clock s;
          toDelete = sweep_findMany now (store s);
          st = \<lparr>checked = length toDelete, deleted = 0, errors = 0, skipped = 0\<rparr>
      in if toDelete = [] then
           (st, logCleanupAction Cleanup_run None None NoItemsToDelete None s)
         else
           (case cleanup_loop cat ses toDelete st s of
              (None, st1, s1) \<Rightarrow>
                (st1, logCleanupAction Cleanup_run None None
                        (PassCompleted (deleted st1) (errors st1)) (Some (StatsJson st1)) s1)
            | (Some err, st1, s1) \<Rightarrow>
                (st1, trackError err (StageContext ''cleanup_pass'')
                        (s1\<lparr>console := console s1 @ [GlobalErrorLine ''cleanup_pass'' err]\<rparr>))))"

subsection \<open>The daily full scan\<close>

text \<open>The body of the \<^verbatim>\<open>for\<close> loop of \<^verbatim>\<open>runDailyFullScan\<close>; the pair counts
  \<^verbatim>\<open>cleaned\<close> and \<^verbatim>\<open>errors\<close>.\<close>

definition daily_item ::
  "catalog \<Rightarrow> sessionStorage \<Rightarrow> temporaryProduct \<Rightarrow> nat \<times> nat \<Rightarrow> system
     \<Rightarrow> (nat \<times> nat) \<times> system" where
  "daily_item cat ses item ce s =
     (let age = clock s - createdAt item;
          ageHours = (of_int age :: rat) / (1000 * 60 * 60)
      in if ageHours \<ge> 24 then
           (case deleteTemporaryVariant cat ses item s of
              (None, s1) \<Rightarrow> ((fst ce + 1, snd ce), s1)
            | (Some err, s1) \<Rightarrow>
                ((fst ce, snd ce + 1),
                 s1\<lparr>console := console s1 @ [DailyScanErrorLine (variantId item) err]\<rparr>))
         else (ce, s))"

fun daily_loop ::
  "catalog \<Rightarrow> sessionStorage \<Rightarrow> temporaryProduct list \<Rightarrow> nat \<times> nat \<Rightarrow> system
     \<Rightarrow> (nat \<times> nat) \<times> system" where
  "daily_loop cat ses [] ce s = (ce, s)"
| "daily_loop cat ses (item # rest) ce s =
     (case daily_item cat ses item ce s of (ce1, s1) \<Rightarrow> daily_loop cat ses rest ce1 s1)"

definition runDailyFullScan :: "catalog \<Rightarrow> sessionStorage \<Rightarrow> system \<Rightarrow> system" where
  "runDailyFullScan cat ses s =
     (let allRecords = filter (\<lambda>r. deletedAt r = None) (store s)
      in case daily_loop cat ses allRecords (0, 0) s of
           ((cleaned, errs), s1) \<Rightarrow>
             logCleanupAction Daily_scan None None
               (DailyCompleted cleaned errs (length allRecords)) None s1)"

subsection \<open>The provisioning route: constants and helpers\<close>

definition CACHE_DURATION :: millis where
  "CACHE_DURATION = 5000"

definition MAX_CACHE_SIZE :: nat where
  "MAX_CACHE_SIZE = 1000"

definition API_TIMEOUT :: nat where
  "API_TIMEOUT = 10000"

definition MIN_PRICE :: jsnum where
  "MIN_PRICE = fl (1 / 100)"

definition MAX_PRICE :: jsnum where
  "MAX_PRICE = fl (99999999 / 100)"

text \<open>The own properties of the object \<^verbatim>\<open>WEIGHT_PER_AREA\<close>. A lower-case key can also
  name one of two properties inherited from \<^verbatim>\<open>Object.prototype\<close>; their values are
  objects, which are truthy and multiply to NaN.\<close>

definition WEIGHT_PER_AREA :: "string \<Rightarrow> jsnum option" where
  "WEIGHT_PER_AREA k =
     (if k = ''pamuk'' then Some (fl (15 / 100))
      else if k = ''polyester'' then Some (fl (12 / 100))
      else if k = ''keten'' then Some (fl (18 / 100))
      else if k = ''ipek'' then Some (fl (8 / 100))
      else if k = ''default'' then Some (fl (15 / 100))
      else None)"

definition inherited_property :: "string \<Rightarrow> bool" where
  "inherited_property k \<longleftrightarrow> k = ''constructor'' \<or> k = ''__proto__''"

text \<open>The messages of the errors the route itself throws, in UTF-8:
  \<^verbatim>\<open>API istegi zaman asimina ugradi\<close>, the fragment \<^verbatim>\<open>zaman asimi\<close> the handlers look
  for, \<^verbatim>\<open>Base variant bulunamadi\<close> and \<^verbatim>\<open>Shopify bos response dondu\<close> (here without
  their diacritics).\<close>

definition timeout_message :: string where
  "timeout_message =
     ''API iste'' @ [CHR 0xC4, CHR 0x9F] @ ''i zaman a'' @ [CHR 0xC5, CHR 0x9F, CHR 0xC4, CHR 0xB1]
       @ ''m'' @ [CHR 0xC4, CHR 0xB1] @ ''na u'' @ [CHR 0xC4, CHR 0x9F] @ ''rad''
       @ [CHR 0xC4, CHR 0xB1]"

definition zaman_asimi :: string where
  "zaman_asimi =
     ''zaman a'' @ [CHR 0xC5, CHR 0x9F, CHR 0xC4, CHR 0xB1] @ ''m'' @ [CHR 0xC4, CHR 0xB1]"

definition base_variant_missing_message :: string where
  "base_variant_missing_message = ''Base variant bulunamad'' @ [CHR 0xC4, CHR 0xB1]"

definition empty_response_message :: string where
  "empty_response_message =
     ''Shopify bo'' @ [CHR 0xC5, CHR 0x9F] @ '' response d'' @ [CHR 0xC3, CHR 0xB6] @ ''nd''
       @ [CHR 0xC3, CHR 0xBC]"

datatype price_error = InvalidFormat | BelowMinimum | AboveMaximum

text \<open>\<^verbatim>\<open>validatePrice\<close>; \<^verbatim>\<open>Inl\<close> is the thrown error.\<close>

definition validatePrice :: "string \<Rightarrow> price_error + jsnum" where
  "validatePrice price =
     (let numPrice = parseFloat price
      in if isNaN numPrice then Inl InvalidFormat
         else if js_lt numPrice MIN_PRICE then Inl BelowMinimum
         else if js_lt MAX_PRICE numPrice then Inl AboveMaximum
         else Inr (js_div (Math_round (js_mul numPrice (Fin 100))) (Fin 100)))"

definition calculateWeight :: "jsnum \<Rightarrow> jsnum \<Rightarrow> string \<Rightarrow> jsnum" where
  "calculateWeight b e m =
     (let area = js_mul b e;
          key = toLowerCase m;
          calculatedWeight =
            (if inherited_property key then NaN
             else js_mul area (case WEIGHT_PER_AREA key of
                                 Some w \<Rightarrow> w
                               | None \<Rightarrow> fl (15 / 100)))
      in Math_max (Fin 50) (Math_min (Fin 50000) (Math_round calculatedWeight)))"

text \<open>\<^verbatim>\<open>withTimeout\<close>: the call raced against a timer of \<^verbatim>\<open>API_TIMEOUT\<close> milliseconds.
  The call is made either way.\<close>

definition withTimeout :: "catalog \<Rightarrow> call \<Rightarrow> system \<Rightarrow> settled \<times> system" where
  "withTimeout cat c s =
     (let r = cat (calls s) c
      in if took r < API_TIMEOUT
         then (result r, s\<lparr>calls := calls s @ [c], clock := clock s + int (took r)\<rparr>)
         else (Reject (Error_of timeout_message),
               s\<lparr>calls := calls s @ [c], clock := clock s + int API_TIMEOUT\<rparr>))"

text \<open>\<^verbatim>\<open>await new Promise((resolve) => setTimeout(resolve, ms))\<close>.\<close>

definition sleep :: "nat \<Rightarrow> system \<Rightarrow> system" where
  "sleep ms s = s\<lparr>clock := clock s + int ms\<rparr>"

subsection \<open>The request cache\<close>

definition cache_delete :: "string \<Rightarrow> system \<Rightarrow> system" where
  "cache_delete k s = s\<lparr>requestCache := filter (\<lambda>kv. fst kv \<noteq> k) (requestCache s)\<rparr>"

definition cache_set :: "string \<Rightarrow> cache_entry \<Rightarrow> system \<Rightarrow> system" where
  "cache_set k v s =
     s\<lparr>requestCache :=
         (if k \<in> set (map fst (requestCache s))
          then map (\<lambda>kv. if fst kv = k then (k, v) else kv) (requestCache s)
          else requestCache s @ [(k, v)])\<rparr>"

text \<open>The number of entries evicted: \<^verbatim>\<open>Math.floor(MAX_CACHE_SIZE * 0.2)\<close>.\<close>

definition evict_count :: jsnum where
  "evict_count = Math_floor (js_mul (Fin (of_nat MAX_CACHE_SIZE)) (fl (2 / 10)))"

definition cleanupCache :: "millis \<Rightarrow> (string \<times> cache_entry) list \<Rightarrow> (string \<times> cache_entry) list" where
  "cleanupCache now cache =
     (let fresh = filter (\<lambda>kv. \<not> (now - cache_timestamp (snd kv) > CACHE_DURATION)) cache
      in if length fresh > MAX_CACHE_SIZE then
           (let entries = sort_key (\<lambda>kv. cache_timestamp (snd kv)) fresh;
                toDelete = (case evict_count of Fin q \<Rightarrow> nat \<lfloor>q\<rfloor> | _ \<Rightarrow> 0);
                doomed = map fst (take toDelete entries)
            in filter (\<lambda>kv. fst kv \<notin> set doomed) fresh)
         else fresh)"

subsection \<open>Requests and responses\<close>

text \<open>What the route reads of a request: the session the app proxy authentication yields
  (\<^verbatim>\<open>None\<close> when it throws or yields none), the form fields (\<^verbatim>\<open>None\<close> for a field
  that is not sent), and the two values the environment supplies: the random suffix of
  the SKU and the identifier of the row the database creates.\<close>

record request =
  proxy_session :: "session option"
  form_baseVariantId :: "string option"
  form_boy :: "string option"
  form_en :: "string option"
  form_materyal :: "string option"
  form_calculatedPrice :: "string option"
  form_requestId :: "string option"
  random_suffix :: string
  new_row_id :: string

text \<open>The user-facing texts, by what they say.\<close>

datatype ui_text =
    SessionMissing
  | MissingFields
  | PriceRejected price_error
  | AlreadyRunning
  | RequestTimedOut
  | ProductInfoUnavailable
  | CreateTimedOut
  | CreateFailed
  | SystemFailure
  | ExistingProductUsed
  | NewProductCreated

record response_variant =
  rv_id :: string
  rv_price :: price_text
  rv_price_numeric :: "jsnum option"
  rv_weight :: "jsnum option"

record response_debug =
  dbg_originalPrice :: "string option"
  dbg_calculatedPrice :: jsnum
  dbg_priceString :: price_text

record response =
  r_status :: nat
  r_success :: bool
  r_errorType :: "string option"
  r_text :: ui_text
  r_retryAfter :: "nat option"
  r_details :: "string option"
  r_variant :: "response_variant option"
  r_product_id :: "string option"
  r_usedExisting :: "bool option"
  r_requestId :: "request_id option"
  r_debug :: "response_debug option"

definition error_response :: "nat \<Rightarrow> string \<Rightarrow> ui_text \<Rightarrow> response" where
  "error_response st ty txt =
     \<lparr>r_status = st, r_success = False, r_errorType = Some ty, r_text = txt,
      r_retryAfter = None, r_details = None, r_variant = None, r_product_id = None,
      r_usedExisting = None, r_requestId = None, r_debug = None\<rparr>"

text \<open>JavaScript truthiness of a form field, and \<^verbatim>\<open>a || b\<close> on a price.\<close>

definition present :: "string option \<Rightarrow> bool" where
  "present x \<longleftrightarrow> x \<noteq> None \<and> x \<noteq> Some []"

definition price_or :: "string option \<Rightarrow> jsnum \<Rightarrow> price_text" where
  "price_or p n = (if present p then CatalogPrice (the p) else StringOf n)"

text \<open>The response of the reuse path, for the variant that is returned.\<close>

definition existing_response ::
  "string \<Rightarrow> string option \<Rightarrow> jsnum \<Rightarrow> string \<Rightarrow> request_id \<Rightarrow> response" where
  "existing_response vid p calcPrice pid rid =
     \<lparr>r_status = 200, r_success = True, r_errorType = None, r_text = ExistingProductUsed,
      r_retryAfter = None, r_details = None,
      r_variant = Some \<lparr>rv_id = vid, rv_price = price_or p calcPrice,
                        rv_price_numeric = None, rv_weight = None\<rparr>,
      r_product_id = Some pid, r_usedExisting = Some True, r_requestId = Some rid,
      r_debug = None\<rparr>"

subsection \<open>The provisioning route: lookups and polling\<close>

definition findExistingVariant ::
  "catalog \<Rightarrow> string \<Rightarrow> string \<Rightarrow> string \<Rightarrow> string \<Rightarrow> system \<Rightarrow> variant option \<times> system" where
  "findExistingVariant cat pid b e m s =
     (case withTimeout cat (ListVariants pid) s of
        (Resolve bd, s1) \<Rightarrow>
          (find (\<lambda>v. v_option1 v = Some b \<and> v_option2 v = Some e \<and> v_option3 v = Some m)
             (case body_variants bd of None \<Rightarrow> [] | Some vs \<Rightarrow> vs), s1)
      | (Reject err, s1) \<Rightarrow> (None, s1))"

text \<open>The comparison of \<^verbatim>\<open>waitForVariantReady\<close>. The expected price is a number;
  \<^verbatim>\<open>parseFloat\<close> of its string form gives the number back.\<close>

definition price_matches :: "string \<Rightarrow> jsnum \<Rightarrow> bool" where
  "price_matches p expected =
     js_lt (Math_abs (js_sub (parseFloat p) expected)) (fl (1 / 100))"

text \<open>The \<^verbatim>\<open>for\<close> loop of \<^verbatim>\<open>waitForVariantReady\<close>: \<open>n\<close> turns are left and \<open>i\<close> is the
  loop variable; a variant is returned from inside the loop when its price matches.\<close>

fun poll_variant ::
  "catalog \<Rightarrow> string \<Rightarrow> jsnum \<Rightarrow> nat \<Rightarrow> nat \<Rightarrow> system \<Rightarrow> variant option \<times> system" where
  "poll_variant cat vid expected 0 i s = (None, s)"
| "poll_variant cat vid expected (Suc n) i s =
     (case withTimeout cat (GetVariant vid) (sleep (600 * (i + 1)) s) of
        (Reject err, s1) \<Rightarrow> poll_variant cat vid expected n (i + 1) s1
      | (Resolve bd, s1) \<Rightarrow>
          (case body_variant bd of
             None \<Rightarrow> poll_variant cat vid expected n (i + 1) s1
           | Some v \<Rightarrow>
               (case v_price v of
                  None \<Rightarrow> poll_variant cat vid expected n (i + 1) s1
                | Some p \<Rightarrow>
                    if price_matches p expected then (Some v, s1)
                    else poll_variant cat vid expected n (i + 1) s1)))"

definition waitForVariantReady ::
  "catalog \<Rightarrow> string \<Rightarrow> jsnum \<Rightarrow> system \<Rightarrow> variant option \<times> system" where
  "waitForVariantReady cat vid expected s =
     (case poll_variant cat vid expected 8 0 s of
        (Some v, s1) \<Rightarrow> (Some v, s1)
      | (None, s1) \<Rightarrow>
          (case admin_request cat (GetVariant vid) s1 of
             (Resolve bd, s2) \<Rightarrow> (body_variant bd, s2)
           | (Reject err, s2) \<Rightarrow> (None, s2)))"

subsection \<open>The provisioning route: the reuse path\<close>

definition reuse_path ::
  "catalog \<Rightarrow> variant \<Rightarrow> jsnum \<Rightarrow> string \<Rightarrow> string \<Rightarrow> request_id \<Rightarrow> system
     \<Rightarrow> response \<times> system" where
  "reuse_path cat existingVariant calcPrice pid cacheKey rid s =
     (let fallback = existing_response (v_id existingVariant) (v_price existingVariant)
                       calcPrice pid rid
      in case withTimeout cat
                (UpdateVariantPrice (v_id existingVariant) (StringOf calcPrice)) s of
           (Reject err, s1) \<Rightarrow> (fallback, cache_delete cacheKey s1)
         | (Resolve bd0, s1) \<Rightarrow>
             (case admin_request cat (GetVariant (v_id existingVariant)) (sleep 300 s1) of
                (Reject err, s2) \<Rightarrow> (fallback, cache_delete cacheKey s2)
              | (Resolve bd, s2) \<Rightarrow>
                  (existing_response
                     (case body_variant bd of
                        None \<Rightarrow> v_id existingVariant
                      | Some u \<Rightarrow> if v_id u = [] then v_id existingVariant else v_id u)
                     (case body_variant bd of None \<Rightarrow> None | Some u \<Rightarrow> v_price u)
                     calcPrice pid rid,
                   cache_delete cacheKey s2)))"

subsection \<open>The provisioning route: the creation path\<close>

text \<open>The test before the manual price update: the price is falsy, \<^verbatim>\<open>"0"\<close> or
  \<^verbatim>\<open>"0.00"\<close>.\<close>

definition price_blank :: "string option \<Rightarrow> bool" where
  "price_blank p \<longleftrightarrow> \<not> present p \<or> p = Some ''0'' \<or> p = Some ''0.00''"

text \<open>The manual update with its handler. After a successful re-read \<^verbatim>\<open>newVariant\<close> is
  whatever the body holds; when it holds nothing the logging line throws, the handler
  catches, and \<^verbatim>\<open>newVariant\<close> stays undefined.\<close>

definition manual_price_update ::
  "catalog \<Rightarrow> variant \<Rightarrow> price_text \<Rightarrow> system \<Rightarrow> variant option \<times> system" where
  "manual_price_update cat newVariant priceString s =
     (case admin_request cat (UpdateVariantPrice (v_id newVariant) priceString) s of
        (Reject err, s1) \<Rightarrow> (Some newVariant, s1)
      | (Resolve bd0, s1) \<Rightarrow>
          (case admin_request cat (GetVariant (v_id newVariant)) (sleep 500 s1) of
             (Reject err, s2) \<Rightarrow> (Some newVariant, s2)
           | (Resolve bd, s2) \<Rightarrow> (body_variant bd, s2)))"

text \<open>The handler of a failed create call.\<close>

definition creation_failed ::
  "catalog \<Rightarrow> js_error \<Rightarrow> string \<Rightarrow> string \<Rightarrow> string \<Rightarrow> string \<Rightarrow> jsnum \<Rightarrow> string
     \<Rightarrow> request_id \<Rightarrow> system \<Rightarrow> response \<times> system" where
  "creation_failed cat err pid b e m calcPrice cacheKey rid s =
     (let s1 = cache_delete cacheKey s;
          isTimeout = string_includes (err_message err) zaman_asimi;
          failure =
            (error_response (if isTimeout then 504 else 500)
               (if isTimeout then ''timeout'' else ''creation_failed'')
               (if isTimeout then CreateTimedOut else CreateFailed))
              \<lparr>r_details := Some (err_message err)\<rparr>
      in if (case err_base err of None \<Rightarrow> False
             | Some t \<Rightarrow> string_includes t ''already exists'')
         then (case findExistingVariant cat pid b e m s1 of
                 (Some retryVariant, s2) \<Rightarrow>
                   (existing_response (v_id retryVariant) (v_price retryVariant)
                      calcPrice pid rid, s2)
               | (None, s2) \<Rightarrow> (failure, s2))
         else (failure, s1))"

text \<open>A column of type \<^verbatim>\<open>Int\<close> takes a 32-bit integer; the \<^verbatim>\<open>create\<close> raises on
  anything else (NaN, a fraction, a larger number).\<close>

definition as_Int :: "jsnum \<Rightarrow> int option" where
  "as_Int x =
     (case x of
        Fin q \<Rightarrow> if of_int \<lfloor>q\<rfloor> = q \<and> - (2 ^ 31) \<le> \<lfloor>q\<rfloor> \<and> \<lfloor>q\<rfloor> < 2 ^ 31
                 then Some \<lfloor>q\<rfloor> else None
      | _ \<Rightarrow> None)"

text \<open>The two \<^verbatim>\<open>create\<close> calls in their \<^verbatim>\<open>try\<close> block; a failure is only logged.\<close>

definition persist_created ::
  "request \<Rightarrow> session \<Rightarrow> session \<Rightarrow> string \<Rightarrow> variant \<Rightarrow> string \<Rightarrow> string \<Rightarrow> string
     \<Rightarrow> jsnum \<Rightarrow> jsnum \<Rightarrow> jsnum \<Rightarrow> jsnum \<Rightarrow> system \<Rightarrow> system" where
  "persist_created req session adminSession pid newVariant b e m boyInt enInt
       calcPrice calculatedWeight s =
     (case (as_Int boyInt, as_Int enInt, as_Int (js_mul boyInt enInt), calcPrice) of
        (Some bi, Some ei, Some ai, Fin cp) \<Rightarrow>
          s\<lparr>store := store s @
               [\<lparr>row_id = new_row_id req, productId = pid, variantId = v_id newVariant,
                 createdAt = clock s, scheduledDeletionAt = clock s + 2 * 60 * 60 * 1000,
                 deletedAt = None, boy = bi, en = ei, materyal = m, calculatedPrice = cp,
                 area = ai, isOrdered = False, orderIds = [], cleanupAttempts = 0,
                 lastCleanupError = None,
                 shopDomain = (if shop session \<noteq> [] then shop session else shop adminSession),
                 sessionId = Some (session_id adminSession)\<rparr>],
             cleanupLogs := cleanupLogs s @
               [\<lparr>log_createdAt = clock s, log_action = Variant_created,
                 log_productId = Some pid, log_variantId = Some (v_id newVariant),
                 log_message = TemporaryVariantCreated b e m calculatedWeight
                                 (v_price newVariant),
                 log_errorDetails = None\<rparr>]\<rparr>
      | _ \<Rightarrow> s)"

definition created_response ::
  "variant \<Rightarrow> jsnum \<Rightarrow> jsnum \<Rightarrow> string \<Rightarrow> request_id \<Rightarrow> response" where
  "created_response newVariant calcPrice calculatedWeight pid rid =
     \<lparr>r_status = 200, r_success = True, r_errorType = None, r_text = NewProductCreated,
      r_retryAfter = None, r_details = None,
      r_variant =
        Some \<lparr>rv_id = v_id newVariant,
              rv_price = price_or (v_price newVariant) calcPrice,
              rv_price_numeric =
                Some (if present (v_price newVariant)
                      then parseFloat (the (v_price newVariant)) else calcPrice),
              rv_weight = Some calculatedWeight\<rparr>,
      r_product_id = Some pid, r_usedExisting = Some False, r_requestId = Some rid,
      r_debug = Some \<lparr>dbg_originalPrice = v_price newVariant,
                       dbg_calculatedPrice = calcPrice,
                       dbg_priceString = ToFixed2 calcPrice\<rparr>\<rparr>"

text \<open>The payload of the create call, built at time \<open>t\<close>.\<close>

definition build_variantData ::
  "request \<Rightarrow> string \<Rightarrow> string \<Rightarrow> string \<Rightarrow> string \<Rightarrow> jsnum \<Rightarrow> millis \<Rightarrow> variantData" where
  "build_variantData req pid b e m calcPrice t =
     \<lparr>d_product_id = pid, d_price = ToFixed2 calcPrice, d_sku_timestamp = t,
      d_sku_suffix = random_suffix req, d_option1 = b, d_option2 = e, d_option3 = m,
      d_weight = calculateWeight (parseInt10 b) (parseInt10 e) m\<rparr>"

text \<open>After the polling: the manual update when the price is blank.\<close>

definition settle_price ::
  "catalog \<Rightarrow> variant \<Rightarrow> price_text \<Rightarrow> system \<Rightarrow> variant option \<times> system" where
  "settle_price cat newVariant priceString s =
     (if price_blank (v_price newVariant)
      then manual_price_update cat newVariant priceString s
      else (Some newVariant, s))"

text \<open>The end of the creation path: with no variant left the route throws and answers
  with a system error; otherwise it stores the row and answers with the variant.\<close>

definition finish_creation ::
  "request \<Rightarrow> session \<Rightarrow> session \<Rightarrow> string \<Rightarrow> string \<Rightarrow> string \<Rightarrow> string \<Rightarrow> jsnum
     \<Rightarrow> string \<Rightarrow> request_id \<Rightarrow> variant option \<Rightarrow> system \<Rightarrow> response \<times> system" where
  "finish_creation req session adminSession pid b e m calcPrice cacheKey rid newVariant s =
     (let boyInt = parseInt10 b;
          enInt = parseInt10 e;
          calculatedWeight = calculateWeight boyInt enInt m
      in case newVariant of
           None \<Rightarrow>
             (error_response 500 ''system_error'' SystemFailure, cache_delete cacheKey s)
         | Some final \<Rightarrow>
             (created_response final calcPrice calculatedWeight pid rid,
              cache_delete cacheKey
                (persist_created req session adminSession pid final b e m boyInt enInt
                   calcPrice calculatedWeight s)))"

definition creation_path ::
  "catalog \<Rightarrow> request \<Rightarrow> session \<Rightarrow> session \<Rightarrow> string \<Rightarrow> string \<Rightarrow> string \<Rightarrow> string
     \<Rightarrow> jsnum \<Rightarrow> string \<Rightarrow> request_id \<Rightarrow> system \<Rightarrow> response \<times> system" where
  "creation_path cat req session adminSession pid b e m calcPrice cacheKey rid s =
     (case withTimeout cat
             (CreateVariant pid (build_variantData req pid b e m calcPrice (clock s))) s of
        (Reject err, s1) \<Rightarrow>
          creation_failed cat err pid b e m calcPrice cacheKey rid s1
      | (Resolve bd, s1) \<Rightarrow>
          (case body_variant bd of
             None \<Rightarrow>
               creation_failed cat (Error_of empty_response_message) pid b e m
                 calcPrice cacheKey rid s1
           | Some created \<Rightarrow>
               (case waitForVariantReady cat (v_id created) calcPrice s1 of
                  (readyVariant, s2) \<Rightarrow>
                    (case settle_price cat
                            (case readyVariant of None \<Rightarrow> created | Some v \<Rightarrow> v)
                            (ToFixed2 calcPrice) s2 of
                       (final, s3) \<Rightarrow>
                         finish_creation req session adminSession pid b e m calcPrice
                           cacheKey rid final s3))))"

subsection \<open>The provisioning route\<close>

text \<open>The handler of a failed read of the base variant.\<close>

definition base_variant_failed :: "js_error \<Rightarrow> string \<Rightarrow> system \<Rightarrow> response \<times> system" where
  "base_variant_failed err cacheKey s =
     (let isTimeout = string_includes (err_message err) zaman_asimi
      in (error_response (if isTimeout then 504 else 400)
            (if isTimeout then ''timeout'' else ''product_not_found'')
            (if isTimeout then RequestTimedOut else ProductInfoUnavailable),
          cache_delete cacheKey s))"

text \<open>The key of the request cache, and the duplicate check on the cleaned cache.\<close>

definition cacheKey_of :: "string \<Rightarrow> string \<Rightarrow> string \<Rightarrow> string" where
  "cacheKey_of b e m = b @ ''-'' @ e @ ''-'' @ m"

definition duplicate_in_flight :: "millis \<Rightarrow> (string \<times> cache_entry) list \<Rightarrow> string \<Rightarrow> bool" where
  "duplicate_in_flight now cache k =
     (case map_of cache k of
        None \<Rightarrow> False
      | Some cachedRequest \<Rightarrow> now - cache_timestamp cachedRequest < 3000)"

text \<open>From \<^verbatim>\<open>cleanupCache()\<close> on: the duplicate check, the cache entry, the base variant,
  then the reuse path or the creation path.\<close>

definition provision ::
  "catalog \<Rightarrow> request \<Rightarrow> session \<Rightarrow> session \<Rightarrow> string \<Rightarrow> string \<Rightarrow> string \<Rightarrow> string
     \<Rightarrow> jsnum \<Rightarrow> request_id \<Rightarrow> system \<Rightarrow> response \<times> system" where
  "provision cat req session adminSession baseVariantId b e m calcPrice rid s =
     (let s0 = s\<lparr>requestCache := cleanupCache (clock s) (requestCache s)\<rparr>;
          cacheKey = cacheKey_of b e m
      in if duplicate_in_flight (clock s0) (requestCache s0) cacheKey then
           ((error_response 429 ''duplicate'' AlreadyRunning)\<lparr>r_retryAfter := Some 3\<rparr>, s0)
         else
           (case withTimeout cat (GetVariant baseVariantId)
                   (cache_set cacheKey
                      \<lparr>cache_timestamp = clock s0, cache_requestId = rid\<rparr> s0) of
              (Reject err, s1) \<Rightarrow> base_variant_failed err cacheKey s1
            | (Resolve bd, s1) \<Rightarrow>
                (case body_variant bd of
                   None \<Rightarrow>
                     base_variant_failed (Error_of base_variant_missing_message) cacheKey s1
                 | Some baseVariant \<Rightarrow>
                     (case findExistingVariant cat (v_product_id baseVariant) b e m s1 of
                        (Some existingVariant, s2) \<Rightarrow>
                          reuse_path cat existingVariant calcPrice
                            (v_product_id baseVariant) cacheKey rid s2
                      | (None, s2) \<Rightarrow>
                          creation_path cat req session adminSession
                            (v_product_id baseVariant) b e m calcPrice cacheKey rid
                            s2))))"

text \<open>\<^verbatim>\<open>formData.get("requestId") || generateRequestId(boy, en, materyal)\<close>.\<close>

definition requestId_of :: "request \<Rightarrow> millis \<Rightarrow> request_id" where
  "requestId_of req now =
     (if present (form_requestId req) then GivenId (the (form_requestId req))
      else GeneratedId (form_boy req) (form_en req) (form_materyal req) now)"

text \<open>\<^verbatim>\<open>action\<close>: authentication and session, the presence check, the price, then
  \<^verbatim>\<open>provision\<close>.\<close>

definition action :: "catalog \<Rightarrow> sessionStorage \<Rightarrow> request \<Rightarrow> system \<Rightarrow> response \<times> system" where
  "action cat ses req s =
     (case proxy_session req of
        None \<Rightarrow> (error_response 500 ''system_error'' SystemFailure, s)
      | Some session \<Rightarrow>
          (case ses (session_id session) of
             None \<Rightarrow> (error_response 401 ''session_not_found'' SessionMissing, s)
           | Some adminSession \<Rightarrow>
               if session_id adminSession = [] then
                 (error_response 401 ''session_not_found'' SessionMissing, s)
               else
                 (let rid = requestId_of req (clock s)
                  in if \<not> present (form_baseVariantId req) \<or> \<not> present (form_boy req)
                        \<or> \<not> present (form_en req) \<or> \<not> present (form_materyal req)
                        \<or> \<not> present (form_calculatedPrice req)
                     then (error_response 400 ''validation'' MissingFields, s)
                     else
                       (case validatePrice (the (form_calculatedPrice req)) of
                          Inl err \<Rightarrow>
                            (error_response 400 ''invalid_price'' (PriceRejected err), s)
                        | Inr calcPrice \<Rightarrow>
                            provision cat req session adminSession
                              (the (form_baseVariantId req)) (the (form_boy req))
                              (the (form_en req)) (the (form_materyal req))
                              calcPrice rid s))))"

subsection \<open>Observations and sample data\<close>

text \<open>A request that passes the session check, the presence check and the price
  validation, with the values the route then works with.\<close>

definition acceptable ::
  "sessionStorage \<Rightarrow> request \<Rightarrow> session \<Rightarrow> session \<Rightarrow> string \<Rightarrow> string \<Rightarrow> string \<Rightarrow> string
     \<Rightarrow> jsnum \<Rightarrow> bool" where
  "acceptable ses req session adminSession base b e m cp \<longleftrightarrow>
     proxy_session req = Some session \<and> ses (session_id session) = Some adminSession
     \<and> session_id adminSession \<noteq> []
     \<and> form_baseVariantId req = Some base \<and> base \<noteq> []
     \<and> form_boy req = Some b \<and> b \<noteq> [] \<and> form_en req = Some e \<and> e \<noteq> []
     \<and> form_materyal req = Some m \<and> m \<noteq> []
     \<and> (\<exists>p. form_calculatedPrice req = Some p \<and> p \<noteq> [] \<and> validatePrice p = Inr cp)"

text \<open>Every item the sweep attempts leaves one row with action \<^verbatim>\<open>deleted\<close> or
  \<^verbatim>\<open>error\<close>; read in table order they give the order of the attempts.\<close>

definition attempted :: "cleanupLog list \<Rightarrow> (string option \<times> string option) list" where
  "attempted logs =
     map (\<lambda>l. (log_productId l, log_variantId l))
       (filter (\<lambda>l. log_action l = Deleted \<or> log_action l = Error) logs)"

definition item_key :: "temporaryProduct \<Rightarrow> string option \<times> string option" where
  "item_key r = (Some (productId r), Some (variantId r))"

text \<open>The variants the catalog was asked to read, in the order of the calls; and what an
  attempted deletion leaves in a row of the table: either \<^verbatim>\<open>deletedAt\<close> set to a time not
  before the start of the pass, or the counter raised by one and an error text stored.\<close>

definition reads :: "call list \<Rightarrow> string list" where
  "reads cs = concat (map (\<lambda>c. case c of GetVariant v \<Rightarrow> [v] | _ \<Rightarrow> []) cs)"

definition attempt_recorded :: "millis \<Rightarrow> temporaryProduct \<Rightarrow> temporaryProduct \<Rightarrow> bool" where
  "attempt_recorded now r r' \<longleftrightarrow>
     (case deletedAt r' of
        Some t \<Rightarrow> now \<le> t \<and> r' = r\<lparr>deletedAt := Some t\<rparr>
      | None \<Rightarrow>
          (case lastCleanupError r' of
             Some e \<Rightarrow> r' = r\<lparr>cleanupAttempts := cleanupAttempts r + 1,
                              lastCleanupError := Some e\<rparr>
           | None \<Rightarrow> False))"



text \<open>The time a call raced against the timer takes.\<close>

definition call_time :: "catalog \<Rightarrow> call list \<Rightarrow> call \<Rightarrow> nat" where
  "call_time cat h c = min (took (cat h c)) API_TIMEOUT"

text \<open>The row \<^verbatim>\<open>sendAlarm\<close> writes.\<close>

definition alarm_row :: "millis \<Rightarrow> errorLog list \<Rightarrow> cleanupLog" where
  "alarm_row t errs =
     \<lparr>log_createdAt = t, log_action = Alarm, log_productId = None, log_variantId = None,
      log_message = ThresholdReached 3, log_errorDetails = Some (ErrorBatch errs)\<rparr>"

definition sample_row ::
  "string \<Rightarrow> millis \<Rightarrow> millis \<Rightarrow> bool \<Rightarrow> string option \<Rightarrow> temporaryProduct" where
  "sample_row i created sched ordered sid =
     \<lparr>row_id = i, productId = ''P'', variantId = i, createdAt = created,
      scheduledDeletionAt = sched, deletedAt = None, boy = 120, en = 80,
      materyal = ''pamuk'', calculatedPrice = 20, area = 9600, isOrdered = ordered, orderIds = [],
      cleanupAttempts = 0, lastCleanupError = None, shopDomain = ''shop'',
      sessionId = sid\<rparr>"

definition sample_system :: "temporaryProduct list \<Rightarrow> millis \<Rightarrow> system" where
  "sample_system rows t =
     \<lparr>store = rows, cleanupLogs = [], recentErrors = [], requestCache = [], calls = [],
      clock = t, console = []\<rparr>"

definition sample_sessions :: sessionStorage where
  "sample_sessions k = (if k = ''S'' then Some \<lparr>session_id = ''S'', shop = ''shop''\<rparr> else None)"

text \<open>A catalog that answers every call with success after 100 ms, and one where every
  resource is already gone.\<close>

definition catalog_ok :: catalog where
  "catalog_ok h c =
     \<lparr>took = 100, result = Resolve \<lparr>body_variant = None, body_variants = None\<rparr>\<rparr>"

definition not_found :: js_error where
  "not_found = \<lparr>err_name = ''Error'', err_message = ''Not Found'', err_code = Some 404, err_base = None\<rparr>"

definition catalog_gone :: catalog where
  "catalog_gone h c = \<lparr>took = 100, result = Reject not_found\<rparr>"

text \<open>A request and catalogs for the provisioning route: one where the first listing of
  the product's variants fails and the create call is refused as a duplicate, and one
  that answers every read with the same variant at a fixed price.\<close>

definition sample_variant :: "string option \<Rightarrow> variant" where
  "sample_variant p =
     \<lparr>v_id = ''V1'', v_price = p, v_product_id = ''P'', v_option1 = Some ''120'',
      v_option2 = Some ''80'', v_option3 = Some ''pamuk''\<rparr>"

definition sample_request :: "string \<Rightarrow> string \<Rightarrow> request" where
  "sample_request b p =
     \<lparr>proxy_session = Some \<lparr>session_id = ''S'', shop = ''shop''\<rparr>,
      form_baseVariantId = Some ''B'', form_boy = Some b, form_en = Some ''80'',
      form_materyal = Some ''pamuk'', form_calculatedPrice = Some p,
      form_requestId = Some ''R'', random_suffix = ''x'', new_row_id = ''row1''\<rparr>"

definition replied :: "settled \<Rightarrow> reply" where
  "replied r = \<lparr>took = 100, result = r\<rparr>"

definition variant_body :: "variant \<Rightarrow> body" where
  "variant_body v = \<lparr>body_variant = Some v, body_variants = None\<rparr>"

definition already_exists :: js_error where
  "already_exists =
     \<lparr>err_name = ''Error'', err_message = ''Unprocessable Entity'', err_code = Some 422,
      err_base = Some ''The variant already exists.''\<rparr>"

definition catalog_flaky :: catalog where
  "catalog_flaky h c =
     (case c of
        GetVariant v \<Rightarrow> replied (Resolve (variant_body (sample_variant (Some ''20.00''))))
      | ListVariants p \<Rightarrow>
          if ListVariants p \<in> set h
          then replied (Resolve \<lparr>body_variant = None,
                                  body_variants = Some [sample_variant (Some ''20.00'')]\<rparr>)
          else replied (Reject (Error_of ''socket hang up''))
      | CreateVariant p d \<Rightarrow> replied (Reject already_exists)
      | _ \<Rightarrow> replied (Resolve \<lparr>body_variant = None, body_variants = None\<rparr>))"

definition catalog_stale :: "string \<Rightarrow> catalog" where
  "catalog_stale p h c =
     (case c of
        ListVariants q \<Rightarrow> replied (Resolve \<lparr>body_variant = None, body_variants = Some []\<rparr>)
      | _ \<Rightarrow> replied (Resolve (variant_body (sample_variant (Some p)))))"

text \<open>A request cache with 1001 entries, all written at time 0; the first is the entry
  of the request for \<^verbatim>\<open>1-80-pamuk\<close>.\<close>

definition crowded_cache :: "(string \<times> cache_entry) list" where
  "crowded_cache =
     (''1-80-pamuk'', \<lparr>cache_timestamp = 0, cache_requestId = GivenId ''Q''\<rparr>)
     # map (\<lambda>i. (replicate (Suc i) CHR ''2'' @ ''-80-pamuk'',
                 \<lparr>cache_timestamp = 0, cache_requestId = GivenId ''Q''\<rparr>)) [0..<1000]"

section \<open>Properties of the cleanup worker\<close>

subsection \<open>Catalog calls and store updates\<close>

lemma read_then_delete_store: "store (snd (read_then_delete cat item s)) = store s"
  by (simp add: read_then_delete_def admin_request_def Let_def split: settled.splits prod.splits)

lemma read_then_delete_logs: "cleanupLogs (snd (read_then_delete cat item s)) = cleanupLogs s"
  by (simp add: read_then_delete_def admin_request_def Let_def split: settled.splits prod.splits)

lemma read_then_delete_fails_iff:
  "fst (read_then_delete cat item s) \<noteq> None \<longleftrightarrow>
     (\<exists>err. result (cat (calls s) (GetVariant (variantId item))) = Reject err
            \<and> err_code err \<noteq> Some 404) \<or>
     ((\<exists>b. result (cat (calls s) (GetVariant (variantId item))) = Resolve b) \<and>
      (\<exists>err. result (cat (calls s @ [GetVariant (variantId item)])
                 (DeleteVariant (productId item) (variantId item))) = Reject err
             \<and> err_code err \<noteq> Some 404))"
  by (auto simp: read_then_delete_def admin_request_def Let_def split: settled.splits prod.splits)

lemma update_ok:
  "list_ex (\<lambda>r. row_id r = i) (store s) \<Longrightarrow>
   temporaryProduct_update i f s =
     Inr (s\<lparr>store := map (\<lambda>r. if row_id r = i then f r else r) (store s)\<rparr>)"
  by (simp add: temporaryProduct_update_def)

lemma map_row_id_update:
  "(\<And>r. row_id (f r) = row_id r) \<Longrightarrow>
   map (\<lambda>x. row_id (if row_id x = i then f x else x)) rows = map row_id rows"
  by (induction rows) auto

lemma list_ex_row_id: "list_ex (\<lambda>r. row_id r = i) rows \<longleftrightarrow> i \<in> set (map row_id rows)"
  by (auto simp: list_ex_iff)

subsection \<open>The deletion primitive\<close>

text \<open>
  C6. For a row of the table, \<^verbatim>\<open>deleteTemporaryVariant\<close> throws exactly when the session
  is absent, or the read fails with a code other than 404, or the read succeeds and the
  delete fails with a code other than 404. With no session it throws before any catalog
  call. A 404 from the read is swallowed. Whenever it returns normally the row's
  \<^verbatim>\<open>deletedAt\<close> is set, and nothing else in the table changes.
\<close>

theorem deleteTemporaryVariant_fails_iff:
  "list_ex (\<lambda>r. row_id r = row_id item) (store s) \<longrightarrow>
     (fst (deleteTemporaryVariant cat ses item s) \<noteq> None \<longleftrightarrow>
        loadSession ses (sessionId item) = None \<or>
        (\<exists>err. result (cat (calls s) (GetVariant (variantId item))) = Reject err
               \<and> err_code err \<noteq> Some 404) \<or>
        ((\<exists>b. result (cat (calls s) (GetVariant (variantId item))) = Resolve b) \<and>
         (\<exists>err. result (cat (calls s @ [GetVariant (variantId item)])
                    (DeleteVariant (productId item) (variantId item))) = Reject err
                \<and> err_code err \<noteq> Some 404)))
     \<and> (loadSession ses (sessionId item) = None \<longrightarrow>
          deleteTemporaryVariant cat ses item s
            = (Some (Error_of ''Admin session not found''), s))
     \<and> (loadSession ses (sessionId item) \<noteq> None
          \<and> (\<exists>err. result (cat (calls s) (GetVariant (variantId item))) = Reject err
                    \<and> err_code err = Some 404)
          \<longrightarrow> fst (deleteTemporaryVariant cat ses item s) = None
              \<and> calls (snd (deleteTemporaryVariant cat ses item s))
                   = calls s @ [GetVariant (variantId item)])
     \<and> (fst (deleteTemporaryVariant cat ses item s) = None \<longrightarrow>
          store (snd (deleteTemporaryVariant cat ses item s))
            = map (\<lambda>r. if row_id r = row_id item
                        then r\<lparr>deletedAt :=
                               Some (clock (snd (deleteTemporaryVariant cat ses item s)))\<rparr>
                        else r) (store s))"
proof (intro impI conjI)
  assume ex: "list_ex (\<lambda>r. row_id r = row_id item) (store s)"
  obtain e s1 where rd: "read_then_delete cat item s = (e, s1)"
    by (cases "read_then_delete cat item s")
  have st: "store s1 = store s" using read_then_delete_store[of cat item s] rd by simp
  have ex1: "list_ex (\<lambda>r. row_id r = row_id item) (store s1)" using ex st by simp
  show "fst (deleteTemporaryVariant cat ses item s) \<noteq> None \<longleftrightarrow>
        loadSession ses (sessionId item) = None \<or>
        (\<exists>err. result (cat (calls s) (GetVariant (variantId item))) = Reject err
               \<and> err_code err \<noteq> Some 404) \<or>
        ((\<exists>b. result (cat (calls s) (GetVariant (variantId item))) = Resolve b) \<and>
         (\<exists>err. result (cat (calls s @ [GetVariant (variantId item)])
                    (DeleteVariant (productId item) (variantId item))) = Reject err
                \<and> err_code err \<noteq> Some 404))"
    using read_then_delete_fails_iff[of cat item s] rd update_ok[OF ex1]
    by (cases "loadSession ses (sessionId item)"; cases e)
       (simp_all add: deleteTemporaryVariant_def)
  show "loadSession ses (sessionId item) = None \<Longrightarrow>
          deleteTemporaryVariant cat ses item s
            = (Some (Error_of ''Admin session not found''), s)"
    by (simp add: deleteTemporaryVariant_def)
  show "fst (deleteTemporaryVariant cat ses item s) = None \<Longrightarrow>
          store (snd (deleteTemporaryVariant cat ses item s))
            = map (\<lambda>r. if row_id r = row_id item
                        then r\<lparr>deletedAt :=
                               Some (clock (snd (deleteTemporaryVariant cat ses item s)))\<rparr>
                        else r) (store s)"
    using rd st update_ok[OF ex1]
    by (cases "loadSession ses (sessionId item)"; cases e)
       (auto simp: deleteTemporaryVariant_def)
next
  assume ex: "list_ex (\<lambda>r. row_id r = row_id item) (store s)"
    and gone: "loadSession ses (sessionId item) \<noteq> None
          \<and> (\<exists>err. result (cat (calls s) (GetVariant (variantId item))) = Reject err
                    \<and> err_code err = Some 404)"
  then obtain a err where a: "loadSession ses (sessionId item) = Some a"
    and r: "result (cat (calls s) (GetVariant (variantId item))) = Reject err"
    and c: "err_code err = Some 404" by auto
  let ?s1 = "s\<lparr>calls := calls s @ [GetVariant (variantId item)],
              clock := clock s + int (took (cat (calls s) (GetVariant (variantId item))))\<rparr>"
  have rd: "read_then_delete cat item s = (None, ?s1)"
    using r c by (simp add: read_then_delete_def admin_request_def Let_def)
  have ex1: "list_ex (\<lambda>r. row_id r = row_id item) (store ?s1)" using ex by simp
  have both: "fst (deleteTemporaryVariant cat ses item s) = None
      \<and> calls (snd (deleteTemporaryVariant cat ses item s))
           = calls s @ [GetVariant (variantId item)]"
    using a rd update_ok[OF ex1] by (simp add: deleteTemporaryVariant_def)
  show "fst (deleteTemporaryVariant cat ses item s) = None" using both by simp
  show "calls (snd (deleteTemporaryVariant cat ses item s))
           = calls s @ [GetVariant (variantId item)]" using both by simp
qed

theorem deleteTemporaryVariant_fails_iff_witness:
  "deleteTemporaryVariant catalog_gone sample_sessions (sample_row ''1'' 0 10 False (Some ''S''))
       (sample_system [sample_row ''1'' 0 10 False (Some ''S'')] 20)
     = (None,
        \<lparr>store = [(sample_row ''1'' 0 10 False (Some ''S''))\<lparr>deletedAt := Some 120\<rparr>],
         cleanupLogs = [], recentErrors = [], requestCache = [],
         calls = [GetVariant ''1''], clock = 120,
         console = []\<rparr>)
   \<and> deleteTemporaryVariant catalog_gone sample_sessions (sample_row ''1'' 0 10 False None)
       (sample_system [sample_row ''1'' 0 10 False None] 20)
     = (Some (Error_of ''Admin session not found''),
        sample_system [sample_row ''1'' 0 10 False None] 20)"
proof -
  let ?r = "sample_row ''1'' 0 10 False (Some ''S'')"
  let ?s = "sample_system [?r] 20"
  let ?q = "sample_row ''1'' 0 10 False None"
  have ex: "list_ex (\<lambda>r. row_id r = row_id ?r) (store ?s)"
    by (simp add: sample_system_def)
  have ex': "list_ex (\<lambda>r. row_id r = row_id ?q) (store (sample_system [?q] 20))"
    by (simp add: sample_system_def)
  have ses: "loadSession sample_sessions (sessionId ?r) \<noteq> None"
    by (simp add: loadSession_def sample_sessions_def sample_row_def)
  have gone: "\<exists>err. result (catalog_gone (calls ?s) (GetVariant (variantId ?r))) = Reject err
                  \<and> err_code err = Some 404"
    by (simp add: catalog_gone_def not_found_def)
  from deleteTemporaryVariant_fails_iff[of ?r ?s catalog_gone sample_sessions] ex ses gone
  have ok: "fst (deleteTemporaryVariant catalog_gone sample_sessions ?r ?s) = None"
    by blast
  have 1: "deleteTemporaryVariant catalog_gone sample_sessions ?r ?s
     = (None, \<lparr>store = [?r\<lparr>deletedAt := Some 120\<rparr>],
         cleanupLogs = [], recentErrors = [], requestCache = [],
         calls = [GetVariant ''1''], clock = 120,
         console = []\<rparr>)"
    by (simp add: deleteTemporaryVariant_def read_then_delete_def admin_request_def
          temporaryProduct_update_def loadSession_def sample_sessions_def sample_row_def
          sample_system_def catalog_gone_def not_found_def Let_def)
  have "loadSession sample_sessions (sessionId ?q) = None"
    by (simp add: loadSession_def sample_row_def)
  with deleteTemporaryVariant_fails_iff[of ?q "sample_system [?q] 20" catalog_gone sample_sessions] ex'
  have 2: "deleteTemporaryVariant catalog_gone sample_sessions ?q (sample_system [?q] 20)
     = (Some (Error_of ''Admin session not found''), sample_system [?q] 20)"
    by blast
  show ?thesis using 1 2 ok by simp
qed

subsection \<open>The error tracker\<close>

lemma trackError_recentErrors:
  "recentErrors (trackError err c s) =
     filter (\<lambda>e. timestamp e > clock s - ERROR_WINDOW_MS)
       (recentErrors s @ [\<lparr>timestamp = clock s, error = err_message err, ctx = c\<rparr>])"
  by (simp add: trackError_def sendAlarm_def Let_def)

lemma trackError_cleanupLogs:
  "cleanupLogs (trackError err c s) =
     cleanupLogs s @
       (if length (recentErrors (trackError err c s)) \<ge> 3
        then [alarm_row (clock s) (recentErrors (trackError err c s))] else [])"
  by (simp add: trackError_def sendAlarm_def Let_def ERROR_THRESHOLD_def alarm_row_def)


lemma trackError_store: "store (trackError err c s) = store s"
  by (simp add: trackError_def sendAlarm_def Let_def)

lemma trackError_attempted:
  "attempted (cleanupLogs (trackError err c s)) = attempted (cleanupLogs s)"
  by (simp add: trackError_def sendAlarm_def Let_def attempted_def)

lemma three_errors_one_alarm:
  fixes e1 e2 e3 :: js_error and c1 c2 c3 :: error_context and s :: system
    and t1 t2 t3 :: millis
  assumes stale: "\<forall>e \<in> set (recentErrors s). timestamp e \<le> t1 - ERROR_WINDOW_MS"
    and ord: "t1 \<le> t2" "t2 \<le> t3" and win: "t3 - t1 < ERROR_WINDOW_MS"
  defines "s1 \<equiv> trackError e1 c1 (s\<lparr>clock := t1\<rparr>)"
  defines "s2 \<equiv> trackError e2 c2 (s1\<lparr>clock := t2\<rparr>)"
  defines "s3 \<equiv> trackError e3 c3 (s2\<lparr>clock := t3\<rparr>)"
  shows "cleanupLogs s1 = cleanupLogs s \<and> cleanupLogs s2 = cleanupLogs s \<and>
         cleanupLogs s3 = cleanupLogs s @
           [alarm_row t3 [\<lparr>timestamp = t1, error = err_message e1, ctx = c1\<rparr>,
                          \<lparr>timestamp = t2, error = err_message e2, ctx = c2\<rparr>,
                          \<lparr>timestamp = t3, error = err_message e3, ctx = c3\<rparr>]]"
proof -
  have W: "ERROR_WINDOW_MS > 0" by (simp add: ERROR_WINDOW_MS_def)
  have f0: "filter (\<lambda>e. timestamp e > t1 - ERROR_WINDOW_MS) (recentErrors s) = []"
    using stale by (auto simp: filter_empty_conv)
  have r1: "recentErrors s1 = [\<lparr>timestamp = t1, error = err_message e1, ctx = c1\<rparr>]"
    unfolding s1_def using f0 W by (simp add: trackError_recentErrors)
  have r2: "recentErrors s2 = [\<lparr>timestamp = t1, error = err_message e1, ctx = c1\<rparr>,
                               \<lparr>timestamp = t2, error = err_message e2, ctx = c2\<rparr>]"
    unfolding s2_def using r1 W ord win by (simp add: trackError_recentErrors)
  have r3: "recentErrors s3 = [\<lparr>timestamp = t1, error = err_message e1, ctx = c1\<rparr>,
                               \<lparr>timestamp = t2, error = err_message e2, ctx = c2\<rparr>,
                               \<lparr>timestamp = t3, error = err_message e3, ctx = c3\<rparr>]"
    unfolding s3_def using r2 W ord win by (simp add: trackError_recentErrors)
  have l1: "cleanupLogs s1 = cleanupLogs s"
    using trackError_cleanupLogs[of e1 c1 "s\<lparr>clock := t1\<rparr>"] r1 by (simp add: s1_def)
  have l2: "cleanupLogs s2 = cleanupLogs s"
    using trackError_cleanupLogs[of e2 c2 "s1\<lparr>clock := t2\<rparr>"] r2 l1 by (simp add: s2_def)
  have l3: "cleanupLogs s3 = cleanupLogs s @ [alarm_row t3 (recentErrors s3)]"
    using trackError_cleanupLogs[of e3 c3 "s2\<lparr>clock := t3\<rparr>"] r3 l2 by (simp add: s3_def)
  show ?thesis using l1 l2 l3 r3 by simp
qed

subsection \<open>The frequent sweep\<close>

lemma attempted_append: "attempted (xs @ ys) = attempted xs @ attempted ys"
  by (simp add: attempted_def)

lemma deleteTemporaryVariant_ids:
  "map row_id (store (snd (deleteTemporaryVariant cat ses item s))) = map row_id (store s)"
proof -
  obtain e s1 where rd: "read_then_delete cat item s = (e, s1)"
    by (cases "read_then_delete cat item s")
  have st: "store s1 = store s" using read_then_delete_store[of cat item s] rd by simp
  show ?thesis using rd st
    by (cases "loadSession ses (sessionId item)"; cases e)
       (auto simp: deleteTemporaryVariant_def temporaryProduct_update_def
          map_row_id_update comp_def)
qed

lemma deleteTemporaryVariant_logs:
  "cleanupLogs (snd (deleteTemporaryVariant cat ses item s)) = cleanupLogs s"
proof -
  obtain e s1 where rd: "read_then_delete cat item s = (e, s1)"
    by (cases "read_then_delete cat item s")
  have st: "cleanupLogs s1 = cleanupLogs s"
    using read_then_delete_logs[of cat item s] rd by simp
  show ?thesis using rd st
    by (cases "loadSession ses (sessionId item)"; cases e)
       (auto simp: deleteTemporaryVariant_def temporaryProduct_update_def)
qed

text \<open>One turn of the loop, for an item whose row is in the table: the handler's own
  update cannot raise, the table keeps its rows, and one attempt is logged.\<close>

lemma cleanup_item_ok:
  assumes "row_id item \<in> set (map row_id (store s))"
  shows "fst (cleanup_item cat ses item st s) = None
       \<and> map row_id (store (snd (snd (cleanup_item cat ses item st s)))) = map row_id (store s)
       \<and> attempted (cleanupLogs (snd (snd (cleanup_item cat ses item st s))))
           = attempted (cleanupLogs s) @ [item_key item]"
proof -
  obtain e s1 where d: "deleteTemporaryVariant cat ses item s = (e, s1)"
    by (cases "deleteTemporaryVariant cat ses item s")
  have ids: "map row_id (store s1) = map row_id (store s)"
    using deleteTemporaryVariant_ids[of cat ses item s] d by simp
  have logs: "cleanupLogs s1 = cleanupLogs s"
    using deleteTemporaryVariant_logs[of cat ses item s] d by simp
  show ?thesis
  proof (cases e)
    case None
    then show ?thesis using d ids logs
      by (simp add: cleanup_item_def logCleanupAction_def attempted_def item_key_def)
  next
    case (Some err)
    let ?s2 = "trackError err (ItemContext (variantId item) (productId item)) s1"
    have ex: "list_ex (\<lambda>r. row_id r = row_id item) (store ?s2)"
      using assms ids by (simp add: list_ex_row_id trackError_store del: set_map)
    have a2: "attempted (cleanupLogs ?s2) = attempted (cleanupLogs s)"
      using logs by (simp add: trackError_attempted)
    show ?thesis using d Some ids a2
      by (simp add: cleanup_item_def Let_def update_ok[OF ex] logCleanupAction_def
            attempted_append trackError_store map_row_id_update comp_def)
         (simp add: attempted_def item_key_def)
  qed
qed

lemma cleanup_loop_ok:
  "set (map row_id items) \<subseteq> set (map row_id (store s)) \<Longrightarrow>
   fst (cleanup_loop cat ses items st s) = None
     \<and> map row_id (store (snd (snd (cleanup_loop cat ses items st s)))) = map row_id (store s)
     \<and> attempted (cleanupLogs (snd (snd (cleanup_loop cat ses items st s))))
         = attempted (cleanupLogs s) @ map item_key items"
proof (induction items arbitrary: st s)
  case Nil
  then show ?case by simp
next
  case (Cons item rest)
  obtain e st1 s1 where ci: "cleanup_item cat ses item st s = (e, st1, s1)"
    by (cases "cleanup_item cat ses item st s") auto
  have "row_id item \<in> set (map row_id (store s))" using Cons.prems by simp
  from cleanup_item_ok[OF this, of cat ses st] ci
  have e: "e = None" and ids: "map row_id (store s1) = map row_id (store s)"
    and att: "attempted (cleanupLogs s1) = attempted (cleanupLogs s) @ [item_key item]"
    by simp_all
  have "set (map row_id rest) \<subseteq> set (map row_id (store s1))" using Cons.prems ids by simp
  from Cons.IH[OF this, of st1] show ?case using ci e ids att by simp
qed

lemma sweep_findMany_set:
  "set (sweep_findMany now rows) =
     {r \<in> set rows. deletedAt r = None \<and> isOrdered r = False \<and> scheduledDeletionAt r \<le> now}"
  by (auto simp: sweep_findMany_def sweep_where_def)

lemma sweep_findMany_sorted: "sorted (map scheduledDeletionAt (sweep_findMany now rows))"
  by (simp add: sweep_findMany_def)

lemma sweep_findMany_earlier_first:
  assumes "i < length (sweep_findMany now rows)" "j < length (sweep_findMany now rows)"
    and "scheduledDeletionAt (sweep_findMany now rows ! i)
           < scheduledDeletionAt (sweep_findMany now rows ! j)"
  shows "i < j"
proof (rule ccontr)
  assume "\<not> i < j"
  then have "j \<le> i" by simp
  from sorted_nth_mono[OF sweep_findMany_sorted[of now rows] this] assms(1) assms(2)
  have "scheduledDeletionAt (sweep_findMany now rows ! j)
          \<le> scheduledDeletionAt (sweep_findMany now rows ! i)" by simp
  with assms(3) show False by simp
qed

lemma runCleanupPass_attempted:
  "attempted (cleanupLogs (snd (runCleanupPass cat ses s)))
     = attempted (cleanupLogs s) @ map item_key (sweep_findMany (clock s) (store s))"
proof -
  let ?td = "sweep_findMany (clock s) (store s)"
  let ?st = "\<lparr>checked = length ?td, deleted = 0, errors = 0, skipped = 0\<rparr>"
  have sub: "set (map row_id ?td) \<subseteq> set (map row_id (store s))"
    by (auto simp: sweep_findMany_set)
  obtain e st1 s1 where cl: "cleanup_loop cat ses ?td ?st s = (e, st1, s1)"
    by (cases "cleanup_loop cat ses ?td ?st s") auto
  from cleanup_loop_ok[OF sub, of cat ses ?st] cl
  have e: "e = None"
    and att: "attempted (cleanupLogs s1) = attempted (cleanupLogs s) @ map item_key ?td"
    by simp_all
  show ?thesis
  proof (cases "?td = []")
    case True
    then show ?thesis
      by (simp add: runCleanupPass_def Let_def logCleanupAction_def attempted_def)
  next
    case False
    then show ?thesis using cl e att
      by (simp add: runCleanupPass_def Let_def logCleanupAction_def attempted_append)
         (simp add: attempted_def)
  qed
qed

lemma reads_append: "reads (xs @ ys) = reads xs @ reads ys"
  by (simp add: reads_def)

lemma read_then_delete_reads:
  "reads (calls (snd (read_then_delete cat item s))) = reads (calls s) @ [variantId item]"
  by (simp add: read_then_delete_def admin_request_def Let_def reads_def
        split: settled.splits prod.splits)

lemma read_then_delete_clock: "clock s \<le> clock (snd (read_then_delete cat item s))"
  by (simp add: read_then_delete_def admin_request_def Let_def split: settled.splits prod.splits)

lemma read_then_delete_recentErrors:
  "recentErrors (snd (read_then_delete cat item s)) = recentErrors s"
  by (simp add: read_then_delete_def admin_request_def Let_def split: settled.splits prod.splits)

text \<open>What \<^verbatim>\<open>deleteTemporaryVariant\<close> leaves behind, for a row of the table.\<close>

lemma deleteTemporaryVariant_effect:
  assumes ex: "row_id item \<in> set (map row_id (store s))"
  shows "reads (calls (snd (deleteTemporaryVariant cat ses item s)))
           = reads (calls s) @ (if loadSession ses (sessionId item) = None then []
                                else [variantId item])"
    and "clock s \<le> clock (snd (deleteTemporaryVariant cat ses item s))"
    and "recentErrors (snd (deleteTemporaryVariant cat ses item s)) = recentErrors s"
    and "fst (deleteTemporaryVariant cat ses item s) = None \<Longrightarrow>
           store (snd (deleteTemporaryVariant cat ses item s))
             = map (\<lambda>r. if row_id r = row_id item
                         then r\<lparr>deletedAt :=
                                Some (clock (snd (deleteTemporaryVariant cat ses item s)))\<rparr>
                         else r) (store s)"
    and "fst (deleteTemporaryVariant cat ses item s) \<noteq> None \<Longrightarrow>
           store (snd (deleteTemporaryVariant cat ses item s)) = store s"
proof -
  obtain e s1 where rd: "read_then_delete cat item s = (e, s1)"
    by (cases "read_then_delete cat item s")
  have st: "store s1 = store s" using read_then_delete_store[of cat item s] rd by simp
  have rs: "reads (calls s1) = reads (calls s) @ [variantId item]"
    using read_then_delete_reads[of cat item s] rd by simp
  have ck: "clock s \<le> clock s1" using read_then_delete_clock[of s cat item] rd by simp
  have re: "recentErrors s1 = recentErrors s"
    using read_then_delete_recentErrors[of cat item s] rd by simp
  have ex1: "list_ex (\<lambda>r. row_id r = row_id item) (store s1)"
    using ex st by (simp add: list_ex_row_id del: set_map)
  note upd = update_ok[OF ex1]
  show "reads (calls (snd (deleteTemporaryVariant cat ses item s)))
           = reads (calls s) @ (if loadSession ses (sessionId item) = None then []
                                else [variantId item])"
    using rd rs upd
    by (cases "loadSession ses (sessionId item)"; cases e)
       (simp_all add: deleteTemporaryVariant_def)
  show "clock s \<le> clock (snd (deleteTemporaryVariant cat ses item s))"
    using rd ck upd
    by (cases "loadSession ses (sessionId item)"; cases e)
       (simp_all add: deleteTemporaryVariant_def)
  show "recentErrors (snd (deleteTemporaryVariant cat ses item s)) = recentErrors s"
    using rd re upd
    by (cases "loadSession ses (sessionId item)"; cases e)
       (simp_all add: deleteTemporaryVariant_def)
  show "fst (deleteTemporaryVariant cat ses item s) = None \<Longrightarrow>
           store (snd (deleteTemporaryVariant cat ses item s))
             = map (\<lambda>r. if row_id r = row_id item
                         then r\<lparr>deletedAt :=
                                Some (clock (snd (deleteTemporaryVariant cat ses item s)))\<rparr>
                         else r) (store s)"
    using rd st upd
    by (cases "loadSession ses (sessionId item)"; cases e)
       (auto simp: deleteTemporaryVariant_def)
  show "fst (deleteTemporaryVariant cat ses item s) \<noteq> None \<Longrightarrow>
           store (snd (deleteTemporaryVariant cat ses item s)) = store s"
    using rd st upd
    by (cases "loadSession ses (sessionId item)"; cases e)
       (auto simp: deleteTemporaryVariant_def)
qed

lemma trackError_calls: "calls (trackError err c s) = calls s"
  by (simp add: trackError_def sendAlarm_def Let_def)

lemma trackError_clock: "clock (trackError err c s) = clock s"
  by (simp add: trackError_def sendAlarm_def Let_def)

lemma map_by_id:
  assumes "distinct (map row_id rows)" "item \<in> set rows"
  shows "map (\<lambda>r. if row_id r = row_id item then g r else r) rows
       = map (\<lambda>r. if r = item then g item else r) rows"
proof (rule map_cong[OF refl])
  fix r assume "r \<in> set rows"
  with assms have "row_id r = row_id item \<longleftrightarrow> r = item"
    by (auto simp: distinct_map dest: inj_onD)
  then show "(if row_id r = row_id item then g r else r) = (if r = item then g item else r)"
    by auto
qed

text \<open>One turn of the loop, seen from the catalog and from the table.\<close>

lemma cleanup_item_reads:
  assumes ex: "row_id item \<in> set (map row_id (store s))"
  shows "reads (calls (snd (snd (cleanup_item cat ses item st s))))
           = reads (calls s) @ (if loadSession ses (sessionId item) = None then []
                                else [variantId item])"
proof -
  obtain e s1 where d: "deleteTemporaryVariant cat ses item s = (e, s1)"
    by (cases "deleteTemporaryVariant cat ses item s")
  note eff = deleteTemporaryVariant_effect[OF ex, of cat ses]
  have rs: "reads (calls s1) = reads (calls s) @ (if loadSession ses (sessionId item) = None
                                                 then [] else [variantId item])"
    using eff(1) d by simp
  show ?thesis
  proof (cases e)
    case None
    then show ?thesis using d rs by (simp add: cleanup_item_def logCleanupAction_def)
  next
    case (Some err)
    let ?s2 = "trackError err (ItemContext (variantId item) (productId item)) s1"
    have st1: "store s1 = store s" using eff(5) d Some by simp
    have exl: "list_ex (\<lambda>r. row_id r = row_id item) (store ?s2)"
      using ex st1 by (simp add: list_ex_row_id trackError_store del: set_map)
    show ?thesis using d Some rs
      by (simp add: cleanup_item_def Let_def update_ok[OF exl] logCleanupAction_def
            trackError_calls)
  qed
qed

lemma cleanup_loop_reads:
  "set (map row_id items) \<subseteq> set (map row_id (store s)) \<Longrightarrow>
   reads (calls (snd (snd (cleanup_loop cat ses items st s))))
     = reads (calls s)
         @ map variantId (filter (\<lambda>r. loadSession ses (sessionId r) \<noteq> None) items)"
proof (induction items arbitrary: st s)
  case Nil
  then show ?case by simp
next
  case (Cons item rest)
  obtain e st1 s1 where ci: "cleanup_item cat ses item st s = (e, st1, s1)"
    by (cases "cleanup_item cat ses item st s") auto
  have ex: "row_id item \<in> set (map row_id (store s))" using Cons.prems by simp
  from cleanup_item_ok[OF ex, of cat ses st] ci
  have e: "e = None" and ids: "map row_id (store s1) = map row_id (store s)" by simp_all
  from cleanup_item_reads[OF ex, of cat ses st] ci
  have rs: "reads (calls s1) = reads (calls s)
               @ (if loadSession ses (sessionId item) = None then [] else [variantId item])"
    by simp
  have "set (map row_id rest) \<subseteq> set (map row_id (store s1))" using Cons.prems ids by simp
  from Cons.IH[OF this, of st1] show ?case using ci e rs by simp
qed

lemma cleanup_item_effect:
  assumes mem: "item \<in> set (store s)" and dist: "distinct (map row_id (store s))"
    and live: "deletedAt item = None"
  shows "\<exists>r'. attempt_recorded (clock s) item r' \<and> row_id r' = row_id item
             \<and> store (snd (snd (cleanup_item cat ses item st s)))
                 = map (\<lambda>r. if r = item then r' else r) (store s)"
    and "clock s \<le> clock (snd (snd (cleanup_item cat ses item st s)))"
proof -
  have ex: "row_id item \<in> set (map row_id (store s))" using mem by simp
  obtain e s1 where d: "deleteTemporaryVariant cat ses item s = (e, s1)"
    by (cases "deleteTemporaryVariant cat ses item s")
  note eff = deleteTemporaryVariant_effect[OF ex, of cat ses]
  have ck: "clock s \<le> clock s1" using eff(2) d by simp
  show "\<exists>r'. attempt_recorded (clock s) item r' \<and> row_id r' = row_id item
             \<and> store (snd (snd (cleanup_item cat ses item st s)))
                 = map (\<lambda>r. if r = item then r' else r) (store s)"
  proof (cases e)
    case None
    have st1: "store s1 = map (\<lambda>r. if row_id r = row_id item
                                    then r\<lparr>deletedAt := Some (clock s1)\<rparr> else r) (store s)"
      using eff(4) d None by simp
    have st2: "store s1 = map (\<lambda>r. if r = item then item\<lparr>deletedAt := Some (clock s1)\<rparr>
                                    else r) (store s)"
      unfolding st1 by (rule map_by_id[OF dist mem])
    have fin: "store (snd (snd (cleanup_item cat ses item st s))) = store s1"
      using d None by (simp add: cleanup_item_def logCleanupAction_def)
    have ar: "attempt_recorded (clock s) item (item\<lparr>deletedAt := Some (clock s1)\<rparr>)"
      "row_id (item\<lparr>deletedAt := Some (clock s1)\<rparr>) = row_id item"
      using ck by (simp_all add: attempt_recorded_def)
    show ?thesis unfolding fin st2 using ar
      by (intro exI[of _ "item\<lparr>deletedAt := Some (clock s1)\<rparr>"]) (simp only: simp_thms)
  next
    case (Some err)
    have st1: "store s1 = store s" using eff(5) d Some by simp
    let ?s2 = "trackError err (ItemContext (variantId item) (productId item)) s1"
    let ?g = "\<lambda>r. r\<lparr>cleanupAttempts := cleanupAttempts r + 1,
                      lastCleanupError :=
                        Some (if err_message err \<noteq> [] then err_message err
                              else error_toString err)\<rparr>"
    have exl: "list_ex (\<lambda>r. row_id r = row_id item) (store ?s2)"
      using ex st1 by (simp add: list_ex_row_id trackError_store del: set_map)
    have m: "map (\<lambda>r. if row_id r = row_id item then ?g r else r) (store s)
           = map (\<lambda>r. if r = item then ?g item else r) (store s)"
      by (rule map_by_id[OF dist mem])
    have fin: "store (snd (snd (cleanup_item cat ses item st s)))
           = map (\<lambda>r. if row_id r = row_id item then ?g r else r) (store s)"
      using d Some st1
      by (simp add: cleanup_item_def Let_def update_ok[OF exl] logCleanupAction_def
            trackError_store)
    have ar: "attempt_recorded (clock s) item (?g item)" "row_id (?g item) = row_id item"
      using live by (simp_all add: attempt_recorded_def)
    show ?thesis unfolding fin m using ar by (intro exI[of _ "?g item"]) (simp only: simp_thms)
  qed
  show "clock s \<le> clock (snd (snd (cleanup_item cat ses item st s)))"
  proof (cases e)
    case None
    then show ?thesis using d ck by (simp add: cleanup_item_def logCleanupAction_def)
  next
    case (Some err)
    let ?s2 = "trackError err (ItemContext (variantId item) (productId item)) s1"
    have st1: "store s1 = store s" using eff(5) d Some by simp
    have exl: "list_ex (\<lambda>r. row_id r = row_id item) (store ?s2)"
      using ex st1 by (simp add: list_ex_row_id trackError_store del: set_map)
    show ?thesis using d Some ck
      by (simp add: cleanup_item_def Let_def update_ok[OF exl] logCleanupAction_def
            trackError_clock)
  qed
qed

lemma attempt_recorded_earlier:
  "now \<le> now' \<Longrightarrow> attempt_recorded now' r r' \<Longrightarrow> attempt_recorded now r r'"
  by (auto simp: attempt_recorded_def split: option.splits)

lemma cleanup_loop_effect:
  assumes "distinct (map row_id (store s))" "distinct (map row_id items)"
    "set items \<subseteq> set (store s)" "\<forall>r \<in> set items. deletedAt r = None"
  shows "list_all2 (\<lambda>r r'. if r \<in> set items then attempt_recorded (clock s) r r' else r' = r)
           (store s) (store (snd (snd (cleanup_loop cat ses items st s))))"
  using assms
proof (induction items arbitrary: st s)
  case Nil
  then show ?case by (simp add: list_all2_same)
next
  case (Cons item rest)
  have mem: "item \<in> set (store s)" using Cons.prems(3) by simp
  have live: "deletedAt item = None" using Cons.prems(4) by simp
  obtain e st1 s1 where ci: "cleanup_item cat ses item st s = (e, st1, s1)"
    by (cases "cleanup_item cat ses item st s") auto
  have "row_id item \<in> set (map row_id (store s))" using mem by simp
  from cleanup_item_ok[OF this, of cat ses st] ci
  have e: "e = None" and ids: "map row_id (store s1) = map row_id (store s)" by simp_all
  from cleanup_item_effect[OF mem Cons.prems(1) live, of cat ses st] ci
  obtain r' where ar: "attempt_recorded (clock s) item r'" and rid: "row_id r' = row_id item"
    and st: "store s1 = map (\<lambda>r. if r = item then r' else r) (store s)"
    and ck: "clock s \<le> clock s1"
    by auto
  have notin: "\<And>x. x \<in> set rest \<Longrightarrow> row_id x \<noteq> row_id item"
    using Cons.prems(2) by (force simp: image_iff)
  have d1: "distinct (map row_id (store s1))" using Cons.prems(1) ids by simp
  have d2: "distinct (map row_id rest)" using Cons.prems(2) by simp
  have sub: "set rest \<subseteq> set (store s1)"
  proof
    fix x assume x: "x \<in> set rest"
    then have "x \<in> set (store s)" "x \<noteq> item" using Cons.prems(3) notin by auto
    then show "x \<in> set (store s1)" unfolding st by (auto simp: image_iff)
  qed
  have lv: "\<forall>r \<in> set rest. deletedAt r = None" using Cons.prems(4) by simp
  let ?fin = "snd (snd (cleanup_loop cat ses rest st1 s1))"
  from Cons.IH[OF d1 d2 sub lv, of st1]
  have ih1: "list_all2 (\<lambda>r r'. if r \<in> set rest then attempt_recorded (clock s1) r r'
                                  else r' = r) (store s1) (store ?fin)"
    by simp
  have step: "cleanup_loop cat ses (item # rest) st s = cleanup_loop cat ses rest st1 s1"
    using ci e by simp
  have len: "length (store s1) = length (store s)" unfolding st by simp
  have A: "list_all2 (\<lambda>r r'. if r \<in> set (item # rest) then attempt_recorded (clock s) r r'
                                else r' = r) (store s) (store ?fin)"
  proof (rule list_all2_all_nthI)
    show "length (store s) = length (store ?fin)"
      using list_all2_lengthD[OF ih1] len by simp
  next
    fix n assume n: "n < length (store s)"
    let ?r = "store s ! n"
    let ?r1 = "store s1 ! n"
    let ?r2 = "store ?fin ! n"
    have r1: "?r1 = (if ?r = item then r' else ?r)" unfolding st using n by simp
    have P: "if ?r1 \<in> set rest then attempt_recorded (clock s1) ?r1 ?r2 else ?r2 = ?r1"
      using list_all2_nthD[OF ih1, of n] n len by simp
    show "if ?r \<in> set (item # rest) then attempt_recorded (clock s) ?r ?r2 else ?r2 = ?r"
    proof (cases "?r = item")
      case True
      have "r' \<notin> set rest" using notin rid by auto
      then have "?r2 = r'" using P r1 True by simp
      then show ?thesis using True ar by simp
    next
      case False
      then have eq: "?r1 = ?r" using r1 by simp
      show ?thesis
      proof (cases "?r \<in> set rest")
        case True
        then have "attempt_recorded (clock s1) ?r ?r2" using P eq by simp
        from attempt_recorded_earlier[OF ck this] show ?thesis using True by simp
      next
        case nr: False
        then show ?thesis using P eq False by simp
      qed
    qed
  qed
  show ?case unfolding step using A by (simp only:)
qed

lemma logCleanupAction_frame:
  "store (logCleanupAction a p v m d s) = store s"
  "calls (logCleanupAction a p v m d s) = calls s"
  "clock (logCleanupAction a p v m d s) = clock s"
  "recentErrors (logCleanupAction a p v m d s) = recentErrors s"
  by (simp_all add: logCleanupAction_def)

lemma sweep_findMany_distinct:
  "distinct (map row_id rows) \<Longrightarrow> distinct (map row_id (sweep_findMany now rows))"
  by (simp add: sweep_findMany_def distinct_map inj_on_def)

lemma runCleanupPass_effect:
  "reads (calls (snd (runCleanupPass cat ses s)))
     = reads (calls s)
         @ map variantId (filter (\<lambda>r. loadSession ses (sessionId r) \<noteq> None)
                            (sweep_findMany (clock s) (store s)))"
  "distinct (map row_id (store s)) \<Longrightarrow>
     list_all2 (\<lambda>r r'. if sweep_where (clock s) r then attempt_recorded (clock s) r r'
                        else r' = r)
       (store s) (store (snd (runCleanupPass cat ses s)))"
proof -
  let ?td = "sweep_findMany (clock s) (store s)"
  let ?st = "\<lparr>checked = length ?td, deleted = 0, errors = 0, skipped = 0\<rparr>"
  have sub: "set ?td \<subseteq> set (store s)" by (auto simp: sweep_findMany_set)
  have subid: "set (map row_id ?td) \<subseteq> set (map row_id (store s))" using sub by auto
  have lv: "\<forall>r \<in> set ?td. deletedAt r = None" by (simp add: sweep_findMany_set)
  have sel: "\<And>r. r \<in> set (store s) \<Longrightarrow> r \<in> set ?td \<longleftrightarrow> sweep_where (clock s) r"
    by (auto simp: sweep_findMany_set sweep_where_def)
  obtain e st1 s1 where cl: "cleanup_loop cat ses ?td ?st s = (e, st1, s1)"
    by (cases "cleanup_loop cat ses ?td ?st s") auto
  from cleanup_loop_ok[OF subid, of cat ses ?st] cl have e: "e = None" by simp
  have fin: "store (snd (runCleanupPass cat ses s)) = store s1
      \<and> calls (snd (runCleanupPass cat ses s)) = calls s1" if "?td \<noteq> []"
    using that cl e by (simp add: runCleanupPass_def Let_def logCleanupAction_frame)
  have fin0: "store (snd (runCleanupPass cat ses s)) = store s
      \<and> calls (snd (runCleanupPass cat ses s)) = calls s" if "?td = []"
    using that by (simp add: runCleanupPass_def Let_def logCleanupAction_frame)
  show "reads (calls (snd (runCleanupPass cat ses s)))
     = reads (calls s)
         @ map variantId (filter (\<lambda>r. loadSession ses (sessionId r) \<noteq> None) ?td)"
  proof (cases "?td = []")
    case True
    then show ?thesis using fin0 by simp
  next
    case False
    from cleanup_loop_reads[OF subid, of cat ses ?st] cl
    have "reads (calls s1) = reads (calls s)
         @ map variantId (filter (\<lambda>r. loadSession ses (sessionId r) \<noteq> None) ?td)"
      by simp
    then show ?thesis using fin[OF False] by simp
  qed
  show "list_all2 (\<lambda>r r'. if sweep_where (clock s) r then attempt_recorded (clock s) r r'
                        else r' = r)
       (store s) (store (snd (runCleanupPass cat ses s)))"
    if dist: "distinct (map row_id (store s))"
  proof (cases "?td = []")
    case True
    then have "\<And>r. r \<in> set (store s) \<Longrightarrow> \<not> sweep_where (clock s) r" using sel by simp
    then show ?thesis using fin0[OF True] by (simp add: list_all2_same)
  next
    case False
    from cleanup_loop_effect[OF dist sweep_findMany_distinct[OF dist] sub lv, of cat ses ?st] cl
    have "list_all2 (\<lambda>r r'. if r \<in> set ?td then attempt_recorded (clock s) r r' else r' = r)
           (store s) (store s1)" by simp
    then have "list_all2 (\<lambda>r r'. if sweep_where (clock s) r then attempt_recorded (clock s) r r'
                        else r' = r) (store s) (store s1)"
      by (rule list.rel_mono_strong) (simp add: sel)
    then show ?thesis using fin[OF False] by simp
  qed
qed

text \<open>The calls of a pass at a catalog that resolves every read of a variant.\<close>

lemma deleteTemporaryVariant_calls:
  assumes ex: "row_id item \<in> set (map row_id (store s))"
    and ok: "\<forall>h v. \<exists>b. result (cat h (GetVariant v)) = Resolve b"
  shows "calls (snd (deleteTemporaryVariant cat ses item s))
           = calls s @ (if loadSession ses (sessionId item) = None then []
                        else [GetVariant (variantId item),
                              DeleteVariant (productId item) (variantId item)])"
proof -
  from ok obtain b where b: "result (cat (calls s) (GetVariant (variantId item))) = Resolve b"
    by blast
  obtain e s1 where rd: "read_then_delete cat item s = (e, s1)"
    by (cases "read_then_delete cat item s")
  have c1: "calls s1 = calls s @ [GetVariant (variantId item),
                                  DeleteVariant (productId item) (variantId item)]"
    using rd b
    by (auto simp: read_then_delete_def admin_request_def Let_def
          split: settled.splits prod.splits if_splits)
  have st: "store s1 = store s" using read_then_delete_store[of cat item s] rd by simp
  have ex1: "list_ex (\<lambda>r. row_id r = row_id item) (store s1)"
    using ex st by (simp add: list_ex_row_id del: set_map)
  show ?thesis using rd c1 update_ok[OF ex1]
    by (cases "loadSession ses (sessionId item)"; cases e)
       (simp_all add: deleteTemporaryVariant_def)
qed

lemma cleanup_item_calls:
  assumes ex: "row_id item \<in> set (map row_id (store s))"
    and ok: "\<forall>h v. \<exists>b. result (cat h (GetVariant v)) = Resolve b"
  shows "calls (snd (snd (cleanup_item cat ses item st s)))
           = calls s @ (if loadSession ses (sessionId item) = None then []
                        else [GetVariant (variantId item),
                              DeleteVariant (productId item) (variantId item)])"
proof -
  obtain e s1 where d: "deleteTemporaryVariant cat ses item s = (e, s1)"
    by (cases "deleteTemporaryVariant cat ses item s")
  have cs: "calls s1 = calls s @ (if loadSession ses (sessionId item) = None then []
                        else [GetVariant (variantId item),
                              DeleteVariant (productId item) (variantId item)])"
    using deleteTemporaryVariant_calls[OF ex ok, of ses] d by simp
  show ?thesis
  proof (cases e)
    case None
    then show ?thesis using d cs by (simp add: cleanup_item_def logCleanupAction_def)
  next
    case (Some err)
    let ?s2 = "trackError err (ItemContext (variantId item) (productId item)) s1"
    have st1: "store s1 = store s"
      using deleteTemporaryVariant_effect(5)[OF ex, of cat ses] d Some by simp
    have exl: "list_ex (\<lambda>r. row_id r = row_id item) (store ?s2)"
      using ex st1 by (simp add: list_ex_row_id trackError_store del: set_map)
    show ?thesis using d Some cs
      by (simp add: cleanup_item_def Let_def update_ok[OF exl] logCleanupAction_def
            trackError_calls)
  qed
qed

lemma cleanup_loop_calls:
  "set (map row_id items) \<subseteq> set (map row_id (store s)) \<Longrightarrow>
   \<forall>h v. \<exists>b. result (cat h (GetVariant v)) = Resolve b \<Longrightarrow>
   calls (snd (snd (cleanup_loop cat ses items st s)))
     = calls s
         @ concat (map (\<lambda>r. [GetVariant (variantId r), DeleteVariant (productId r) (variantId r)])
                     (filter (\<lambda>r. loadSession ses (sessionId r) \<noteq> None) items))"
proof (induction items arbitrary: st s)
  case Nil
  then show ?case by simp
next
  case (Cons item rest)
  obtain e st1 s1 where ci: "cleanup_item cat ses item st s = (e, st1, s1)"
    by (cases "cleanup_item cat ses item st s") auto
  have ex: "row_id item \<in> set (map row_id (store s))" using Cons.prems(1) by simp
  from cleanup_item_ok[OF ex, of cat ses st] ci
  have e: "e = None" and ids: "map row_id (store s1) = map row_id (store s)" by simp_all
  from cleanup_item_calls[OF ex Cons.prems(2), of ses st] ci
  have cs: "calls s1 = calls s @ (if loadSession ses (sessionId item) = None then []
                        else [GetVariant (variantId item),
                              DeleteVariant (productId item) (variantId item)])"
    by simp
  have "set (map row_id rest) \<subseteq> set (map row_id (store s1))"
    using Cons.prems(1) ids by simp
  from Cons.IH[OF this Cons.prems(2), of st1] show ?case using ci e cs by simp
qed

lemma runCleanupPass_calls:
  assumes ok: "\<forall>h v. \<exists>b. result (cat h (GetVariant v)) = Resolve b"
  shows "calls (snd (runCleanupPass cat ses s))
     = calls s
         @ concat (map (\<lambda>r. [GetVariant (variantId r), DeleteVariant (productId r) (variantId r)])
                     (filter (\<lambda>r. loadSession ses (sessionId r) \<noteq> None)
                        (sweep_findMany (clock s) (store s))))"
proof -
  let ?td = "sweep_findMany (clock s) (store s)"
  let ?st = "\<lparr>checked = length ?td, deleted = 0, errors = 0, skipped = 0\<rparr>"
  have subid: "set (map row_id ?td) \<subseteq> set (map row_id (store s))"
    by (auto simp: sweep_findMany_set)
  obtain e st1 s1 where cl: "cleanup_loop cat ses ?td ?st s = (e, st1, s1)"
    by (cases "cleanup_loop cat ses ?td ?st s") auto
  from cleanup_loop_ok[OF subid, of cat ses ?st] cl have e: "e = None" by simp
  show ?thesis
  proof (cases "?td = []")
    case True
    then show ?thesis by (simp add: runCleanupPass_def Let_def logCleanupAction_frame)
  next
    case False
    from cleanup_loop_calls[OF subid ok, of ses ?st] cl
    have "calls s1 = calls s
         @ concat (map (\<lambda>r. [GetVariant (variantId r), DeleteVariant (productId r) (variantId r)])
                     (filter (\<lambda>r. loadSession ses (sessionId r) \<noteq> None) ?td))"
      by simp
    then show ?thesis using False cl e
      by (simp add: runCleanupPass_def Let_def logCleanupAction_frame)
  qed
qed

text \<open>
  C5. The sweep's query returns exactly the rows with \<^verbatim>\<open>deletedAt\<close> null,
  \<^verbatim>\<open>isOrdered\<close> false and \<^verbatim>\<open>scheduledDeletionAt\<close> at most now, in ascending order of
  \<^verbatim>\<open>scheduledDeletionAt\<close>; the pass attempts them, all of them and no others, in that
  order, so a selected row with a strictly earlier time is attempted strictly earlier.
  The attempts are seen in the log (one row per item), at the catalog (the variants of
  the selected rows that have a session are read in that order, and no other variant is
  read) and in the table (with distinct row identifiers, every selected row ends with
  \<^verbatim>\<open>deletedAt\<close> set or with its counter raised and an error text stored, and every other
  row is unchanged). At a catalog that resolves every read, the calls of the pass are
  exactly a read followed by a delete for each selected row that has a session, in that
  order.
\<close>

theorem runCleanupPass_selects_and_orders:
  "set (sweep_findMany (clock s) (store s)) =
     {r \<in> set (store s). deletedAt r = None \<and> isOrdered r = False
                          \<and> scheduledDeletionAt r \<le> clock s}
   \<and> sorted (map scheduledDeletionAt (sweep_findMany (clock s) (store s)))
   \<and> attempted (cleanupLogs (snd (runCleanupPass cat ses s)))
       = attempted (cleanupLogs s) @ map item_key (sweep_findMany (clock s) (store s))
   \<and> (\<forall>i j. i < length (sweep_findMany (clock s) (store s))
            \<and> j < length (sweep_findMany (clock s) (store s))
            \<and> scheduledDeletionAt (sweep_findMany (clock s) (store s) ! i)
                < scheduledDeletionAt (sweep_findMany (clock s) (store s) ! j)
            \<longrightarrow> i < j)
   \<and> reads (calls (snd (runCleanupPass cat ses s)))
       = reads (calls s)
           @ map variantId (filter (\<lambda>r. loadSession ses (sessionId r) \<noteq> None)
                              (sweep_findMany (clock s) (store s)))
   \<and> (distinct (map row_id (store s)) \<longrightarrow>
        list_all2 (\<lambda>r r'. if sweep_where (clock s) r then attempt_recorded (clock s) r r'
                           else r' = r)
          (store s) (store (snd (runCleanupPass cat ses s))))
   \<and> ((\<forall>h v. \<exists>b. result (cat h (GetVariant v)) = Resolve b) \<longrightarrow>
        calls (snd (runCleanupPass cat ses s))
          = calls s
              @ concat (map (\<lambda>r. [GetVariant (variantId r),
                                   DeleteVariant (productId r) (variantId r)])
                          (filter (\<lambda>r. loadSession ses (sessionId r) \<noteq> None)
                             (sweep_findMany (clock s) (store s)))))"
  using sweep_findMany_set[of "clock s" "store s"] sweep_findMany_sorted[of "clock s" "store s"]
    runCleanupPass_attempted[of cat ses s] sweep_findMany_earlier_first[of _ "clock s" "store s"]
    runCleanupPass_effect[where cat = cat and ses = ses and s = s]
    runCleanupPass_calls[where cat = cat and ses = ses and s = s]
  by blast

text \<open>A sweep at time 500 over six rows: one ordered, one not yet due, three due with a
  session and one due without.\<close>

lemma sample_sweep:
  "runCleanupPass catalog_ok sample_sessions
      (sample_system
         [sample_row ''c'' 0 300 False (Some ''S''),
          sample_row ''o'' 0 50 True (Some ''S''),
          sample_row ''a'' 0 100 False (Some ''S''),
          sample_row ''f'' 0 900 False (Some ''S''),
          sample_row ''b'' 0 200 False (Some ''S''),
          sample_row ''d'' 0 400 False None] 500)
   = (\<lparr>checked = 4, deleted = 3, errors = 1, skipped = 0\<rparr>,
      \<lparr>store =
         [(sample_row ''c'' 0 300 False (Some ''S''))\<lparr>deletedAt := Some 1100\<rparr>,
          sample_row ''o'' 0 50 True (Some ''S''),
          (sample_row ''a'' 0 100 False (Some ''S''))\<lparr>deletedAt := Some 700\<rparr>,
          sample_row ''f'' 0 900 False (Some ''S''),
          (sample_row ''b'' 0 200 False (Some ''S''))\<lparr>deletedAt := Some 900\<rparr>,
          (sample_row ''d'' 0 400 False None)
             \<lparr>cleanupAttempts := 1, lastCleanupError := Some ''Admin session not found''\<rparr>],
       cleanupLogs =
         [\<lparr>log_createdAt = 700, log_action = Deleted, log_productId = Some ''P'',
           log_variantId = Some ''a'', log_message = DeletedSuccessfully 120 80 ''pamuk'',
           log_errorDetails = None\<rparr>,
          \<lparr>log_createdAt = 900, log_action = Deleted, log_productId = Some ''P'',
           log_variantId = Some ''b'', log_message = DeletedSuccessfully 120 80 ''pamuk'',
           log_errorDetails = None\<rparr>,
          \<lparr>log_createdAt = 1100, log_action = Deleted, log_productId = Some ''P'',
           log_variantId = Some ''c'', log_message = DeletedSuccessfully 120 80 ''pamuk'',
           log_errorDetails = None\<rparr>,
          \<lparr>log_createdAt = 1100, log_action = Error, log_productId = Some ''P'',
           log_variantId = Some ''d'', log_message = CleanupFailed,
           log_errorDetails = Some (ErrorText ''Error: Admin session not found'')\<rparr>,
          \<lparr>log_createdAt = 1100, log_action = Cleanup_run, log_productId = None,
           log_variantId = None, log_message = PassCompleted 3 1,
           log_errorDetails =
             Some (StatsJson \<lparr>checked = 4, deleted = 3, errors = 1, skipped = 0\<rparr>)\<rparr>],
       recentErrors =
         [\<lparr>timestamp = 1100, error = ''Admin session not found'',
           ctx = ItemContext ''d'' ''P''\<rparr>],
       requestCache = [],
       calls = [GetVariant ''a'', DeleteVariant ''P'' ''a'', GetVariant ''b'',
                DeleteVariant ''P'' ''b'', GetVariant ''c'', DeleteVariant ''P'' ''c''],
       clock = 1100,
       console =
         [ErrorTrackedLine \<lparr>timestamp = 1100, error = ''Admin session not found'',
            ctx = ItemContext ''d'' ''P''\<rparr>]\<rparr>)"
  by (simp add: runCleanupPass_def sweep_findMany_def sweep_where_def cleanup_item_def
        deleteTemporaryVariant_def read_then_delete_def admin_request_def
        temporaryProduct_update_def loadSession_def logCleanupAction_def trackError_def
        sendAlarm_def ERROR_WINDOW_MS_def ERROR_THRESHOLD_def Error_of_def error_toString_def
        sample_sessions_def sample_row_def sample_system_def catalog_ok_def Let_def)

theorem runCleanupPass_selects_and_orders_witness:
  "attempted (cleanupLogs (snd (runCleanupPass catalog_ok sample_sessions
      (sample_system
         [sample_row ''c'' 0 300 False (Some ''S''),
          sample_row ''o'' 0 50 True (Some ''S''),
          sample_row ''a'' 0 100 False (Some ''S''),
          sample_row ''f'' 0 900 False (Some ''S''),
          sample_row ''b'' 0 200 False (Some ''S''),
          sample_row ''d'' 0 400 False None] 500))))
     = [(Some ''P'', Some ''a''), (Some ''P'', Some ''b''), (Some ''P'', Some ''c''),
        (Some ''P'', Some ''d'')]
   \<and> set (sweep_findMany 500
         [sample_row ''c'' 0 300 False (Some ''S''),
          sample_row ''o'' 0 50 True (Some ''S''),
          sample_row ''a'' 0 100 False (Some ''S''),
          sample_row ''f'' 0 900 False (Some ''S''),
          sample_row ''b'' 0 200 False (Some ''S''),
          sample_row ''d'' 0 400 False None])
     = {sample_row ''a'' 0 100 False (Some ''S''), sample_row ''b'' 0 200 False (Some ''S''),
        sample_row ''c'' 0 300 False (Some ''S''), sample_row ''d'' 0 400 False None}
   \<and> scheduledDeletionAt (sweep_findMany 500
         [sample_row ''c'' 0 300 False (Some ''S''),
          sample_row ''o'' 0 50 True (Some ''S''),
          sample_row ''a'' 0 100 False (Some ''S''),
          sample_row ''f'' 0 900 False (Some ''S''),
          sample_row ''b'' 0 200 False (Some ''S''),
          sample_row ''d'' 0 400 False None] ! 0)
     < scheduledDeletionAt (sweep_findMany 500
         [sample_row ''c'' 0 300 False (Some ''S''),
          sample_row ''o'' 0 50 True (Some ''S''),
          sample_row ''a'' 0 100 False (Some ''S''),
          sample_row ''f'' 0 900 False (Some ''S''),
          sample_row ''b'' 0 200 False (Some ''S''),
          sample_row ''d'' 0 400 False None] ! 2)
   \<and> reads (calls (snd (runCleanupPass catalog_ok sample_sessions
      (sample_system
         [sample_row ''c'' 0 300 False (Some ''S''),
          sample_row ''o'' 0 50 True (Some ''S''),
          sample_row ''a'' 0 100 False (Some ''S''),
          sample_row ''f'' 0 900 False (Some ''S''),
          sample_row ''b'' 0 200 False (Some ''S''),
          sample_row ''d'' 0 400 False None] 500))))
     = [''a'', ''b'', ''c'']
   \<and> list_all2 (\<lambda>r r'. if sweep_where 500 r then attempt_recorded 500 r r' else r' = r)
         [sample_row ''c'' 0 300 False (Some ''S''),
          sample_row ''o'' 0 50 True (Some ''S''),
          sample_row ''a'' 0 100 False (Some ''S''),
          sample_row ''f'' 0 900 False (Some ''S''),
          sample_row ''b'' 0 200 False (Some ''S''),
          sample_row ''d'' 0 400 False None]
         (store (snd (runCleanupPass catalog_ok sample_sessions
            (sample_system
               [sample_row ''c'' 0 300 False (Some ''S''),
          sample_row ''o'' 0 50 True (Some ''S''),
          sample_row ''a'' 0 100 False (Some ''S''),
          sample_row ''f'' 0 900 False (Some ''S''),
          sample_row ''b'' 0 200 False (Some ''S''),
          sample_row ''d'' 0 400 False None] 500))))
   \<and> map deletedAt (store (snd (runCleanupPass catalog_ok sample_sessions
            (sample_system
               [sample_row ''c'' 0 300 False (Some ''S''),
          sample_row ''o'' 0 50 True (Some ''S''),
          sample_row ''a'' 0 100 False (Some ''S''),
          sample_row ''f'' 0 900 False (Some ''S''),
          sample_row ''b'' 0 200 False (Some ''S''),
          sample_row ''d'' 0 400 False None] 500))))
     = [Some 1100, None, Some 700, None, Some 900, None]
   \<and> map cleanupAttempts (store (snd (runCleanupPass catalog_ok sample_sessions
            (sample_system
               [sample_row ''c'' 0 300 False (Some ''S''),
          sample_row ''o'' 0 50 True (Some ''S''),
          sample_row ''a'' 0 100 False (Some ''S''),
          sample_row ''f'' 0 900 False (Some ''S''),
          sample_row ''b'' 0 200 False (Some ''S''),
          sample_row ''d'' 0 400 False None] 500))))
     = [0, 0, 0, 0, 0, 1]
   \<and> calls (snd (runCleanupPass catalog_ok sample_sessions
            (sample_system
               [sample_row ''c'' 0 300 False (Some ''S''),
          sample_row ''o'' 0 50 True (Some ''S''),
          sample_row ''a'' 0 100 False (Some ''S''),
          sample_row ''f'' 0 900 False (Some ''S''),
          sample_row ''b'' 0 200 False (Some ''S''),
          sample_row ''d'' 0 400 False None] 500)))
     = [GetVariant ''a'', DeleteVariant ''P'' ''a'', GetVariant ''b'',
        DeleteVariant ''P'' ''b'', GetVariant ''c'', DeleteVariant ''P'' ''c'']"
proof -
  let ?rows = "[sample_row ''c'' 0 300 False (Some ''S''),
          sample_row ''o'' 0 50 True (Some ''S''),
          sample_row ''a'' 0 100 False (Some ''S''),
          sample_row ''f'' 0 900 False (Some ''S''),
          sample_row ''b'' 0 200 False (Some ''S''),
          sample_row ''d'' 0 400 False None]"
  let ?s = "sample_system ?rows 500"
  let ?fin = "snd (runCleanupPass catalog_ok sample_sessions ?s)"
  have sel: "sweep_findMany 500 ?rows =
      [sample_row ''a'' 0 100 False (Some ''S''), sample_row ''b'' 0 200 False (Some ''S''),
       sample_row ''c'' 0 300 False (Some ''S''), sample_row ''d'' 0 400 False None]"
    by (simp add: sweep_findMany_def sweep_where_def sample_row_def)
  have st: "clock ?s = 500" "store ?s = ?rows" "cleanupLogs ?s = []" "calls ?s = []"
    by (simp_all add: sample_system_def)
  have dist: "distinct (map row_id (store ?s))" unfolding st by (simp add: sample_row_def)
  note T = runCleanupPass_selects_and_orders[of ?s catalog_ok sample_sessions]
  from T have "attempted (cleanupLogs ?fin)
      = attempted (cleanupLogs ?s) @ map item_key (sweep_findMany (clock ?s) (store ?s))"
    by blast
  then have 1: "attempted (cleanupLogs ?fin)
     = [(Some ''P'', Some ''a''), (Some ''P'', Some ''b''), (Some ''P'', Some ''c''),
        (Some ''P'', Some ''d'')]"
    unfolding st sel by (simp add: attempted_def item_key_def sample_row_def)
  from T have "set (sweep_findMany (clock ?s) (store ?s)) =
     {r \<in> set (store ?s). deletedAt r = None \<and> isOrdered r = False
                          \<and> scheduledDeletionAt r \<le> clock ?s}"
    by blast
  then have 2: "set (sweep_findMany 500 ?rows)
     = {sample_row ''a'' 0 100 False (Some ''S''), sample_row ''b'' 0 200 False (Some ''S''),
        sample_row ''c'' 0 300 False (Some ''S''), sample_row ''d'' 0 400 False None}"
    unfolding sel by simp
  from T have "\<forall>i j. i < length (sweep_findMany (clock ?s) (store ?s))
            \<and> j < length (sweep_findMany (clock ?s) (store ?s))
            \<and> scheduledDeletionAt (sweep_findMany (clock ?s) (store ?s) ! i)
                < scheduledDeletionAt (sweep_findMany (clock ?s) (store ?s) ! j)
            \<longrightarrow> i < j"
    by blast
  then have "0 < length (sweep_findMany 500 ?rows) \<and> 2 < length (sweep_findMany 500 ?rows)
      \<and> scheduledDeletionAt (sweep_findMany 500 ?rows ! 0)
          < scheduledDeletionAt (sweep_findMany 500 ?rows ! 2) \<longrightarrow> (0 :: nat) < 2"
    unfolding st by blast
  have 3: "scheduledDeletionAt (sweep_findMany 500 ?rows ! 0)
          < scheduledDeletionAt (sweep_findMany 500 ?rows ! 2)"
    unfolding sel by (simp add: sample_row_def)
  from T have "reads (calls ?fin)
       = reads (calls ?s)
           @ map variantId (filter (\<lambda>r. loadSession sample_sessions (sessionId r) \<noteq> None)
                              (sweep_findMany (clock ?s) (store ?s)))"
    by blast
  then have 4: "reads (calls ?fin) = [''a'', ''b'', ''c'']"
    unfolding st sel
    by (simp add: reads_def loadSession_def sample_sessions_def sample_row_def)
  from T dist have "list_all2 (\<lambda>r r'. if sweep_where (clock ?s) r
                                       then attempt_recorded (clock ?s) r r' else r' = r)
          (store ?s) (store ?fin)"
    by blast
  then have 5: "list_all2 (\<lambda>r r'. if sweep_where 500 r then attempt_recorded 500 r r'
                                   else r' = r) ?rows (store ?fin)"
    unfolding st .
  have 6: "map deletedAt (store ?fin) = [Some 1100, None, Some 700, None, Some 900, None]"
    "map cleanupAttempts (store ?fin) = [0, 0, 0, 0, 0, 1]"
    unfolding sample_sweep by (simp_all add: sample_row_def)
  have ok: "\<forall>h v. \<exists>b. result (catalog_ok h (GetVariant v)) = Resolve b"
    by (simp add: catalog_ok_def)
  from T ok have "calls ?fin
          = calls ?s
              @ concat (map (\<lambda>r. [GetVariant (variantId r),
                                   DeleteVariant (productId r) (variantId r)])
                          (filter (\<lambda>r. loadSession sample_sessions (sessionId r) \<noteq> None)
                             (sweep_findMany (clock ?s) (store ?s))))"
    by blast
  then have 7: "calls ?fin
     = [GetVariant ''a'', DeleteVariant ''P'' ''a'', GetVariant ''b'',
        DeleteVariant ''P'' ''b'', GetVariant ''c'', DeleteVariant ''P'' ''c'']"
    unfolding st sel by (simp add: loadSession_def sample_sessions_def sample_row_def)
  show ?thesis using 1 2 3 4 5 6 7 by (intro conjI)
qed

text \<open>The handler of the sweep does the bookkeeping of a failed deletion: the row's
  counter goes up by one and the error text is stored.\<close>

lemma cleanup_item_counts_failure:
  assumes "row_id item \<in> set (map row_id (store s))"
    and "fst (deleteTemporaryVariant cat ses item s) = Some err"
  shows "map (\<lambda>r. (row_id r, cleanupAttempts r, lastCleanupError r))
           (store (snd (snd (cleanup_item cat ses item st s))))
       = map (\<lambda>r. if row_id r = row_id item
                   then (row_id r, cleanupAttempts r + 1,
                         Some (if err_message err \<noteq> [] then err_message err
                               else error_toString err))
                   else (row_id r, cleanupAttempts r, lastCleanupError r)) (store s)"
proof -
  obtain s1 where d: "deleteTemporaryVariant cat ses item s = (Some err, s1)"
    using assms(2) by (cases "deleteTemporaryVariant cat ses item s") auto
  obtain e0 s0 where rd: "read_then_delete cat item s = (e0, s0)"
    by (cases "read_then_delete cat item s")
  have st0: "store s0 = store s" using read_then_delete_store[of cat item s] rd by simp
  have st: "store s1 = store s"
    using d rd st0
    by (cases "loadSession ses (sessionId item)"; cases e0)
       (auto simp: deleteTemporaryVariant_def temporaryProduct_update_def
          split: if_splits)
  let ?s2 = "trackError err (ItemContext (variantId item) (productId item)) s1"
  have ex: "list_ex (\<lambda>r. row_id r = row_id item) (store ?s2)"
    using assms(1) st by (simp add: list_ex_row_id trackError_store del: set_map)
  show ?thesis using d st
    by (simp add: cleanup_item_def Let_def update_ok[OF ex] logCleanupAction_def
          trackError_store comp_def if_distrib cong: if_cong)
qed

text \<open>The sweep's query never returns an ordered row.\<close>

lemma sweep_findMany_not_ordered: "r \<in> set (sweep_findMany now rows) \<Longrightarrow> \<not> isOrdered r"
  by (simp add: sweep_findMany_set)

subsection \<open>Error clustering in the sweep\<close>










subsection \<open>The daily full scan\<close>

text \<open>
  C1. The daily full scan reads every row with \<^verbatim>\<open>deletedAt\<close> null and tests only the
  age: for an ordered row created 24 hours ago it calls the catalog's delete and sets
  \<^verbatim>\<open>deletedAt\<close>.
\<close>

theorem runDailyFullScan_deletes_ordered_row:
  "isOrdered (sample_row ''1'' 0 7200000 True (Some ''S''))
   \<and> runDailyFullScan catalog_ok sample_sessions
       (sample_system [sample_row ''1'' 0 7200000 True (Some ''S'')] 86400000)
     = \<lparr>store = [(sample_row ''1'' 0 7200000 True (Some ''S''))\<lparr>deletedAt := Some 86400200\<rparr>],
        cleanupLogs =
          [\<lparr>log_createdAt = 86400200, log_action = Daily_scan, log_productId = None,
            log_variantId = None, log_message = DailyCompleted 1 0 1,
            log_errorDetails = None\<rparr>],
        recentErrors = [], requestCache = [],
        calls = [GetVariant ''1'', DeleteVariant ''P'' ''1''],
        clock = 86400200, console = []\<rparr>"
  by (simp add: runDailyFullScan_def daily_item_def deleteTemporaryVariant_def
        read_then_delete_def admin_request_def temporaryProduct_update_def loadSession_def
        logCleanupAction_def sample_sessions_def sample_row_def sample_system_def
        catalog_ok_def Let_def)

text \<open>
  C3. In the daily full scan a failed deletion (here: no session for the row) is counted
  in the summary and written to the diagnostic output only; the row keeps
  \<^verbatim>\<open>cleanupAttempts = 0\<close> and \<^verbatim>\<open>lastCleanupError = null\<close>.
\<close>

theorem runDailyFullScan_failure_not_recorded:
  "cleanupAttempts (sample_row ''1'' 0 7200000 False None) = 0
   \<and> lastCleanupError (sample_row ''1'' 0 7200000 False None) = None
   \<and> runDailyFullScan catalog_ok sample_sessions
       (sample_system [sample_row ''1'' 0 7200000 False None] 86400000)
     = \<lparr>store = [sample_row ''1'' 0 7200000 False None],
        cleanupLogs =
          [\<lparr>log_createdAt = 86400000, log_action = Daily_scan, log_productId = None,
            log_variantId = None, log_message = DailyCompleted 0 1 1,
            log_errorDetails = None\<rparr>],
        recentErrors = [], requestCache = [],
        calls = [],
        clock = 86400000,
        console = [DailyScanErrorLine ''1'' (Error_of ''Admin session not found'')]\<rparr>"
  by (simp add: runDailyFullScan_def daily_item_def deleteTemporaryVariant_def
        read_then_delete_def admin_request_def temporaryProduct_update_def loadSession_def
        logCleanupAction_def sample_sessions_def sample_row_def sample_system_def
        catalog_ok_def Let_def)


section \<open>Properties of the provisioning route\<close>

subsection \<open>Rounding to a double\<close>

lemma bitlen_pos: "n > 0 \<Longrightarrow> bitlen n = 1 + bitlen (n div 2)"
  by (subst bitlen.simps) simp

lemma bitlen_nonpos: "n \<le> 0 \<Longrightarrow> bitlen n = 0"
  by (subst bitlen.simps) simp

lemma bitlen_bounds:
  "n > 0 \<Longrightarrow> bitlen n \<ge> 1 \<and> 2 ^ nat (bitlen n - 1) \<le> n \<and> n < 2 ^ nat (bitlen n)"
proof (induction n rule: bitlen.induct)
  case (1 n)
  show ?case
  proof (cases "n div 2 > 0")
    case False
    with "1.prems" have n1: "n = 1" by linarith
    have "bitlen 1 = 1" by (simp add: bitlen_pos bitlen_nonpos)
    then show ?thesis using n1 by simp
  next
    case True
    from "1.IH" "1.prems" True
    have ih: "bitlen (n div 2) \<ge> 1" "2 ^ nat (bitlen (n div 2) - 1) \<le> n div 2"
      "n div 2 < 2 ^ nat (bitlen (n div 2))" by simp_all
    define b where "b = bitlen (n div 2)"
    have bl: "bitlen n = 1 + b" using "1.prems" by (simp add: bitlen_pos b_def)
    have nb1: "nat (1 + b) = Suc (nat b)" using ih(1) unfolding b_def[symmetric] by arith
    have nb2: "nat (1 + b - 1) = Suc (nat (b - 1))"
      using ih(1) unfolding b_def[symmetric] by arith
    have lo: "2 * 2 ^ nat (b - 1) \<le> n" using ih(2) unfolding b_def[symmetric] by linarith
    have hi: "n < 2 * 2 ^ nat b" using ih(3) unfolding b_def[symmetric] by linarith
    have b1: "1 + b \<ge> 1" using ih(1) unfolding b_def[symmetric] by arith
    show ?thesis unfolding bl nb1 nb2 using b1 lo hi by simp
  qed
qed

lemma pow2_pos: "pow2 k > 0"
  by (simp add: pow2_def)

lemma pow2_add: "pow2 (j + k) = pow2 j * pow2 k"
proof -
  have "pow2 i = power_int 2 i" for i
    by (simp add: pow2_def power_int_def field_simps)
  then show ?thesis by (simp add: power_int_add)
qed

lemma pow2_mono: "j \<le> k \<Longrightarrow> pow2 j \<le> pow2 k"
proof -
  have "pow2 i = power_int 2 i" for i
    by (simp add: pow2_def power_int_def field_simps)
  then show "j \<le> k \<Longrightarrow> pow2 j \<le> pow2 k" by (simp add: power_int_increasing)
qed

lemma pow2_less_cancel: "pow2 j < pow2 k \<Longrightarrow> j < k"
  using pow2_mono[of k j] by (cases "j < k") auto

lemma pow2_nat: "pow2 (int n) = 2 ^ n"
  by (simp add: pow2_def)

lemma pow2_neg: "pow2 (- int n) = 1 / 2 ^ n"
  by (auto simp: pow2_def)

lemma ilog2_bounds:
  assumes "a > 0"
  shows "pow2 (ilog2 a) \<le> a \<and> a < pow2 (ilog2 a + 1)"
proof (cases "a \<ge> 1")
  case True
  define n where "n = \<lfloor>a\<rfloor>"
  have npos: "n > 0" using True by (simp add: n_def)
  from bitlen_bounds[OF npos]
  have b1: "bitlen n \<ge> 1" and lo: "2 ^ nat (bitlen n - 1) \<le> n" and hi: "n < 2 ^ nat (bitlen n)"
    by simp_all
  have k: "ilog2 a = bitlen n - 1" using True by (simp add: ilog2_def n_def)
  have p1: "pow2 (bitlen n - 1) = 2 ^ nat (bitlen n - 1)" using b1 by (simp add: pow2_def)
  have p2: "pow2 (ilog2 a + 1) = 2 ^ nat (bitlen n)" using b1 by (simp add: k pow2_def)
  have lo': "(2::rat) ^ nat (bitlen n - 1) \<le> of_int n" using lo by simp
  have "of_int n \<le> a" by (simp add: n_def)
  with lo' have "(2::rat) ^ nat (bitlen n - 1) \<le> a" by (rule order_trans)
  then have A: "pow2 (ilog2 a) \<le> a" by (simp only: k p1)
  have "n + 1 \<le> 2 ^ nat (bitlen n)" using hi by simp
  then have "(of_int (n + 1) :: rat) \<le> of_int (2 ^ nat (bitlen n))"
    by (simp only: of_int_le_iff)
  then have hi': "(of_int n :: rat) + 1 \<le> 2 ^ nat (bitlen n)"
    by (simp only: of_int_add of_int_1 of_int_power of_int_numeral)
  have "a < of_int n + 1" unfolding n_def by linarith
  from this hi' have "a < 2 ^ nat (bitlen n)" by (rule order_less_le_trans)
  then have B: "a < pow2 (ilog2 a + 1)" by (simp only: p2)
  show ?thesis using A B by simp
next
  case False
  define N where "N = \<lceil>1 / a\<rceil>"
  have inv: "1 / a > 1" using False assms by simp
  have N2: "N \<ge> 2" using inv by (simp add: N_def le_ceiling_iff)
  define M where "M = N - 1"
  have Mpos: "M > 0" using N2 by (simp add: M_def)
  from bitlen_bounds[OF Mpos]
  have b1: "bitlen M \<ge> 1" and lo: "2 ^ nat (bitlen M - 1) \<le> M" and hi: "M < 2 ^ nat (bitlen M)"
    by simp_all
  define L where "L = nat (bitlen M)"
  have Lpos: "L \<ge> 1" using b1 by (simp add: L_def)
  have k: "ilog2 a = - int L" using False b1 by (simp add: ilog2_def N_def M_def L_def)
  have "N \<le> 2 ^ L" using hi by (simp add: M_def L_def)
  then have NL: "(of_int N :: rat) \<le> 2 ^ L" by simp
  have "1 / a \<le> of_int N" by (simp add: N_def)
  from this NL have "1 / a \<le> 2 ^ L" by (rule order_trans)
  then have A: "1 / 2 ^ L \<le> a" using assms by (simp add: field_simps)
  have "nat (bitlen M - 1) = L - 1" using b1 unfolding L_def by arith
  then have "2 ^ (L - 1) \<le> M" using lo by simp
  then have LM: "(2::rat) ^ (L - 1) \<le> of_int M" by simp
  have "of_int M < 1 / a" unfolding M_def N_def by linarith
  with LM have "(2::rat) ^ (L - 1) < 1 / a" by (rule order_le_less_trans)
  then have B: "a < 1 / 2 ^ (L - 1)" using assms by (simp add: field_simps)
  have p1: "pow2 (- int L) = 1 / 2 ^ L" by (rule pow2_neg)
  have "- int L + 1 = - int (L - 1)" using Lpos by simp
  then have p2: "pow2 (- int L + 1) = 1 / 2 ^ (L - 1)" by (simp only: pow2_neg)
  have A': "pow2 (ilog2 a) \<le> a" using A by (simp only: k p1)
  have B': "a < pow2 (ilog2 a + 1)" using B by (simp only: k p2)
  show ?thesis using A' B' by simp
qed

lemma round_even_bound: "\<bar>of_int (round_even q) - q\<bar> \<le> 1 / 2"
proof -
  have "of_int \<lfloor>q\<rfloor> \<le> q" "q < of_int \<lfloor>q\<rfloor> + 1" by linarith+
  then show ?thesis by (auto simp: round_even_def Let_def abs_le_iff)
qed

lemma fl_normal:
  assumes "a > 0" "ilog2 a \<ge> - 1022" "ilog2 a \<le> 1022"
  shows "\<exists>v. fl a = Fin v \<and> \<bar>v - a\<bar> \<le> pow2 (ilog2 a - 53)"
proof -
  define e where "e = ilog2 a - 52"
  define m where "m = round_even (a / pow2 e)"
  have emax: "max (ilog2 a - 52) (- 1074) = e" using assms(2) by (simp add: e_def)
  have flv: "fl a = Fin (of_int m * pow2 e)"
    using assms by (simp add: fl_def Let_def emax m_def)
  have "\<bar>of_int m - a / pow2 e\<bar> \<le> 1 / 2" unfolding m_def by (rule round_even_bound)
  then have "\<bar>of_int m - a / pow2 e\<bar> * pow2 e \<le> 1 / 2 * pow2 e"
    using pow2_pos[of e] by (simp add: mult_right_mono)
  moreover have "\<bar>of_int m - a / pow2 e\<bar> * pow2 e = \<bar>of_int m * pow2 e - a\<bar>"
  proof -
    have "\<bar>of_int m - a / pow2 e\<bar> * pow2 e = \<bar>(of_int m - a / pow2 e) * pow2 e\<bar>"
      using pow2_pos[of e] by (simp add: abs_mult)
    also have "(of_int m - a / pow2 e) * pow2 e = of_int m * pow2 e - a"
      using pow2_pos[of e] by (simp add: field_simps)
    finally show ?thesis .
  qed
  moreover have "1 / 2 * pow2 e = pow2 (ilog2 a - 53)"
  proof -
    have "pow2 e = pow2 (1 + (ilog2 a - 53))" by (simp add: e_def)
    also have "\<dots> = pow2 1 * pow2 (ilog2 a - 53)" by (rule pow2_add)
    finally show ?thesis by (simp add: pow2_def)
  qed
  ultimately show ?thesis using flv by auto
qed

subsection \<open>Price validation\<close>

lemma MIN_PRICE_value: "MIN_PRICE = Fin (5764607523034235 / 576460752303423488)"
  by code_simp

lemma MAX_PRICE_value: "MAX_PRICE = Fin (4294967253050327 / 4294967296)"
  by code_simp

lemma validatePrice_examples:
  "validatePrice ''0'' = Inl BelowMinimum \<and> validatePrice ''1000000'' = Inl AboveMaximum
   \<and> validatePrice ''19.999'' = Inr (Fin 20) \<and> validatePrice ''abc'' = Inl InvalidFormat"
  by code_simp

lemma validatePrice_Inl_iff:
  "validatePrice p = Inl e \<longleftrightarrow>
     (e = InvalidFormat \<and> isNaN (parseFloat p))
   \<or> (e = BelowMinimum \<and> \<not> isNaN (parseFloat p) \<and> js_lt (parseFloat p) MIN_PRICE)
   \<or> (e = AboveMaximum \<and> \<not> isNaN (parseFloat p) \<and> \<not> js_lt (parseFloat p) MIN_PRICE
        \<and> js_lt MAX_PRICE (parseFloat p))"
  by (auto simp: validatePrice_def Let_def)

lemma validatePrice_Inr_iff:
  "validatePrice p = Inr r \<longleftrightarrow>
     \<not> isNaN (parseFloat p) \<and> \<not> js_lt (parseFloat p) MIN_PRICE
     \<and> \<not> js_lt MAX_PRICE (parseFloat p)
     \<and> r = js_div (Math_round (js_mul (parseFloat p) (Fin 100))) (Fin 100)"
  by (auto simp: validatePrice_def Let_def)

lemma in_range_finite:
  assumes "\<not> isNaN x" "\<not> js_lt x MIN_PRICE" "\<not> js_lt MAX_PRICE x"
  shows "\<exists>a. x = Fin a \<and> 5764607523034235 / 576460752303423488 \<le> a
             \<and> a \<le> 4294967253050327 / 4294967296"
  using assms
  by (cases x) (simp_all add: isNaN_def js_lt_def MIN_PRICE_value MAX_PRICE_value)

lemma round_cents:
  assumes lo: "5764607523034235 / 576460752303423488 \<le> a"
    and hi: "a \<le> 4294967253050327 / 4294967296"
  shows "\<exists>k. js_div (Math_round (js_mul (Fin a) (Fin 100))) (Fin 100) = fl (of_int k / 100)
             \<and> 1 \<le> k \<and> k \<le> 99999999 \<and> \<bar>100 * a - of_int k\<bar> \<le> 1 / 2 + 1 / 2 ^ 27"
proof -
  define c where "c = a * 100"
  have c1: "1 \<le> c" using lo by (simp add: c_def)
  have c2: "c < 99999999" using hi by (simp add: c_def)
  have cpos: "c > 0" using c1 by simp
  from ilog2_bounds[OF cpos]
  have b1: "pow2 (ilog2 c) \<le> c" and b2: "c < pow2 (ilog2 c + 1)" by simp_all
  have "pow2 (ilog2 c) < pow2 27" using b1 c2 by (simp add: pow2_def)
  then have k27: "ilog2 c < 27" by (rule pow2_less_cancel)
  have "pow2 0 < pow2 (ilog2 c + 1)" using b2 c1 by (simp add: pow2_def)
  then have k0: "0 < ilog2 c + 1" by (rule pow2_less_cancel)
  from fl_normal[OF cpos] k27 k0
  obtain v where v: "fl c = Fin v" and err: "\<bar>v - c\<bar> \<le> pow2 (ilog2 c - 53)" by auto
  have "pow2 (ilog2 c - 53) \<le> pow2 (- 27)" using k27 by (intro pow2_mono) simp
  also have "pow2 (- 27) = 1 / 2 ^ 27" by (simp add: pow2_def)
  finally have "\<bar>v - c\<bar> \<le> 1 / 2 ^ 27" using err by simp
  then have err27: "\<bar>v - c\<bar> \<le> 1 / 134217728" by simp
  define k where "k = \<lfloor>v + 1 / 2\<rfloor>"
  have fl1: "of_int k \<le> v + 1 / 2" "v + 1 / 2 < of_int k + 1" unfolding k_def by linarith+
  have res: "js_div (Math_round (js_mul (Fin a) (Fin 100))) (Fin 100) = fl (of_int k / 100)"
    using v by (simp add: js_mul_def js_div_def Math_round_def c_def k_def)
  have "(1::rat) \<le> v + 1 / 2" using err27 c1 by linarith
  then have "(1::int) \<le> \<lfloor>v + 1 / 2\<rfloor>" by (simp add: le_floor_iff)
  then have k1: "1 \<le> k" by (simp add: k_def)
  have "v + 1 / 2 < 100000000" using err27 c2 by linarith
  then have "\<lfloor>v + 1 / 2\<rfloor> < 100000000" by (simp add: floor_less_iff)
  then have k2: "k \<le> 99999999" by (simp add: k_def)
  have "\<bar>c - of_int k\<bar> \<le> 1 / 2 + 1 / 134217728" using fl1 err27 by linarith
  then have "\<bar>100 * a - of_int k\<bar> \<le> 1 / 2 + 1 / 2 ^ 27" by (simp add: c_def mult.commute)
  with res k1 k2 show ?thesis by blast
qed

text \<open>
  C7, as the code has it. \<^verbatim>\<open>validatePrice\<close> throws exactly when the input does not parse
  as a number (invalid format), or the parsed number is below \<^verbatim>\<open>MIN_PRICE\<close> (the double
  nearest 0.01), or it is above \<^verbatim>\<open>MAX_PRICE\<close> (the double nearest 999999.99). Otherwise
  it returns \<^verbatim>\<open>Math.round(x * 100) / 100\<close> computed in doubles: the double nearest to
  \<open>k / 100\<close> for an integer number of cents \<open>k\<close> between 1 and 99999999 that differs
  from the parsed number times 100 by at most \<open>1/2 + 2\<^sup>-\<^sup>2\<^sup>7\<close>. That is the parsed number
  rounded to two decimal places unless its hundredfold lies within \<open>2\<^sup>-\<^sup>2\<^sup>7\<close> of a half,
  where either neighbouring cent can result. \<^verbatim>\<open>"0"\<close> and \<^verbatim>\<open>"1000000"\<close> are rejected,
  \<^verbatim>\<open>"19.999"\<close> gives 20.
\<close>

theorem validatePrice_spec:
  "(validatePrice p = Inl InvalidFormat \<longleftrightarrow> isNaN (parseFloat p))
   \<and> (validatePrice p = Inl BelowMinimum \<longleftrightarrow>
        \<not> isNaN (parseFloat p) \<and> js_lt (parseFloat p) MIN_PRICE)
   \<and> (validatePrice p = Inl AboveMaximum \<longleftrightarrow>
        \<not> isNaN (parseFloat p) \<and> \<not> js_lt (parseFloat p) MIN_PRICE
        \<and> js_lt MAX_PRICE (parseFloat p))
   \<and> ((\<exists>e. validatePrice p = Inl e) \<longleftrightarrow>
        isNaN (parseFloat p) \<or> js_lt (parseFloat p) MIN_PRICE \<or> js_lt MAX_PRICE (parseFloat p))
   \<and> (\<forall>r. validatePrice p = Inr r \<longrightarrow>
        (\<exists>a k. parseFloat p = Fin a \<and> r = fl (of_int k / 100) \<and> 1 \<le> k \<and> k \<le> 99999999
               \<and> \<bar>100 * a - of_int k\<bar> \<le> 1 / 2 + 1 / 2 ^ 27))
   \<and> validatePrice ''0'' = Inl BelowMinimum
   \<and> validatePrice ''1000000'' = Inl AboveMaximum
   \<and> validatePrice ''19.999'' = Inr (Fin 20)"
proof -
  have A: "\<forall>r. validatePrice p = Inr r \<longrightarrow>
        (\<exists>a k. parseFloat p = Fin a \<and> r = fl (of_int k / 100) \<and> 1 \<le> k \<and> k \<le> 99999999
               \<and> \<bar>100 * a - of_int k\<bar> \<le> 1 / 2 + 1 / 2 ^ 27)"
  proof (intro allI impI)
    fix r assume "validatePrice p = Inr r"
    then have h: "\<not> isNaN (parseFloat p)" "\<not> js_lt (parseFloat p) MIN_PRICE"
      "\<not> js_lt MAX_PRICE (parseFloat p)"
      and r: "r = js_div (Math_round (js_mul (parseFloat p) (Fin 100))) (Fin 100)"
      by (simp_all add: validatePrice_Inr_iff)
    from in_range_finite[OF h] obtain a where a: "parseFloat p = Fin a"
      and lo: "5764607523034235 / 576460752303423488 \<le> a"
      and hi: "a \<le> 4294967253050327 / 4294967296" by blast
    from round_cents[OF lo hi] r a
    show "\<exists>a k. parseFloat p = Fin a \<and> r = fl (of_int k / 100) \<and> 1 \<le> k \<and> k \<le> 99999999
               \<and> \<bar>100 * a - of_int k\<bar> \<le> 1 / 2 + 1 / 2 ^ 27" by auto
  qed
  have B: "(\<exists>e. validatePrice p = Inl e) \<longleftrightarrow>
        isNaN (parseFloat p) \<or> js_lt (parseFloat p) MIN_PRICE \<or> js_lt MAX_PRICE (parseFloat p)"
    by (auto simp: validatePrice_def Let_def)
  show ?thesis
    using A B validatePrice_examples validatePrice_Inl_iff[of p InvalidFormat]
      validatePrice_Inl_iff[of p BelowMinimum] validatePrice_Inl_iff[of p AboveMaximum]
    by simp
qed

theorem validatePrice_spec_witness:
  "validatePrice ''19.999'' = Inr (Fin 20)
   \<and> (\<exists>a k. parseFloat ''19.999'' = Fin a \<and> Fin 20 = fl (of_int k / 100) \<and> 1 \<le> k
         \<and> k \<le> 99999999 \<and> \<bar>100 * a - of_int k\<bar> \<le> 1 / 2 + 1 / 2 ^ 27)
   \<and> isNaN (parseFloat ''abc'')"
proof -
  have 1: "validatePrice ''19.999'' = Inr (Fin 20)"
    using validatePrice_spec[of "''19.999''"] by blast
  from validatePrice_spec[of "''19.999''"] 1
  have 2: "\<exists>a k. parseFloat ''19.999'' = Fin a \<and> Fin 20 = fl (of_int k / 100) \<and> 1 \<le> k
         \<and> k \<le> 99999999 \<and> \<bar>100 * a - of_int k\<bar> \<le> 1 / 2 + 1 / 2 ^ 27"
    by blast
  have "validatePrice ''abc'' = Inl InvalidFormat" using validatePrice_examples by blast
  with validatePrice_spec[of "''abc''"] have 3: "isNaN (parseFloat ''abc'')" by blast
  show ?thesis using 1 2 3 by blast
qed

text \<open>
  C7 as stated fails: \<^verbatim>\<open>"1.115"\<close> parses to a double below 1.115, whose nearest cent is
  1.11, and the result is 1.12, because the product with 100 rounds to 111.5; and
  \<^verbatim>\<open>"1.0050000000000000001"\<close>, a decimal above 1.005, gives 1.
\<close>

theorem validatePrice_rounding_counterexample:
  "parseFloat ''1.115'' = Fin (5021513584518103 / 4503599627370496)
   \<and> (5021513584518103 / 4503599627370496 :: rat) < 1115 / 1000
   \<and> \<bar>100 * (5021513584518103 / 4503599627370496 :: rat) - 111\<bar> < 1 / 2
   \<and> validatePrice ''1.115'' = Inr (fl (112 / 100))
   \<and> fl (112 / 100) \<noteq> fl (111 / 100)
   \<and> validatePrice ''1.0050000000000000001'' = Inr (Fin 1)"
  by code_simp

subsection \<open>The calls a step makes\<close>

lemma withTimeout_calls [simp]: "calls (snd (withTimeout cat c s)) = calls s @ [c]"
  by (simp add: withTimeout_def Let_def)

lemma admin_request_calls [simp]: "calls (snd (admin_request cat c s)) = calls s @ [c]"
  by (simp add: admin_request_def Let_def)

lemma sleep_calls [simp]: "calls (sleep n s) = calls s"
  by (simp add: sleep_def)

lemma cache_delete_calls [simp]: "calls (cache_delete k s) = calls s"
  by (simp add: cache_delete_def)

lemma cache_set_calls [simp]: "calls (cache_set k v s) = calls s"
  by (simp add: cache_set_def)

lemma persist_created_calls [simp]:
  "calls (persist_created req session adminSession pid nv b e m bi ei cp w s) = calls s"
  by (simp add: persist_created_def split: option.splits jsnum.splits)

lemma findExistingVariant_calls [simp]:
  "calls (snd (findExistingVariant cat pid b e m s)) = calls s @ [ListVariants pid]"
proof -
  obtain r s1 where w: "withTimeout cat (ListVariants pid) s = (r, s1)"
    by (cases "withTimeout cat (ListVariants pid) s")
  then have "calls s1 = calls s @ [ListVariants pid]"
    using withTimeout_calls[of cat "ListVariants pid" s] by simp
  then show ?thesis using w by (cases r) (simp_all add: findExistingVariant_def)
qed

lemma findExistingVariant_failure:
  assumes "(\<exists>err. result (cat (calls s) (ListVariants pid)) = Reject err)
           \<or> took (cat (calls s) (ListVariants pid)) \<ge> API_TIMEOUT"
  shows "fst (findExistingVariant cat pid b e m s) = None"
  using assms by (auto simp: findExistingVariant_def withTimeout_def Let_def)

lemma poll_variant_calls:
  "\<exists>k \<le> n. calls (snd (poll_variant cat vid ex n i s)) = calls s @ replicate k (GetVariant vid)"
proof (induction n arbitrary: i s)
  case 0
  then show ?case by simp
next
  case (Suc n)
  let ?s0 = "sleep (600 * (i + 1)) s"
  obtain r s1 where w: "withTimeout cat (GetVariant vid) ?s0 = (r, s1)"
    by (cases "withTimeout cat (GetVariant vid) ?s0")
  then have c1: "calls s1 = calls s @ [GetVariant vid]"
    using withTimeout_calls[of cat "GetVariant vid" ?s0] by simp
  from Suc.IH[of "i + 1" s1] obtain k where k: "k \<le> n"
    "calls (snd (poll_variant cat vid ex n (i + 1) s1)) = calls s1 @ replicate k (GetVariant vid)"
    by blast
  have rec: "\<exists>k \<le> Suc n. calls (snd (poll_variant cat vid ex n (i + 1) s1))
                = calls s @ replicate k (GetVariant vid)"
    using k c1 by (intro exI[of _ "Suc k"]) simp
  have stop: "\<exists>k \<le> Suc n. calls s1 = calls s @ replicate k (GetVariant vid)"
    using c1 by (intro exI[of _ "Suc 0"]) simp
  show ?case using w rec stop
    by (simp split: settled.splits option.splits)
qed

lemma poll_variant_matches:
  "fst (poll_variant cat vid ex n i s) = Some v \<Longrightarrow>
     \<exists>p. v_price v = Some p \<and> price_matches p ex"
proof (induction n arbitrary: i s)
  case 0
  then show ?case by simp
next
  case (Suc n)
  then show ?case
    by (auto split: settled.splits option.splits prod.splits if_splits)
qed

lemma waitForVariantReady_calls:
  "\<exists>k \<le> 9. calls (snd (waitForVariantReady cat vid ex s)) = calls s @ replicate k (GetVariant vid)"
proof -
  obtain r s1 where p: "poll_variant cat vid ex 8 0 s = (r, s1)"
    by (cases "poll_variant cat vid ex 8 0 s")
  from poll_variant_calls[of 8 cat vid ex 0 s] p obtain k where k: "k \<le> 8"
    "calls s1 = calls s @ replicate k (GetVariant vid)" by auto
  show ?thesis
  proof (cases r)
    case (Some v)
    then show ?thesis using p k by (intro exI[of _ k]) (simp add: waitForVariantReady_def)
  next
    case None
    obtain r2 s2 where a: "admin_request cat (GetVariant vid) s1 = (r2, s2)"
      by (cases "admin_request cat (GetVariant vid) s1")
    then have "calls s2 = calls s1 @ [GetVariant vid]"
      using admin_request_calls[of cat "GetVariant vid" s1] by simp
    then have "calls s2 = calls s @ replicate (Suc k) (GetVariant vid)"
      using k by (simp add: replicate_append_same)
    then show ?thesis using p None a k
      by (intro exI[of _ "Suc k"]) (simp add: waitForVariantReady_def split: settled.splits)
  qed
qed

lemma manual_price_update_calls:
  "\<exists>rest. calls (snd (manual_price_update cat nv ps s))
            = calls s @ UpdateVariantPrice (v_id nv) ps # rest"
proof -
  obtain r s1 where a: "admin_request cat (UpdateVariantPrice (v_id nv) ps) s = (r, s1)"
    by (cases "admin_request cat (UpdateVariantPrice (v_id nv) ps) s")
  then have c1: "calls s1 = calls s @ [UpdateVariantPrice (v_id nv) ps]"
    using admin_request_calls[of cat "UpdateVariantPrice (v_id nv) ps" s] by simp
  obtain r2 s2 where b: "admin_request cat (GetVariant (v_id nv)) (sleep 500 s1) = (r2, s2)"
    by (cases "admin_request cat (GetVariant (v_id nv)) (sleep 500 s1)")
  then have c2: "calls s2 = calls s1 @ [GetVariant (v_id nv)]"
    using admin_request_calls[of cat "GetVariant (v_id nv)" "sleep 500 s1"] by simp
  show ?thesis using a b c1 c2
    by (cases r; cases r2) (simp_all add: manual_price_update_def)
qed

lemma creation_failed_calls:
  "\<exists>rest. calls (snd (creation_failed cat err pid b e m cp key rid s)) = calls s @ rest"
proof -
  let ?s1 = "cache_delete key s"
  obtain r s2 where f: "findExistingVariant cat pid b e m ?s1 = (r, s2)"
    by (cases "findExistingVariant cat pid b e m ?s1")
  then have "calls s2 = calls s @ [ListVariants pid]"
    using findExistingVariant_calls[of cat pid b e m ?s1] by simp
  then show ?thesis using f
    by (cases r) (auto simp: creation_failed_def Let_def split: option.splits)
qed

lemma settle_price_calls:
  "\<exists>rest. calls (snd (settle_price cat nv ps s)) = calls s @ rest"
  using manual_price_update_calls[of cat nv ps s] by (auto simp: settle_price_def)

lemma finish_creation_calls [simp]:
  "calls (snd (finish_creation req session adminSession pid b e m cp key rid fin s)) = calls s"
  by (cases fin) (simp_all add: finish_creation_def Let_def)

lemma creation_path_calls:
  "\<exists>rest. calls (snd (creation_path cat req session adminSession pid b e m cp key rid s))
      = calls s @ CreateVariant pid (build_variantData req pid b e m cp (clock s)) # rest"
proof -
  let ?c = "CreateVariant pid (build_variantData req pid b e m cp (clock s))"
  obtain r s1 where w: "withTimeout cat ?c s = (r, s1)" by (cases "withTimeout cat ?c s")
  then have c1: "calls s1 = calls s @ [?c]" using withTimeout_calls[of cat ?c s] by simp
  have fail: "\<exists>rest. calls (snd (creation_failed cat err pid b e m cp key rid s1))
                 = calls s @ ?c # rest" for err
    using creation_failed_calls[of cat err pid b e m cp key rid s1] c1 by auto
  show ?thesis
  proof (cases r)
    case (Reject err)
    then show ?thesis using w fail[of err] by (simp add: creation_path_def)
  next
    case (Resolve bd)
    show ?thesis
    proof (cases "body_variant bd")
      case None
      then show ?thesis using w Resolve fail[of "Error_of empty_response_message"]
        by (simp add: creation_path_def)
    next
      case (Some created)
      obtain ready s2 where wf: "waitForVariantReady cat (v_id created) cp s1 = (ready, s2)"
        by (cases "waitForVariantReady cat (v_id created) cp s1")
      from waitForVariantReady_calls[of cat "v_id created" cp s1] wf c1
      obtain r2 where c2: "calls s2 = calls s @ ?c # r2" by auto
      define nv where "nv = (case ready of None \<Rightarrow> created | Some v \<Rightarrow> v)"
      obtain fin s3 where mu: "settle_price cat nv (ToFixed2 cp) s2 = (fin, s3)"
        by (cases "settle_price cat nv (ToFixed2 cp) s2")
      from settle_price_calls[of cat nv "ToFixed2 cp" s2] mu c2
      obtain r3 where c3: "calls s3 = calls s @ ?c # r3" by auto
      show ?thesis using w Resolve Some wf mu c3
        by (simp add: creation_path_def nv_def[symmetric])
    qed
  qed
qed

lemma provision_lookup_failure:
  assumes nodup: "\<not> duplicate_in_flight (clock s) (cleanupCache (clock s) (requestCache s))
                     (cacheKey_of b e m)"
    and base: "took (cat (calls s) (GetVariant base)) < API_TIMEOUT"
      "result (cat (calls s) (GetVariant base)) = Resolve bd" "body_variant bd = Some bv"
    and fail: "(\<exists>err. result (cat (calls s @ [GetVariant base]) (ListVariants (v_product_id bv)))
                       = Reject err)
               \<or> took (cat (calls s @ [GetVariant base]) (ListVariants (v_product_id bv)))
                    \<ge> API_TIMEOUT"
  shows "\<exists>s2. provision cat req session adminSession base b e m cp rid s
           = creation_path cat req session adminSession (v_product_id bv) b e m cp
               (cacheKey_of b e m) rid s2
         \<and> calls s2 = calls s @ [GetVariant base, ListVariants (v_product_id bv)]"
proof -
  let ?s0 = "s\<lparr>requestCache := cleanupCache (clock s) (requestCache s)\<rparr>"
  let ?sc = "cache_set (cacheKey_of b e m)
               \<lparr>cache_timestamp = clock ?s0, cache_requestId = rid\<rparr> ?s0"
  have csc: "calls ?sc = calls s" by simp
  obtain s1 where w: "withTimeout cat (GetVariant base) ?sc = (Resolve bd, s1)"
    using base csc by (simp add: withTimeout_def Let_def)
  then have c1: "calls s1 = calls s @ [GetVariant base]"
    using withTimeout_calls[of cat "GetVariant base" ?sc] csc by simp
  obtain r s2 where f: "findExistingVariant cat (v_product_id bv) b e m s1 = (r, s2)"
    by (cases "findExistingVariant cat (v_product_id bv) b e m s1")
  have "fst (findExistingVariant cat (v_product_id bv) b e m s1) = None"
    using fail c1 by (intro findExistingVariant_failure) simp
  then have r: "r = None" using f by simp
  have c2: "calls s2 = calls s @ [GetVariant base, ListVariants (v_product_id bv)]"
    using findExistingVariant_calls[of cat "v_product_id bv" b e m s1] f c1 by simp
  show ?thesis using nodup w base(3) f r c2
    by (intro exI[of _ s2]) (simp add: provision_def Let_def)
qed

lemma action_acceptable:
  "acceptable ses req session adminSession base b e m cp \<Longrightarrow>
   action cat ses req s
     = provision cat req session adminSession base b e m cp (requestId_of req (clock s)) s"
  by (auto simp: acceptable_def action_def present_def requestId_of_def Let_def)

text \<open>
  C10. When the listing of the product's variants fails (the catalog rejects the call or
  the call times out), \<^verbatim>\<open>findExistingVariant\<close> reports no match; the route does not
  surface the failure but goes on with the creation path, whose first call is the create
  call.
\<close>

theorem lookup_failure_proceeds_to_create:
  "acceptable ses req session adminSession base b e m cp
   \<and> \<not> duplicate_in_flight (clock s) (cleanupCache (clock s) (requestCache s)) (cacheKey_of b e m)
   \<and> took (cat (calls s) (GetVariant base)) < API_TIMEOUT
   \<and> result (cat (calls s) (GetVariant base)) = Resolve bd \<and> body_variant bd = Some bv
   \<and> ((\<exists>err. result (cat (calls s @ [GetVariant base]) (ListVariants (v_product_id bv)))
                = Reject err)
       \<or> took (cat (calls s @ [GetVariant base]) (ListVariants (v_product_id bv)))
            \<ge> API_TIMEOUT)
   \<longrightarrow>
     (\<forall>s1. calls s1 = calls s @ [GetVariant base] \<longrightarrow>
        fst (findExistingVariant cat (v_product_id bv) b e m s1) = None)
   \<and> (\<exists>s2. action cat ses req s
            = creation_path cat req session adminSession (v_product_id bv) b e m cp
                (cacheKey_of b e m) (requestId_of req (clock s)) s2
          \<and> calls s2 = calls s @ [GetVariant base, ListVariants (v_product_id bv)])
   \<and> (\<exists>t rest. calls (snd (action cat ses req s))
          = calls s @ [GetVariant base, ListVariants (v_product_id bv),
                       CreateVariant (v_product_id bv)
                         (build_variantData req (v_product_id bv) b e m cp t)] @ rest)"
proof (intro impI, elim conjE)
  assume acc: "acceptable ses req session adminSession base b e m cp"
    and nodup: "\<not> duplicate_in_flight (clock s) (cleanupCache (clock s) (requestCache s))
                     (cacheKey_of b e m)"
    and base: "took (cat (calls s) (GetVariant base)) < API_TIMEOUT"
      "result (cat (calls s) (GetVariant base)) = Resolve bd" "body_variant bd = Some bv"
    and fail: "(\<exists>err. result (cat (calls s @ [GetVariant base]) (ListVariants (v_product_id bv)))
                       = Reject err)
               \<or> took (cat (calls s @ [GetVariant base]) (ListVariants (v_product_id bv)))
                    \<ge> API_TIMEOUT"
  let ?pid = "v_product_id bv"
  let ?rid = "requestId_of req (clock s)"
  have A: "\<forall>s1. calls s1 = calls s @ [GetVariant base] \<longrightarrow>
        fst (findExistingVariant cat ?pid b e m s1) = None"
    using fail by (auto intro!: findExistingVariant_failure)
  from provision_lookup_failure[OF nodup base fail, of req session adminSession cp ?rid]
  obtain s2 where s2: "provision cat req session adminSession base b e m cp ?rid s
           = creation_path cat req session adminSession ?pid b e m cp (cacheKey_of b e m) ?rid s2"
    "calls s2 = calls s @ [GetVariant base, ListVariants ?pid]" by blast
  have act: "action cat ses req s
      = creation_path cat req session adminSession ?pid b e m cp (cacheKey_of b e m) ?rid s2"
    using action_acceptable[OF acc, of cat s] s2(1) by simp
  from creation_path_calls[of cat req session adminSession ?pid b e m cp "cacheKey_of b e m" ?rid s2]
  obtain rest where "calls (snd (creation_path cat req session adminSession ?pid b e m cp
        (cacheKey_of b e m) ?rid s2))
      = calls s2 @ CreateVariant ?pid (build_variantData req ?pid b e m cp (clock s2)) # rest"
    by blast
  then have C: "\<exists>t rest. calls (snd (action cat ses req s))
          = calls s @ [GetVariant base, ListVariants ?pid,
                       CreateVariant ?pid (build_variantData req ?pid b e m cp t)] @ rest"
    using act s2(2) by (intro exI[of _ "clock s2"] exI[of _ rest]) simp
  show "(\<forall>s1. calls s1 = calls s @ [GetVariant base] \<longrightarrow>
        fst (findExistingVariant cat ?pid b e m s1) = None)
   \<and> (\<exists>s2. action cat ses req s
            = creation_path cat req session adminSession ?pid b e m cp
                (cacheKey_of b e m) ?rid s2
          \<and> calls s2 = calls s @ [GetVariant base, ListVariants ?pid])
   \<and> (\<exists>t rest. calls (snd (action cat ses req s))
          = calls s @ [GetVariant base, ListVariants ?pid,
                       CreateVariant ?pid (build_variantData req ?pid b e m cp t)] @ rest)"
    using A act s2(2) C by blast
qed

subsection \<open>Evaluation on the sample data\<close>

lemma ground_numbers:
  "validatePrice ''20'' = Inr (Fin 20)"
  "parseInt10 ''120'' = Fin 120" "parseInt10 ''80'' = Fin 80" "parseInt10 ''abc'' = NaN"
  "calculateWeight (Fin 120) (Fin 80) ''pamuk'' = Fin 1440"
  "calculateWeight NaN (Fin 80) ''pamuk'' = NaN"
  "js_mul (Fin 120) (Fin 80) = Fin 9600" "js_mul NaN (Fin 80) = NaN"
  "as_Int (Fin 120) = Some 120" "as_Int (Fin 80) = Some 80" "as_Int (Fin 9600) = Some 9600"
  "as_Int NaN = None"
  "price_matches ''5.00'' (Fin 20) = False" "price_matches ''20.00'' (Fin 20) = True"
  "parseFloat ''5.00'' = Fin 5" "parseFloat ''20.00'' = Fin 20"
  "string_includes timeout_message zaman_asimi = True"
  "string_includes ''Unprocessable Entity'' zaman_asimi = False"
  "string_includes ''The variant already exists.'' ''already exists'' = True"
  by code_simp+

lemmas route_defs =
  action_def provision_def creation_path_def finish_creation_def settle_price_def
  manual_price_update_def waitForVariantReady_def findExistingVariant_def reuse_path_def
  creation_failed_def base_variant_failed_def persist_created_def created_response_def
  existing_response_def error_response_def withTimeout_def admin_request_def sleep_def
  cache_delete_def cache_set_def cleanupCache_def duplicate_in_flight_def cacheKey_of_def
  requestId_of_def present_def price_or_def price_blank_def build_variantData_def
  API_TIMEOUT_def CACHE_DURATION_def MAX_CACHE_SIZE_def

lemmas sample_defs =
  sample_request_def sample_sessions_def sample_system_def sample_variant_def replied_def
  variant_body_def catalog_stale_def catalog_flaky_def already_exists_def Error_of_def

subsection \<open>Duplicate suppression\<close>

lemma reuse_path_calls:
  "\<exists>rest. calls (snd (reuse_path cat ev cp pid key rid s)) = calls s @ rest"
proof -
  let ?c = "UpdateVariantPrice (v_id ev) (StringOf cp)"
  obtain r s1 where w: "withTimeout cat ?c s = (r, s1)" by (cases "withTimeout cat ?c s")
  then have c1: "calls s1 = calls s @ [?c]" using withTimeout_calls[of cat ?c s] by simp
  obtain r2 s2 where a: "admin_request cat (GetVariant (v_id ev)) (sleep 300 s1) = (r2, s2)"
    by (cases "admin_request cat (GetVariant (v_id ev)) (sleep 300 s1)")
  then have c2: "calls s2 = calls s1 @ [GetVariant (v_id ev)]"
    using admin_request_calls[of cat "GetVariant (v_id ev)" "sleep 300 s1"] by simp
  show ?thesis using w a c1 c2
    by (cases r; cases r2) (simp_all add: reuse_path_def Let_def)
qed

lemma base_variant_failed_calls [simp]:
  "calls (snd (base_variant_failed err key s)) = calls s"
  by (simp add: base_variant_failed_def Let_def)

lemma provision_proceeds:
  assumes "\<not> duplicate_in_flight (clock s) (cleanupCache (clock s) (requestCache s))
               (cacheKey_of b e m)"
  shows "\<exists>rest. calls (snd (provision cat req session adminSession base b e m cp rid s))
           = calls s @ GetVariant base # rest"
proof -
  let ?s0 = "s\<lparr>requestCache := cleanupCache (clock s) (requestCache s)\<rparr>"
  let ?key = "cacheKey_of b e m"
  let ?sc = "cache_set ?key \<lparr>cache_timestamp = clock ?s0, cache_requestId = rid\<rparr> ?s0"
  obtain r s1 where w: "withTimeout cat (GetVariant base) ?sc = (r, s1)"
    by (cases "withTimeout cat (GetVariant base) ?sc")
  then have c1: "calls s1 = calls s @ [GetVariant base]"
    using withTimeout_calls[of cat "GetVariant base" ?sc] by simp
  show ?thesis
  proof (cases r)
    case (Reject err)
    then show ?thesis using assms w c1 by (simp add: provision_def Let_def)
  next
    case (Resolve bd)
    show ?thesis
    proof (cases "body_variant bd")
      case None
      then show ?thesis using assms w Resolve c1 by (simp add: provision_def Let_def)
    next
      case (Some bv)
      obtain f s2 where fe: "findExistingVariant cat (v_product_id bv) b e m s1 = (f, s2)"
        by (cases "findExistingVariant cat (v_product_id bv) b e m s1")
      then have c2: "calls s2 = calls s @ [GetVariant base, ListVariants (v_product_id bv)]"
        using findExistingVariant_calls[of cat "v_product_id bv" b e m s1] c1 by simp
      show ?thesis
      proof (cases f)
        case None
        from creation_path_calls[of cat req session adminSession "v_product_id bv" b e m cp
            ?key rid s2] c2
        have "\<exists>rest. calls (snd (creation_path cat req session adminSession (v_product_id bv)
                 b e m cp ?key rid s2)) = calls s @ GetVariant base # rest" by auto
        then show ?thesis using assms w Resolve Some fe None
          by (simp add: provision_def Let_def)
      next
        case (Some ev)
        from reuse_path_calls[of cat ev cp "v_product_id bv" ?key rid s2] c2
        have "\<exists>rest. calls (snd (reuse_path cat ev cp (v_product_id bv) ?key rid s2))
                 = calls s @ GetVariant base # rest" by auto
        then show ?thesis using assms w Resolve \<open>body_variant bd = Some bv\<close> fe Some
          by (simp add: provision_def Let_def)
      qed
    qed
  qed
qed

lemma provision_duplicate:
  assumes "duplicate_in_flight (clock s) (cleanupCache (clock s) (requestCache s))
             (cacheKey_of b e m)"
  shows "provision cat req session adminSession base b e m cp rid s
           = ((error_response 429 ''duplicate'' AlreadyRunning)\<lparr>r_retryAfter := Some 3\<rparr>,
              s\<lparr>requestCache := cleanupCache (clock s) (requestCache s)\<rparr>)"
  using assms by (simp add: provision_def Let_def)

lemma map_of_filter_keep:
  "map_of xs k = Some v \<Longrightarrow> P (k, v) \<Longrightarrow> map_of (filter P xs) k = Some v"
  by (induction xs) (auto split: if_splits)

lemma cleanupCache_small:
  assumes "length cache \<le> MAX_CACHE_SIZE"
  shows "cleanupCache now cache
     = filter (\<lambda>kv. \<not> (now - cache_timestamp (snd kv) > CACHE_DURATION)) cache"
proof -
  let ?fresh = "filter (\<lambda>kv. \<not> (now - cache_timestamp (snd kv) > CACHE_DURATION)) cache"
  have "length ?fresh \<le> length cache" by (rule length_filter_le)
  with assms have "\<not> length ?fresh > MAX_CACHE_SIZE" by linarith
  then show ?thesis unfolding cleanupCache_def Let_def by (simp only: if_False)
qed

lemma fresh_entry_survives:
  assumes "map_of cache k = Some entry" "now - cache_timestamp entry < 3000"
    "length cache \<le> MAX_CACHE_SIZE"
  shows "duplicate_in_flight now (cleanupCache now cache) k"
proof -
  have "map_of (filter (\<lambda>kv. \<not> (now - cache_timestamp (snd kv) > CACHE_DURATION)) cache) k
          = Some entry"
    using assms(1,2) by (intro map_of_filter_keep) (simp_all add: CACHE_DURATION_def)
  then show ?thesis using assms(2,3) by (simp add: cleanupCache_small duplicate_in_flight_def)
qed

lemma map_of_cache_set:
  "map_of (requestCache (cache_set k v s)) k = Some v"
proof -
  have "map_of (map (\<lambda>kv. if fst kv = k then (k, v) else kv) xs) k = Some v"
    if "k \<in> set (map fst xs)" for xs :: "(string \<times> cache_entry) list"
    using that by (induction xs) auto
  moreover have "map_of (xs @ [(k, v)]) k = Some v"
    if "k \<notin> set (map fst xs)" for xs :: "(string \<times> cache_entry) list"
    using that by (induction xs) auto
  ultimately show ?thesis by (simp add: cache_set_def)
qed

lemma length_cache_set: "length (requestCache (cache_set k v s)) \<le> Suc (length (requestCache s))"
  by (simp add: cache_set_def)

lemma length_cleanupCache: "length (cleanupCache now cache) \<le> length cache"
proof -
  have "length (filter P (filter Q cache)) \<le> length cache" for P Q :: "string \<times> cache_entry \<Rightarrow> bool"
    by (rule order_trans[OF length_filter_le length_filter_le])
  then show ?thesis by (simp add: cleanupCache_def Let_def)
qed

lemma evict_count_value: "evict_count = Fin 200"
  by code_simp

lemma map_of_filter_out:
  "k \<in> D \<Longrightarrow> map_of (filter (\<lambda>kv. fst kv \<notin> D) xs) k = None"
  by (induction xs) auto

lemma cleanupCache_evicts:
  assumes fresh: "\<forall>kv \<in> set cache. \<not> now - cache_timestamp (snd kv) > CACHE_DURATION"
    and big: "length cache > MAX_CACHE_SIZE"
    and sorted: "sorted (map (\<lambda>kv. cache_timestamp (snd kv)) cache)"
    and old: "k \<in> set (map fst (take 200 cache))"
  shows "map_of (cleanupCache now cache) k = None"
proof -
  have f: "filter (\<lambda>kv. \<not> (now - cache_timestamp (snd kv) > CACHE_DURATION)) cache = cache"
    using fresh by (simp add: filter_id_conv)
  have s: "sort_key (\<lambda>kv. cache_timestamp (snd kv)) cache = cache"
    using sorted by (rule sort_key_id_if_sorted)
  have "cleanupCache now cache = filter (\<lambda>kv. fst kv \<notin> set (map fst (take 200 cache))) cache"
    using big by (simp add: cleanupCache_def Let_def f s evict_count_value)
  then show ?thesis using old map_of_filter_out[of k "set (map fst (take 200 cache))" cache]
    by simp
qed

lemma crowded_cache_facts:
  "length crowded_cache = 1001"
  "\<forall>kv \<in> set crowded_cache. cache_timestamp (snd kv) = 0"
  "map_of crowded_cache ''1-80-pamuk''
     = Some \<lparr>cache_timestamp = 0, cache_requestId = GivenId ''Q''\<rparr>"
  "''1-80-pamuk'' \<in> set (map fst (take 200 crowded_cache))"
  by (auto simp: crowded_cache_def simp del: upt_rec_numeral)

lemma crowded_cache_evicted:
  "map_of (cleanupCache 1000 crowded_cache) ''1-80-pamuk'' = None"
proof (rule cleanupCache_evicts)
  show "\<forall>kv \<in> set crowded_cache. \<not> 1000 - cache_timestamp (snd kv) > CACHE_DURATION"
    using crowded_cache_facts(2) by (simp add: CACHE_DURATION_def)
  show "length crowded_cache > MAX_CACHE_SIZE"
    by (simp add: crowded_cache_facts(1) MAX_CACHE_SIZE_def)
  have "map (\<lambda>kv. cache_timestamp (snd kv)) crowded_cache = map (\<lambda>kv. 0) crowded_cache"
    using crowded_cache_facts(2) by (simp only: map_eq_conv)
  also have "\<dots> = replicate (length crowded_cache) 0" by (simp only: map_replicate_const)
  finally show "sorted (map (\<lambda>kv. cache_timestamp (snd kv)) crowded_cache)"
    by (simp only: sorted_replicate)
  show "''1-80-pamuk'' \<in> set (map fst (take 200 crowded_cache))"
    by (rule crowded_cache_facts(4))
qed

text \<open>
  C8, as the code has it. A request that passes the session, presence and price checks,
  arriving while the cache of at most 1000 entries holds an entry for its key that is
  less than 3 seconds old, is answered with status 429, error type \<^verbatim>\<open>duplicate\<close> and
  \<^verbatim>\<open>retryAfter = 3\<close>, and makes no catalog call. Of two such requests with the same
  key, the second arriving less than 3 seconds after the first while the first is still
  in flight (its entry still in the cache), the first goes on to the catalog and the
  second is answered as a duplicate without a catalog call.
\<close>

theorem duplicate_request_rejected:
  "(acceptable ses req session adminSession base b e m cp
    \<and> map_of (requestCache s) (cacheKey_of b e m) = Some entry
    \<and> clock s - cache_timestamp entry < 3000
    \<and> length (requestCache s) \<le> MAX_CACHE_SIZE
    \<longrightarrow> action cat ses req s
          = ((error_response 429 ''duplicate'' AlreadyRunning)\<lparr>r_retryAfter := Some 3\<rparr>,
             s\<lparr>requestCache := cleanupCache (clock s) (requestCache s)\<rparr>)
        \<and> calls (snd (action cat ses req s)) = calls s)
   \<and> (acceptable ses req session adminSession base b e m cp
      \<and> acceptable ses req' session' adminSession' base' b e m cp'
      \<and> \<not> duplicate_in_flight (clock s) (cleanupCache (clock s) (requestCache s))
             (cacheKey_of b e m)
      \<and> length (requestCache s) < MAX_CACHE_SIZE
      \<and> requestCache s'
          = requestCache
              (cache_set (cacheKey_of b e m)
                 \<lparr>cache_timestamp = clock s, cache_requestId = requestId_of req (clock s)\<rparr>
                 (s\<lparr>requestCache := cleanupCache (clock s) (requestCache s)\<rparr>))
      \<and> clock s' - clock s < 3000
      \<longrightarrow> (\<exists>rest. calls (snd (action cat ses req s)) = calls s @ GetVariant base # rest)
        \<and> fst (action cat' ses req' s')
            = (error_response 429 ''duplicate'' AlreadyRunning)\<lparr>r_retryAfter := Some 3\<rparr>
        \<and> calls (snd (action cat' ses req' s')) = calls s')"
proof (intro conjI impI; elim conjE)
  assume acc: "acceptable ses req session adminSession base b e m cp"
    and ent: "map_of (requestCache s) (cacheKey_of b e m) = Some entry"
    and young: "clock s - cache_timestamp entry < 3000"
    and small: "length (requestCache s) \<le> MAX_CACHE_SIZE"
  have dup: "duplicate_in_flight (clock s) (cleanupCache (clock s) (requestCache s))
               (cacheKey_of b e m)"
    using ent young small by (rule fresh_entry_survives)
  have eq: "action cat ses req s
          = ((error_response 429 ''duplicate'' AlreadyRunning)\<lparr>r_retryAfter := Some 3\<rparr>,
             s\<lparr>requestCache := cleanupCache (clock s) (requestCache s)\<rparr>)"
    using action_acceptable[OF acc, of cat s] provision_duplicate[OF dup] by simp
  show "action cat ses req s
          = ((error_response 429 ''duplicate'' AlreadyRunning)\<lparr>r_retryAfter := Some 3\<rparr>,
             s\<lparr>requestCache := cleanupCache (clock s) (requestCache s)\<rparr>)" by (rule eq)
  show "calls (snd (action cat ses req s)) = calls s" by (simp add: eq)
next
  assume acc: "acceptable ses req session adminSession base b e m cp"
    and acc': "acceptable ses req' session' adminSession' base' b e m cp'"
    and nodup: "\<not> duplicate_in_flight (clock s) (cleanupCache (clock s) (requestCache s))
             (cacheKey_of b e m)"
    and small: "length (requestCache s) < MAX_CACHE_SIZE"
    and cache': "requestCache s'
          = requestCache
              (cache_set (cacheKey_of b e m)
                 \<lparr>cache_timestamp = clock s, cache_requestId = requestId_of req (clock s)\<rparr>
                 (s\<lparr>requestCache := cleanupCache (clock s) (requestCache s)\<rparr>))"
    and soon: "clock s' - clock s < 3000"
  let ?entry = "\<lparr>cache_timestamp = clock s, cache_requestId = requestId_of req (clock s)\<rparr>"
  let ?s0 = "s\<lparr>requestCache := cleanupCache (clock s) (requestCache s)\<rparr>"
  show "\<exists>rest. calls (snd (action cat ses req s)) = calls s @ GetVariant base # rest"
    using action_acceptable[OF acc, of cat s] provision_proceeds[OF nodup] by simp
  have ent: "map_of (requestCache s') (cacheKey_of b e m) = Some ?entry"
    unfolding cache' by (rule map_of_cache_set)
  have "length (requestCache s') \<le> Suc (length (requestCache ?s0))"
    unfolding cache' by (rule length_cache_set)
  also have "\<dots> \<le> Suc (length (requestCache s))"
    using length_cleanupCache[of "clock s" "requestCache s"] by simp
  finally have small': "length (requestCache s') \<le> MAX_CACHE_SIZE" using small by simp
  have young: "clock s' - cache_timestamp ?entry < 3000" using soon by simp
  have dup: "duplicate_in_flight (clock s') (cleanupCache (clock s') (requestCache s'))
               (cacheKey_of b e m)"
    using ent young small' by (rule fresh_entry_survives)
  have eq: "action cat' ses req' s'
          = ((error_response 429 ''duplicate'' AlreadyRunning)\<lparr>r_retryAfter := Some 3\<rparr>,
             s'\<lparr>requestCache := cleanupCache (clock s') (requestCache s')\<rparr>)"
    using action_acceptable[OF acc', of cat' s'] provision_duplicate[OF dup] by simp
  show "fst (action cat' ses req' s')
            = (error_response 429 ''duplicate'' AlreadyRunning)\<lparr>r_retryAfter := Some 3\<rparr>"
    by (simp add: eq)
  show "calls (snd (action cat' ses req' s')) = calls s'" by (simp add: eq)
qed

lemma sample_acceptable:
  "b \<noteq> [] \<Longrightarrow>
   acceptable sample_sessions (sample_request b ''20'') \<lparr>session_id = ''S'', shop = ''shop''\<rparr>
     \<lparr>session_id = ''S'', shop = ''shop''\<rparr> ''B'' b ''80'' ''pamuk'' (Fin 20)"
  by (simp add: acceptable_def sample_request_def sample_sessions_def ground_numbers)

text \<open>The theorem at a request whose key was entered one second earlier, and at two
  requests for one key, 2.9 seconds apart.\<close>

theorem duplicate_request_rejected_witness:
  "action catalog_ok sample_sessions (sample_request ''120'' ''20'')
     ((sample_system [] 1000)
        \<lparr>requestCache := [(''120-80-pamuk'',
             \<lparr>cache_timestamp = 0, cache_requestId = GivenId ''Q''\<rparr>)]\<rparr>)
   = ((error_response 429 ''duplicate'' AlreadyRunning)\<lparr>r_retryAfter := Some 3\<rparr>,
      (sample_system [] 1000)
        \<lparr>requestCache := [(''120-80-pamuk'',
             \<lparr>cache_timestamp = 0, cache_requestId = GivenId ''Q''\<rparr>)]\<rparr>)
   \<and> (\<exists>rest. calls (snd (action catalog_ok sample_sessions (sample_request ''120'' ''20'')
                           (sample_system [] 1000)))
               = GetVariant ''B'' # rest)
   \<and> fst (action catalog_ok sample_sessions (sample_request ''120'' ''21'')
            ((sample_system [] 3900)
               \<lparr>requestCache := [(''120-80-pamuk'',
                    \<lparr>cache_timestamp = 1000, cache_requestId = GivenId ''R''\<rparr>)],
                calls := [GetVariant ''B'']\<rparr>))
       = (error_response 429 ''duplicate'' AlreadyRunning)\<lparr>r_retryAfter := Some 3\<rparr>
   \<and> calls (snd (action catalog_ok sample_sessions (sample_request ''120'' ''21'')
            ((sample_system [] 3900)
               \<lparr>requestCache := [(''120-80-pamuk'',
                    \<lparr>cache_timestamp = 1000, cache_requestId = GivenId ''R''\<rparr>)],
                calls := [GetVariant ''B'']\<rparr>)))
       = [GetVariant ''B'']"
proof -
  let ?u = "\<lparr>session_id = ''S'', shop = ''shop''\<rparr>"
  let ?e = "\<lparr>cache_timestamp = 0, cache_requestId = GivenId ''Q''\<rparr>"
  let ?s = "(sample_system [] 1000)\<lparr>requestCache := [(''120-80-pamuk'', ?e)]\<rparr>"
  let ?req = "sample_request ''120'' ''20''"
  let ?req' = "sample_request ''120'' ''21''"
  let ?t = "sample_system [] 1000"
  let ?t' = "(sample_system [] 3900)
               \<lparr>requestCache := [(''120-80-pamuk'',
                    \<lparr>cache_timestamp = 1000, cache_requestId = GivenId ''R''\<rparr>)],
                calls := [GetVariant ''B'']\<rparr>"
  have acc: "acceptable sample_sessions ?req ?u ?u ''B'' ''120'' ''80'' ''pamuk'' (Fin 20)"
    by (rule sample_acceptable) simp
  have v21: "validatePrice ''21'' = Inr (Fin 21)" by code_simp
  have acc': "acceptable sample_sessions ?req' ?u ?u ''B'' ''120'' ''80'' ''pamuk'' (Fin 21)"
    by (simp add: acceptable_def sample_request_def sample_sessions_def v21)
  have h: "map_of (requestCache ?s) (cacheKey_of ''120'' ''80'' ''pamuk'') = Some ?e"
    "clock ?s - cache_timestamp ?e < 3000" "length (requestCache ?s) \<le> MAX_CACHE_SIZE"
    by (simp_all add: sample_system_def cacheKey_of_def MAX_CACHE_SIZE_def)
  have c: "cleanupCache 1000 [(''120-80-pamuk'', ?e)] = [(''120-80-pamuk'', ?e)]"
    by (simp add: cleanupCache_def CACHE_DURATION_def MAX_CACHE_SIZE_def)
  from duplicate_request_rejected[of sample_sessions ?req ?u ?u
      "''B''" "''120''" "''80''" "''pamuk''" "Fin 20" ?s ?e catalog_ok] acc h
  have "action catalog_ok sample_sessions ?req ?s
          = ((error_response 429 ''duplicate'' AlreadyRunning)\<lparr>r_retryAfter := Some 3\<rparr>,
             ?s\<lparr>requestCache := cleanupCache (clock ?s) (requestCache ?s)\<rparr>)"
    by blast
  then have 1: "action catalog_ok sample_sessions ?req ?s
          = ((error_response 429 ''duplicate'' AlreadyRunning)\<lparr>r_retryAfter := Some 3\<rparr>, ?s)"
    by (simp add: c sample_system_def)
  have g: "\<not> duplicate_in_flight (clock ?t) (cleanupCache (clock ?t) (requestCache ?t))
             (cacheKey_of ''120'' ''80'' ''pamuk'')"
    "length (requestCache ?t) < MAX_CACHE_SIZE"
    "requestCache ?t'
          = requestCache
              (cache_set (cacheKey_of ''120'' ''80'' ''pamuk'')
                 \<lparr>cache_timestamp = clock ?t, cache_requestId = requestId_of ?req (clock ?t)\<rparr>
                 (?t\<lparr>requestCache := cleanupCache (clock ?t) (requestCache ?t)\<rparr>))"
    "clock ?t' - clock ?t < 3000"
    by (simp_all add: sample_system_def cleanupCache_def duplicate_in_flight_def
          MAX_CACHE_SIZE_def cache_set_def cacheKey_of_def requestId_of_def
          sample_request_def present_def)
  from duplicate_request_rejected[where ses = sample_sessions and req = ?req
      and session = ?u and adminSession = ?u and base = "''B''" and b = "''120''"
      and e = "''80''" and m = "''pamuk''" and cp = "Fin 20" and s = ?t and cat = catalog_ok
      and req' = ?req' and session' = ?u and adminSession' = ?u and base' = "''B''"
      and cp' = "Fin 21" and s' = ?t' and cat' = catalog_ok] acc acc' g
  have 2: "(\<exists>rest. calls (snd (action catalog_ok sample_sessions ?req ?t))
                     = calls ?t @ GetVariant ''B'' # rest)
        \<and> fst (action catalog_ok sample_sessions ?req' ?t')
            = (error_response 429 ''duplicate'' AlreadyRunning)\<lparr>r_retryAfter := Some 3\<rparr>
        \<and> calls (snd (action catalog_ok sample_sessions ?req' ?t')) = calls ?t'"
    by blast
  have ct: "calls ?t = []" "calls ?t' = [GetVariant ''B'']"
    by (simp_all add: sample_system_def)
  show ?thesis using 1 2 unfolding ct by simp
qed

lemma provision_base_missing:
  assumes nodup: "\<not> duplicate_in_flight (clock s) (cleanupCache (clock s) (requestCache s))
                     (cacheKey_of b e m)"
    and base: "took (cat (calls s) (GetVariant base)) < API_TIMEOUT"
      "result (cat (calls s) (GetVariant base)) = Resolve bd" "body_variant bd = None"
  shows "fst (provision cat req session adminSession base b e m cp rid s)
           = error_response 400 ''product_not_found'' ProductInfoUnavailable
         \<and> calls (snd (provision cat req session adminSession base b e m cp rid s))
           = calls s @ [GetVariant base]"
proof -
  let ?s0 = "s\<lparr>requestCache := cleanupCache (clock s) (requestCache s)\<rparr>"
  let ?sc = "cache_set (cacheKey_of b e m)
               \<lparr>cache_timestamp = clock ?s0, cache_requestId = rid\<rparr> ?s0"
  have csc: "calls ?sc = calls s" by simp
  obtain s1 where w: "withTimeout cat (GetVariant base) ?sc = (Resolve bd, s1)"
    using base csc by (simp add: withTimeout_def Let_def)
  then have c1: "calls s1 = calls s @ [GetVariant base]"
    using withTimeout_calls[of cat "GetVariant base" ?sc] csc by simp
  have nt: "string_includes base_variant_missing_message zaman_asimi = False" by code_simp
  have "provision cat req session adminSession base b e m cp rid s
      = base_variant_failed (Error_of base_variant_missing_message) (cacheKey_of b e m) s1"
    using nodup w base(3) by (simp add: provision_def Let_def)
  then show ?thesis using c1 by (simp add: base_variant_failed_def Let_def Error_of_def nt)
qed

text \<open>
  C8 as stated fails: with 1001 entries in the cache the cleanup evicts the 200 oldest,
  among them the entry of this request's key, written one second earlier; the request is
  not answered as a duplicate and calls the catalog.
\<close>

theorem fresh_entry_evicted_counterexample:
  "map_of crowded_cache (cacheKey_of ''1'' ''80'' ''pamuk'')
     = Some \<lparr>cache_timestamp = 0, cache_requestId = GivenId ''Q''\<rparr>
   \<and> (1000 :: millis) - 0 < 3000
   \<and> validatePrice ''20'' = Inr (Fin 20)
   \<and> fst (action catalog_ok sample_sessions (sample_request ''1'' ''20'')
            ((sample_system [] 1000)\<lparr>requestCache := crowded_cache\<rparr>))
       = error_response 400 ''product_not_found'' ProductInfoUnavailable
   \<and> calls (snd (action catalog_ok sample_sessions (sample_request ''1'' ''20'')
            ((sample_system [] 1000)\<lparr>requestCache := crowded_cache\<rparr>)))
       = [GetVariant ''B'']"
proof -
  let ?s = "(sample_system [] 1000)\<lparr>requestCache := crowded_cache\<rparr>"
  let ?u = "\<lparr>session_id = ''S'', shop = ''shop''\<rparr>"
  have key: "cacheKey_of ''1'' ''80'' ''pamuk'' = ''1-80-pamuk''" by (simp add: cacheKey_of_def)
  have acc: "acceptable sample_sessions (sample_request ''1'' ''20'') ?u ?u
     ''B'' ''1'' ''80'' ''pamuk'' (Fin 20)" by (rule sample_acceptable) simp
  have st: "clock ?s = 1000" "requestCache ?s = crowded_cache" "calls ?s = []"
    by (simp_all add: sample_system_def)
  have nodup: "\<not> duplicate_in_flight (clock ?s) (cleanupCache (clock ?s) (requestCache ?s))
                   (cacheKey_of ''1'' ''80'' ''pamuk'')"
    unfolding st key using crowded_cache_evicted by (simp add: duplicate_in_flight_def)
  have base: "took (catalog_ok (calls ?s) (GetVariant ''B'')) < API_TIMEOUT"
    "result (catalog_ok (calls ?s) (GetVariant ''B''))
       = Resolve \<lparr>body_variant = None, body_variants = None\<rparr>"
    "body_variant \<lparr>body_variant = None, body_variants = None\<rparr> = None"
    by (simp_all add: catalog_ok_def API_TIMEOUT_def)
  from provision_base_missing[where s = ?s and cat = catalog_ok and base = "''B''"
      and b = "''1''" and e = "''80''" and m = "''pamuk''"
      and bd = "\<lparr>body_variant = None, body_variants = None\<rparr>"
      and req = "sample_request ''1'' ''20''" and session = ?u and adminSession = ?u
      and cp = "Fin 20" and rid = "requestId_of (sample_request ''1'' ''20'') (clock ?s)",
      OF nodup base]
  have "fst (action catalog_ok sample_sessions (sample_request ''1'' ''20'') ?s)
          = error_response 400 ''product_not_found'' ProductInfoUnavailable
        \<and> calls (snd (action catalog_ok sample_sessions (sample_request ''1'' ''20'') ?s))
          = calls ?s @ [GetVariant ''B'']"
    by (simp only: action_acceptable[OF acc])
  then have rc: "fst (action catalog_ok sample_sessions (sample_request ''1'' ''20'') ?s)
          = error_response 400 ''product_not_found'' ProductInfoUnavailable"
    "calls (snd (action catalog_ok sample_sessions (sample_request ''1'' ''20'') ?s))
          = [GetVariant ''B'']"
    by (simp_all only: st append_Nil)
  have m: "map_of crowded_cache (cacheKey_of ''1'' ''80'' ''pamuk'')
     = Some \<lparr>cache_timestamp = 0, cache_requestId = GivenId ''Q''\<rparr>"
    unfolding key by (rule crowded_cache_facts(3))
  have v: "validatePrice ''20'' = Inr (Fin 20)" by (rule ground_numbers(1))
  have t: "(1000 :: millis) - 0 < 3000" by simp
  show ?thesis using m t v rc by (intro conjI)
qed

subsection \<open>Presence check\<close>

text \<open>
  C4, as the code has it. With a session, a request in which the base variant, the
  width, the height, the material or the price is missing or empty is answered with
  status 400, error type \<^verbatim>\<open>validation\<close> and one text for all fields, and nothing else
  happens: no catalog call, no change of state. Width and height are not checked further:
  any request with non-empty fields and a valid price is handed on, and unless it is a
  duplicate the catalog is called.
\<close>

theorem missing_field_rejected:
  "(proxy_session req = Some session \<and> ses (session_id session) = Some adminSession
    \<and> session_id adminSession \<noteq> []
    \<and> (\<not> present (form_baseVariantId req) \<or> \<not> present (form_boy req)
       \<or> \<not> present (form_en req) \<or> \<not> present (form_materyal req)
       \<or> \<not> present (form_calculatedPrice req))
    \<longrightarrow> action cat ses req s = (error_response 400 ''validation'' MissingFields, s))
   \<and> (acceptable ses req session adminSession base b e m cp
      \<longrightarrow> action cat ses req s
            = provision cat req session adminSession base b e m cp
                (requestId_of req (clock s)) s)
   \<and> (acceptable ses req session adminSession base b e m cp
      \<and> \<not> duplicate_in_flight (clock s) (cleanupCache (clock s) (requestCache s))
             (cacheKey_of b e m)
      \<longrightarrow> (\<exists>rest. calls (snd (action cat ses req s)) = calls s @ GetVariant base # rest))"
proof (intro conjI impI)
  assume "proxy_session req = Some session \<and> ses (session_id session) = Some adminSession
    \<and> session_id adminSession \<noteq> []
    \<and> (\<not> present (form_baseVariantId req) \<or> \<not> present (form_boy req)
       \<or> \<not> present (form_en req) \<or> \<not> present (form_materyal req)
       \<or> \<not> present (form_calculatedPrice req))"
  then show "action cat ses req s = (error_response 400 ''validation'' MissingFields, s)"
    by (auto simp: action_def Let_def)
next
  assume "acceptable ses req session adminSession base b e m cp"
  then show "action cat ses req s
            = provision cat req session adminSession base b e m cp
                (requestId_of req (clock s)) s"
    by (rule action_acceptable)
next
  assume "acceptable ses req session adminSession base b e m cp
      \<and> \<not> duplicate_in_flight (clock s) (cleanupCache (clock s) (requestCache s))
             (cacheKey_of b e m)"
  then show "\<exists>rest. calls (snd (action cat ses req s)) = calls s @ GetVariant base # rest"
    using action_acceptable[of ses req session adminSession base b e m cp cat s]
      provision_proceeds[of s b e m cat req session adminSession base cp
        "requestId_of req (clock s)"]
    by simp
qed

text \<open>The theorem at a request with an empty material and at one without a width: the
  two responses are the same; and at a request whose width is \<^verbatim>\<open>abc\<close>: the catalog is
  called.\<close>

theorem missing_field_rejected_witness:
  "action catalog_ok sample_sessions
     ((sample_request ''120'' ''20'')\<lparr>form_materyal := Some []\<rparr>) (sample_system [] 1000)
   = (error_response 400 ''validation'' MissingFields, sample_system [] 1000)
   \<and> action catalog_ok sample_sessions
     ((sample_request ''120'' ''20'')\<lparr>form_boy := None\<rparr>) (sample_system [] 1000)
   = (error_response 400 ''validation'' MissingFields, sample_system [] 1000)
   \<and> (\<exists>rest. calls (snd (action catalog_ok sample_sessions (sample_request ''abc'' ''20'')
                           (sample_system [] 1000)))
               = GetVariant ''B'' # rest)"
proof -
  let ?u = "\<lparr>session_id = ''S'', shop = ''shop''\<rparr>"
  let ?t = "sample_system [] 1000"
  have 1: "action catalog_ok sample_sessions
     ((sample_request ''120'' ''20'')\<lparr>form_materyal := Some []\<rparr>) (sample_system [] 1000)
   = (error_response 400 ''validation'' MissingFields, sample_system [] 1000)"
    using missing_field_rejected[of "(sample_request ''120'' ''20'')\<lparr>form_materyal := Some []\<rparr>"
        ?u sample_sessions ?u catalog_ok "sample_system [] 1000"]
    by (simp add: sample_request_def sample_sessions_def present_def)
  have 2: "action catalog_ok sample_sessions
     ((sample_request ''120'' ''20'')\<lparr>form_boy := None\<rparr>) (sample_system [] 1000)
   = (error_response 400 ''validation'' MissingFields, sample_system [] 1000)"
    using missing_field_rejected[of "(sample_request ''120'' ''20'')\<lparr>form_boy := None\<rparr>"
        ?u sample_sessions ?u catalog_ok "sample_system [] 1000"]
    by (simp add: sample_request_def sample_sessions_def present_def)
  have acc: "acceptable sample_sessions (sample_request ''abc'' ''20'') ?u ?u ''B'' ''abc''
               ''80'' ''pamuk'' (Fin 20)"
    by (rule sample_acceptable) simp
  have g: "\<not> duplicate_in_flight (clock ?t) (cleanupCache (clock ?t) (requestCache ?t))
             (cacheKey_of ''abc'' ''80'' ''pamuk'')"
    by (simp add: sample_system_def cleanupCache_def duplicate_in_flight_def MAX_CACHE_SIZE_def)
  from missing_field_rejected[where req = "sample_request ''abc'' ''20''" and session = ?u
      and ses = sample_sessions and adminSession = ?u and cat = catalog_ok and s = ?t
      and base = "''B''" and b = "''abc''" and e = "''80''" and m = "''pamuk''"
      and cp = "Fin 20"] acc g
  have "\<exists>rest. calls (snd (action catalog_ok sample_sessions (sample_request ''abc'' ''20'') ?t))
                 = calls ?t @ GetVariant ''B'' # rest"
    by blast
  then have 3: "\<exists>rest. calls (snd (action catalog_ok sample_sessions
                    (sample_request ''abc'' ''20'') ?t)) = GetVariant ''B'' # rest"
    by (simp add: sample_system_def)
  show ?thesis using 1 2 3 by (intro conjI)
qed

text \<open>
  C4 as stated fails: the width \<^verbatim>\<open>abc\<close> does not parse as an integer, yet the request
  succeeds, and the create call is made with option \<^verbatim>\<open>abc\<close> and weight NaN.
\<close>

theorem width_not_validated_counterexample:
  "parseInt10 ''abc'' = NaN
   \<and> action (catalog_stale ''20.00'') sample_sessions (sample_request ''abc'' ''20'')
       (sample_system [] 1000)
   = (\<lparr>r_status = 200, r_success = True, r_errorType = None,
       r_text = NewProductCreated, r_retryAfter = None, r_details = None,
       r_variant =
         Some \<lparr>rv_id = ''V1'', rv_price = CatalogPrice ''20.00'',
               rv_price_numeric = Some (Fin 20), rv_weight = Some NaN\<rparr>,
       r_product_id = Some ''P'', r_usedExisting = Some False,
       r_requestId = Some (GivenId ''R''),
       r_debug =
         Some \<lparr>dbg_originalPrice = Some ''20.00'', dbg_calculatedPrice = Fin 20,
               dbg_priceString = ToFixed2 (Fin 20)\<rparr>\<rparr>,
      \<lparr>store = [], cleanupLogs = [], recentErrors = [], requestCache = [],
       calls =
         [GetVariant ''B'', ListVariants ''P'',
          CreateVariant ''P''
            \<lparr>d_product_id = ''P'', d_price = ToFixed2 (Fin 20),
             d_sku_timestamp = 1200, d_sku_suffix = ''x'',
             d_option1 = ''abc'', d_option2 = ''80'', d_option3 = ''pamuk'',
             d_weight = NaN\<rparr>,
          GetVariant ''V1''],
       clock = 2000, console = []\<rparr>)"
  by (simp add: route_defs sample_defs ground_numbers eval_nat_numeral Let_def)

subsection \<open>Price settlement on the creation path\<close>

lemma settle_price_blank_calls:
  "price_blank (v_price nv) \<Longrightarrow>
   calls (snd (settle_price cat nv ps s))
     = calls s @ UpdateVariantPrice (v_id nv) ps
         # (case result (cat (calls s) (UpdateVariantPrice (v_id nv) ps)) of
              Resolve bd \<Rightarrow> [GetVariant (v_id nv)]
            | Reject err \<Rightarrow> [])"
proof -
  assume blank: "price_blank (v_price nv)"
  let ?c = "UpdateVariantPrice (v_id nv) ps"
  obtain r s1 where a: "admin_request cat ?c s = (r, s1)" by (cases "admin_request cat ?c s")
  then have r: "r = result (cat (calls s) ?c)" and c1: "calls s1 = calls s @ [?c]"
    using admin_request_calls[of cat ?c s] by (auto simp: admin_request_def Let_def)
  obtain r2 s2 where b: "admin_request cat (GetVariant (v_id nv)) (sleep 500 s1) = (r2, s2)"
    by (cases "admin_request cat (GetVariant (v_id nv)) (sleep 500 s1)")
  then have c2: "calls s2 = calls s1 @ [GetVariant (v_id nv)]"
    using admin_request_calls[of cat "GetVariant (v_id nv)" "sleep 500 s1"] by simp
  show ?thesis using blank a b c1 c2 r[symmetric]
    by (cases r; cases r2) (simp_all add: settle_price_def manual_price_update_def)
qed

lemma waitForVariantReady_from_poll:
  "fst (poll_variant cat vid ex 8 0 s) = Some v \<Longrightarrow>
     fst (waitForVariantReady cat vid ex s) = Some v"
  by (cases "poll_variant cat vid ex 8 0 s") (simp add: waitForVariantReady_def)

lemma withTimeout_clock:
  "clock (snd (withTimeout cat c s)) = clock s + int (call_time cat (calls s) c)"
  by (simp add: withTimeout_def call_time_def Let_def min_def)

lemma poll_sum_shift:
  assumes c1: "calls s1 = calls s @ [GetVariant vid]"
  shows "(\<Sum>j<Suc k. 600 * (i + j + 1) + call_time cat (calls s @ replicate j (GetVariant vid)) (GetVariant vid))
      = (600 * (i + 0 + 1) + call_time cat (calls s @ replicate 0 (GetVariant vid)) (GetVariant vid)) + (\<Sum>j<k. 600 * (i + 1 + j + 1) + call_time cat (calls s1 @ replicate j (GetVariant vid)) (GetVariant vid))"
    unfolding c1 by (simp only: sum.lessThan_Suc_shift) simp

lemma poll_variant_step:
  assumes w: "withTimeout cat (GetVariant vid) (sleep (600 * (i + 1)) s) = (r, s1)"
  shows "poll_variant cat vid ex (Suc n) i s = poll_variant cat vid ex n (i + 1) s1
      \<or> (\<exists>v. poll_variant cat vid ex (Suc n) i s = (Some v, s1))"
    using w by (simp split: settled.splits option.splits)

lemma poll_variant_clock:
  "\<exists>k \<le> n. calls (snd (poll_variant cat vid ex n i s)) = calls s @ replicate k (GetVariant vid)
     \<and> (fst (poll_variant cat vid ex n i s) = None \<longrightarrow> k = n)
     \<and> clock (snd (poll_variant cat vid ex n i s))
         = clock s + int (\<Sum>j<k. 600 * (i + j + 1)
                                + call_time cat (calls s @ replicate j (GetVariant vid))
                                    (GetVariant vid))"
proof (induction n arbitrary: i s)
  case 0
  then show ?case by simp
next
  case (Suc n)
  let ?g = "GetVariant vid"
  let ?s0 = "sleep (600 * (i + 1)) s"
  let ?f = "\<lambda>i h j. 600 * (i + j + 1) + call_time cat (h @ replicate j ?g) ?g"
  obtain r s1 where w: "withTimeout cat ?g ?s0 = (r, s1)"
    by (cases "withTimeout cat ?g ?s0")
  from w have s1: "s1 = snd (withTimeout cat ?g ?s0)" by simp
  have c1: "calls s1 = calls s @ [?g]" unfolding s1 by simp
  have t1: "clock s1 = clock s + int (?f i (calls s) 0)"
    unfolding s1 withTimeout_clock by (simp add: sleep_def)
  let ?P = "poll_variant cat vid ex n (i + 1) s1"
  from Suc.IH[of "i + 1" s1] obtain k where k: "k \<le> n"
    "calls (snd ?P) = calls s1 @ replicate k ?g"
    "fst ?P = None \<longrightarrow> k = n"
    "clock (snd ?P) = clock s1 + int (\<Sum>j<k. ?f (i + 1) (calls s1) j)"
    by (elim exE conjE)
  have shift: "(\<Sum>j<Suc k. ?f i (calls s) j)
      = ?f i (calls s) 0 + (\<Sum>j<k. ?f (i + 1) (calls s1) j)"
    by (rule poll_sum_shift[OF c1])
  have A: "calls (snd ?P) = calls s @ replicate (Suc k) ?g" using k(2) c1 by simp
  have B: "clock (snd ?P) = clock s + int (\<Sum>j<Suc k. ?f i (calls s) j)"
    unfolding shift using k(4) t1 by simp
  have rec: "\<exists>k \<le> Suc n. calls (snd ?P) = calls s @ replicate k ?g
     \<and> (fst ?P = None \<longrightarrow> k = Suc n)
     \<and> clock (snd ?P) = clock s + int (\<Sum>j<k. ?f i (calls s) j)"
    using k(1) k(3) A B by (intro exI[of _ "Suc k"]) (simp only: Suc_le_mono nat.inject simp_thms)
  have stop: "\<exists>k \<le> Suc n. calls s1 = calls s @ replicate k ?g
     \<and> (None \<noteq> (None :: variant option) \<longrightarrow> k = Suc n)
     \<and> clock s1 = clock s + int (\<Sum>j<k. ?f i (calls s) j)"
    using c1 t1 by (intro exI[of _ "Suc 0"]) simp
  from poll_variant_step[OF w, of ex n]
  show ?case
  proof
    assume "poll_variant cat vid ex (Suc n) i s = ?P"
    then show ?thesis using rec by (simp only:)
  next
    assume "\<exists>v. poll_variant cat vid ex (Suc n) i s = (Some v, s1)"
    then obtain v where e: "poll_variant cat vid ex (Suc n) i s = (Some v, s1)" by blast
    show ?thesis unfolding e using stop by (simp only: fst_conv snd_conv option.simps simp_thms)
  qed
qed

text \<open>
  C2, as the code has it. After a successful create call the route reads the variant at
  most 9 times (8 timed polls and a final read). Before its \<open>j\<close>-th poll the loop waits
  \<open>600 * j\<close> milliseconds: after \<open>k\<close> polls the clock has advanced by
  \<open>600 * (1 + \<dots> + k)\<close> plus the time the \<open>k\<close> reads took (each at most the timeout),
  and the final read is made without a wait and without the timer. A variant returned
  from inside the polling loop has a price within 0.01 of the requested one. When the
  price left after the polling is missing, empty, \<^verbatim>\<open>"0"\<close> or \<^verbatim>\<open>"0.00"\<close>, a price update
  with the requested price is issued, followed by one re-read if the update succeeds. In
  every other case no update is issued and the variant read last is returned as it is,
  in a success response.
\<close>

theorem creation_price_outcomes:
  "took (cat (calls s) (CreateVariant pid (build_variantData req pid b e m cp (clock s))))
     < API_TIMEOUT
   \<and> result (cat (calls s) (CreateVariant pid (build_variantData req pid b e m cp (clock s))))
       = Resolve bd
   \<and> body_variant bd = Some created
   \<and> s1 = snd (withTimeout cat
                 (CreateVariant pid (build_variantData req pid b e m cp (clock s))) s)
   \<and> ready = fst (waitForVariantReady cat (v_id created) cp s1)
   \<and> s2 = snd (waitForVariantReady cat (v_id created) cp s1)
   \<and> nv = (case ready of None \<Rightarrow> created | Some v \<Rightarrow> v)
   \<longrightarrow>
     (\<exists>k \<le> 9. calls s2 = calls s1 @ replicate k (GetVariant (v_id created)))
   \<and> (\<forall>v. fst (poll_variant cat (v_id created) cp 8 0 s1) = Some v \<longrightarrow>
          ready = Some v \<and> (\<exists>p. v_price v = Some p \<and> price_matches p cp))
   \<and> (price_blank (v_price nv) \<longrightarrow>
        calls (snd (creation_path cat req session adminSession pid b e m cp key rid s))
          = calls s2 @ UpdateVariantPrice (v_id nv) (ToFixed2 cp)
              # (case result (cat (calls s2) (UpdateVariantPrice (v_id nv) (ToFixed2 cp))) of
                   Resolve bd' \<Rightarrow> [GetVariant (v_id nv)]
                 | Reject err \<Rightarrow> []))
   \<and> (\<not> price_blank (v_price nv) \<longrightarrow>
        creation_path cat req session adminSession pid b e m cp key rid s
          = finish_creation req session adminSession pid b e m cp key rid (Some nv) s2
        \<and> fst (creation_path cat req session adminSession pid b e m cp key rid s)
          = created_response nv cp (calculateWeight (parseInt10 b) (parseInt10 e) m) pid rid
        \<and> calls (snd (creation_path cat req session adminSession pid b e m cp key rid s))
          = calls s2)
   \<and> (let g = GetVariant (v_id created);
             sp = snd (poll_variant cat (v_id created) cp 8 0 s1);
             k = length (calls sp) - length (calls s1)
         in k \<le> 8 \<and> calls sp = calls s1 @ replicate k g
            \<and> (fst (poll_variant cat (v_id created) cp 8 0 s1) = None \<longrightarrow> k = 8)
            \<and> clock sp = clock s1
                  + int (\<Sum>j<k. 600 * (j + 1) + call_time cat (calls s1 @ replicate j g) g)
            \<and> clock s2 = clock sp
                  + (case fst (poll_variant cat (v_id created) cp 8 0 s1) of
                       None \<Rightarrow> int (took (cat (calls sp) g))
                     | Some v \<Rightarrow> 0))"
proof (intro impI, elim conjE)
  let ?c = "CreateVariant pid (build_variantData req pid b e m cp (clock s))"
  assume t: "took (cat (calls s) ?c) < API_TIMEOUT"
    and r: "result (cat (calls s) ?c) = Resolve bd"
    and bd: "body_variant bd = Some created"
    and s1: "s1 = snd (withTimeout cat ?c s)"
    and ready: "ready = fst (waitForVariantReady cat (v_id created) cp s1)"
    and s2: "s2 = snd (waitForVariantReady cat (v_id created) cp s1)"
    and nv: "nv = (case ready of None \<Rightarrow> created | Some v \<Rightarrow> v)"
  have w: "withTimeout cat ?c s = (Resolve bd, s1)"
    using t r s1 by (simp add: withTimeout_def Let_def)
  have wf: "waitForVariantReady cat (v_id created) cp s1 = (ready, s2)"
    using ready s2 by simp
  have cp_eq: "creation_path cat req session adminSession pid b e m cp key rid s
      = (case settle_price cat nv (ToFixed2 cp) s2 of
           (final, s3) \<Rightarrow>
             finish_creation req session adminSession pid b e m cp key rid final s3)"
    using w bd wf nv by (simp add: creation_path_def)
  have A: "\<exists>k \<le> 9. calls s2 = calls s1 @ replicate k (GetVariant (v_id created))"
    using waitForVariantReady_calls[of cat "v_id created" cp s1] wf by simp
  have B: "\<forall>v. fst (poll_variant cat (v_id created) cp 8 0 s1) = Some v \<longrightarrow>
          ready = Some v \<and> (\<exists>p. v_price v = Some p \<and> price_matches p cp)"
    using waitForVariantReady_from_poll[of cat "v_id created" cp s1]
      poll_variant_matches[of cat "v_id created" cp 8 0 s1] ready by auto
  have C: "price_blank (v_price nv) \<longrightarrow>
        calls (snd (creation_path cat req session adminSession pid b e m cp key rid s))
          = calls s2 @ UpdateVariantPrice (v_id nv) (ToFixed2 cp)
              # (case result (cat (calls s2) (UpdateVariantPrice (v_id nv) (ToFixed2 cp))) of
                   Resolve bd' \<Rightarrow> [GetVariant (v_id nv)]
                 | Reject err \<Rightarrow> [])"
  proof
    assume blank: "price_blank (v_price nv)"
    obtain fin s3 where sp: "settle_price cat nv (ToFixed2 cp) s2 = (fin, s3)"
      by (cases "settle_price cat nv (ToFixed2 cp) s2")
    from settle_price_blank_calls[OF blank, of cat "ToFixed2 cp" s2] sp
    have "calls s3 = calls s2 @ UpdateVariantPrice (v_id nv) (ToFixed2 cp)
              # (case result (cat (calls s2) (UpdateVariantPrice (v_id nv) (ToFixed2 cp))) of
                   Resolve bd' \<Rightarrow> [GetVariant (v_id nv)]
                 | Reject err \<Rightarrow> [])" by simp
    then show "calls (snd (creation_path cat req session adminSession pid b e m cp key rid s))
          = calls s2 @ UpdateVariantPrice (v_id nv) (ToFixed2 cp)
              # (case result (cat (calls s2) (UpdateVariantPrice (v_id nv) (ToFixed2 cp))) of
                   Resolve bd' \<Rightarrow> [GetVariant (v_id nv)]
                 | Reject err \<Rightarrow> [])"
      using cp_eq sp by simp
  qed
  have D: "\<not> price_blank (v_price nv) \<longrightarrow>
        creation_path cat req session adminSession pid b e m cp key rid s
          = finish_creation req session adminSession pid b e m cp key rid (Some nv) s2
        \<and> fst (creation_path cat req session adminSession pid b e m cp key rid s)
          = created_response nv cp (calculateWeight (parseInt10 b) (parseInt10 e) m) pid rid
        \<and> calls (snd (creation_path cat req session adminSession pid b e m cp key rid s))
          = calls s2"
    using cp_eq by (simp add: settle_price_def finish_creation_def Let_def)
  have E: "let g = GetVariant (v_id created);
             sp = snd (poll_variant cat (v_id created) cp 8 0 s1);
             k = length (calls sp) - length (calls s1)
         in k \<le> 8 \<and> calls sp = calls s1 @ replicate k g
            \<and> (fst (poll_variant cat (v_id created) cp 8 0 s1) = None \<longrightarrow> k = 8)
            \<and> clock sp = clock s1
                  + int (\<Sum>j<k. 600 * (j + 1) + call_time cat (calls s1 @ replicate j g) g)
            \<and> clock s2 = clock sp
                  + (case fst (poll_variant cat (v_id created) cp 8 0 s1) of
                       None \<Rightarrow> int (took (cat (calls sp) g))
                     | Some v \<Rightarrow> 0)"
  proof -
    let ?g = "GetVariant (v_id created)"
    let ?P = "poll_variant cat (v_id created) cp 8 0 s1"
    from poll_variant_clock[of 8 cat "v_id created" cp 0 s1]
    obtain k where k: "k \<le> 8" "calls (snd ?P) = calls s1 @ replicate k ?g"
      "fst ?P = None \<longrightarrow> k = 8"
      "clock (snd ?P) = clock s1
         + int (\<Sum>j<k. 600 * (0 + j + 1) + call_time cat (calls s1 @ replicate j ?g) ?g)"
      by (elim exE conjE)
    have len: "length (calls (snd ?P)) - length (calls s1) = k" using k(2) by simp
    have fin: "clock s2 = clock (snd ?P)
                  + (case fst ?P of None \<Rightarrow> int (took (cat (calls (snd ?P)) ?g))
                     | Some v \<Rightarrow> 0)"
      unfolding s2
      by (cases ?P; cases "fst ?P")
         (simp_all add: waitForVariantReady_def admin_request_def Let_def
            split: settled.splits)
    show ?thesis unfolding Let_def len using k fin by simp
  qed
  show "(\<exists>k \<le> 9. calls s2 = calls s1 @ replicate k (GetVariant (v_id created)))
   \<and> (\<forall>v. fst (poll_variant cat (v_id created) cp 8 0 s1) = Some v \<longrightarrow>
          ready = Some v \<and> (\<exists>p. v_price v = Some p \<and> price_matches p cp))
   \<and> (price_blank (v_price nv) \<longrightarrow>
        calls (snd (creation_path cat req session adminSession pid b e m cp key rid s))
          = calls s2 @ UpdateVariantPrice (v_id nv) (ToFixed2 cp)
              # (case result (cat (calls s2) (UpdateVariantPrice (v_id nv) (ToFixed2 cp))) of
                   Resolve bd' \<Rightarrow> [GetVariant (v_id nv)]
                 | Reject err \<Rightarrow> []))
   \<and> (\<not> price_blank (v_price nv) \<longrightarrow>
        creation_path cat req session adminSession pid b e m cp key rid s
          = finish_creation req session adminSession pid b e m cp key rid (Some nv) s2
        \<and> fst (creation_path cat req session adminSession pid b e m cp key rid s)
          = created_response nv cp (calculateWeight (parseInt10 b) (parseInt10 e) m) pid rid
        \<and> calls (snd (creation_path cat req session adminSession pid b e m cp key rid s))
          = calls s2)
   \<and> (let g = GetVariant (v_id created);
             sp = snd (poll_variant cat (v_id created) cp 8 0 s1);
             k = length (calls sp) - length (calls s1)
         in k \<le> 8 \<and> calls sp = calls s1 @ replicate k g
            \<and> (fst (poll_variant cat (v_id created) cp 8 0 s1) = None \<longrightarrow> k = 8)
            \<and> clock sp = clock s1
                  + int (\<Sum>j<k. 600 * (j + 1) + call_time cat (calls s1 @ replicate j g) g)
            \<and> clock s2 = clock sp
                  + (case fst (poll_variant cat (v_id created) cp 8 0 s1) of
                       None \<Rightarrow> int (took (cat (calls sp) g))
                     | Some v \<Rightarrow> 0))"
    using A B C D E by blast
qed

lemma stale_wait:
  "waitForVariantReady (catalog_stale ''5.00'') ''V1'' (Fin 20)
     ((sample_system [] 1300)\<lparr>calls := [CreateVariant ''P''
         (build_variantData (sample_request ''120'' ''20'') ''P'' ''120'' ''80'' ''pamuk''
            (Fin 20) 1200)]\<rparr>)
   = (Some (sample_variant (Some ''5.00'')),
      (sample_system [] 23800)\<lparr>calls := CreateVariant ''P''
         (build_variantData (sample_request ''120'' ''20'') ''P'' ''120'' ''80'' ''pamuk''
            (Fin 20) 1200) # replicate 9 (GetVariant ''V1'')\<rparr>)"
  by (simp add: waitForVariantReady_def withTimeout_def admin_request_def sleep_def
        API_TIMEOUT_def sample_defs ground_numbers eval_nat_numeral Let_def)

lemma matching_poll:
  "poll_variant (catalog_stale ''20.00'') ''V1'' (Fin 20) 8 0
     ((sample_system [] 1300)\<lparr>calls := [CreateVariant ''P''
         (build_variantData (sample_request ''120'' ''20'') ''P'' ''120'' ''80'' ''pamuk''
            (Fin 20) 1200)]\<rparr>)
   = (Some (sample_variant (Some ''20.00'')),
      (sample_system [] 2000)\<lparr>calls := [CreateVariant ''P''
         (build_variantData (sample_request ''120'' ''20'') ''P'' ''120'' ''80'' ''pamuk''
            (Fin 20) 1200), GetVariant ''V1'']\<rparr>)"
  by (simp add: withTimeout_def sleep_def API_TIMEOUT_def sample_defs ground_numbers
        eval_nat_numeral Let_def)

lemma price_zero_mismatch: "price_matches ''0.00'' (Fin 20) = False" by code_simp

lemma blank_wait:
  "waitForVariantReady (catalog_stale ''0.00'') ''V1'' (Fin 20)
     ((sample_system [] 1300)\<lparr>calls := [CreateVariant ''P''
         (build_variantData (sample_request ''120'' ''20'') ''P'' ''120'' ''80'' ''pamuk''
            (Fin 20) 1200)]\<rparr>)
   = (Some (sample_variant (Some ''0.00'')),
      (sample_system [] 23800)\<lparr>calls := CreateVariant ''P''
         (build_variantData (sample_request ''120'' ''20'') ''P'' ''120'' ''80'' ''pamuk''
            (Fin 20) 1200) # replicate 9 (GetVariant ''V1'')\<rparr>)"
  by (simp add: waitForVariantReady_def withTimeout_def admin_request_def sleep_def
        API_TIMEOUT_def sample_defs ground_numbers price_zero_mismatch eval_nat_numeral Let_def)

lemma stale_poll:
  "fst (poll_variant (catalog_stale ''5.00'') ''V1'' (Fin 20) 8 0
     ((sample_system [] 1300)\<lparr>calls := [CreateVariant ''P''
         (build_variantData (sample_request ''120'' ''20'') ''P'' ''120'' ''80'' ''pamuk''
            (Fin 20) 1200)]\<rparr>)) = None"
  by (simp add: withTimeout_def sleep_def API_TIMEOUT_def sample_defs ground_numbers
        eval_nat_numeral Let_def)

text \<open>The theorem at three catalogs: one that keeps answering with the price 5.00 (the
  response carries 5.00 and no update is sent; the eight polls end 22400 ms after the
  create call, 21600 of them waited), one that keeps answering with 0.00 (the update is
  sent and the variant read again), and one that answers with the requested price (the
  first poll matches, 700 ms after the create call).\<close>

theorem creation_price_outcomes_witness:
  "fst (creation_path (catalog_stale ''5.00'') (sample_request ''120'' ''20'')
          \<lparr>session_id = ''S'', shop = ''shop''\<rparr> \<lparr>session_id = ''S'', shop = ''shop''\<rparr>
          ''P'' ''120'' ''80'' ''pamuk'' (Fin 20) ''120-80-pamuk'' (GivenId ''R'')
          (sample_system [] 1200))
   = created_response (sample_variant (Some ''5.00'')) (Fin 20) (Fin 1440) ''P'' (GivenId ''R'')
   \<and> calls (snd (creation_path (catalog_stale ''5.00'') (sample_request ''120'' ''20'')
          \<lparr>session_id = ''S'', shop = ''shop''\<rparr> \<lparr>session_id = ''S'', shop = ''shop''\<rparr>
          ''P'' ''120'' ''80'' ''pamuk'' (Fin 20) ''120-80-pamuk'' (GivenId ''R'')
          (sample_system [] 1200)))
   = CreateVariant ''P''
       (build_variantData (sample_request ''120'' ''20'') ''P'' ''120'' ''80'' ''pamuk''
          (Fin 20) 1200) # replicate 9 (GetVariant ''V1'')
   \<and> calls (snd (creation_path (catalog_stale ''0.00'') (sample_request ''120'' ''20'')
          \<lparr>session_id = ''S'', shop = ''shop''\<rparr> \<lparr>session_id = ''S'', shop = ''shop''\<rparr>
          ''P'' ''120'' ''80'' ''pamuk'' (Fin 20) ''120-80-pamuk'' (GivenId ''R'')
          (sample_system [] 1200)))
   = CreateVariant ''P''
       (build_variantData (sample_request ''120'' ''20'') ''P'' ''120'' ''80'' ''pamuk''
          (Fin 20) 1200) # replicate 9 (GetVariant ''V1'')
       @ [UpdateVariantPrice ''V1'' (ToFixed2 (Fin 20)), GetVariant ''V1'']
   \<and> price_matches ''20.00'' (Fin 20)
   \<and> clock (snd (poll_variant (catalog_stale ''5.00'') ''V1'' (Fin 20) 8 0
              ((sample_system [] 1300)\<lparr>calls := [CreateVariant ''P''
                 (build_variantData (sample_request ''120'' ''20'') ''P'' ''120'' ''80''
                    ''pamuk'' (Fin 20) 1200)]\<rparr>)))
       = 1300 + 600 * (1 + 2 + 3 + 4 + 5 + 6 + 7 + 8) + 8 * 100
   \<and> clock (snd (waitForVariantReady (catalog_stale ''5.00'') ''V1'' (Fin 20)
              ((sample_system [] 1300)\<lparr>calls := [CreateVariant ''P''
                 (build_variantData (sample_request ''120'' ''20'') ''P'' ''120'' ''80''
                    ''pamuk'' (Fin 20) 1200)]\<rparr>)))
       = 1300 + 600 * (1 + 2 + 3 + 4 + 5 + 6 + 7 + 8) + 8 * 100 + 100
   \<and> clock (snd (poll_variant (catalog_stale ''20.00'') ''V1'' (Fin 20) 8 0
              ((sample_system [] 1300)\<lparr>calls := [CreateVariant ''P''
                 (build_variantData (sample_request ''120'' ''20'') ''P'' ''120'' ''80''
                    ''pamuk'' (Fin 20) 1200)]\<rparr>)))
       = 1300 + 600 * 1 + 100"
proof -
  let ?u = "\<lparr>session_id = ''S'', shop = ''shop''\<rparr>"
  let ?req = "sample_request ''120'' ''20''"
  let ?s = "sample_system [] 1200"
  let ?c = "CreateVariant ''P''
              (build_variantData ?req ''P'' ''120'' ''80'' ''pamuk'' (Fin 20) (clock ?s))"
  let ?c' = "CreateVariant ''P''
              (build_variantData ?req ''P'' ''120'' ''80'' ''pamuk'' (Fin 20) 1200)"
  let ?s1' = "(sample_system [] 1300)\<lparr>calls := [?c']\<rparr>"
  let ?s2' = "(sample_system [] 23800)\<lparr>calls := ?c' # replicate 9 (GetVariant ''V1'')\<rparr>"
  have clk: "clock ?s = 1200" by (simp add: sample_system_def)
  have general:
    "(\<forall>v. fst (poll_variant (catalog_stale p) ''V1'' (Fin 20) 8 0
                 (snd (withTimeout (catalog_stale p) ?c ?s))) = Some v \<longrightarrow>
          (\<exists>q. v_price v = Some q \<and> price_matches q (Fin 20)))
     \<and> (waitForVariantReady (catalog_stale p) ''V1'' (Fin 20)
            (snd (withTimeout (catalog_stale p) ?c ?s)) = (Some (sample_variant (Some p)), s2) \<longrightarrow>
         (price_blank (Some p) \<longrightarrow>
            calls (snd (creation_path (catalog_stale p) ?req ?u ?u ''P'' ''120'' ''80''
                          ''pamuk'' (Fin 20) ''120-80-pamuk'' (GivenId ''R'') ?s))
              = calls s2 @ UpdateVariantPrice ''V1'' (ToFixed2 (Fin 20))
                  # (case result (catalog_stale p (calls s2)
                                    (UpdateVariantPrice ''V1'' (ToFixed2 (Fin 20)))) of
                       Resolve bd' \<Rightarrow> [GetVariant ''V1''] | Reject err \<Rightarrow> []))
         \<and> (\<not> price_blank (Some p) \<longrightarrow>
            fst (creation_path (catalog_stale p) ?req ?u ?u ''P'' ''120'' ''80''
                          ''pamuk'' (Fin 20) ''120-80-pamuk'' (GivenId ''R'') ?s)
              = created_response (sample_variant (Some p)) (Fin 20)
                  (calculateWeight (parseInt10 ''120'') (parseInt10 ''80'') ''pamuk'') ''P''
                  (GivenId ''R'')
            \<and> calls (snd (creation_path (catalog_stale p) ?req ?u ?u ''P'' ''120'' ''80''
                          ''pamuk'' (Fin 20) ''120-80-pamuk'' (GivenId ''R'') ?s))
              = calls s2))
     \<and> (let sp = snd (poll_variant (catalog_stale p) ''V1'' (Fin 20) 8 0
                        (snd (withTimeout (catalog_stale p) ?c ?s)));
              k = length (calls sp) - length (calls (snd (withTimeout (catalog_stale p) ?c ?s)))
          in (fst (poll_variant (catalog_stale p) ''V1'' (Fin 20) 8 0
                     (snd (withTimeout (catalog_stale p) ?c ?s))) = None \<longrightarrow> k = 8)
             \<and> clock sp = clock (snd (withTimeout (catalog_stale p) ?c ?s))
                   + int (\<Sum>j<k. 600 * (j + 1)
                            + call_time (catalog_stale p)
                                (calls (snd (withTimeout (catalog_stale p) ?c ?s))
                                   @ replicate j (GetVariant ''V1'')) (GetVariant ''V1''))
             \<and> clock (snd (waitForVariantReady (catalog_stale p) ''V1'' (Fin 20)
                            (snd (withTimeout (catalog_stale p) ?c ?s))))
                 = clock sp
                   + (case fst (poll_variant (catalog_stale p) ''V1'' (Fin 20) 8 0
                                  (snd (withTimeout (catalog_stale p) ?c ?s))) of
                        None \<Rightarrow> int (took (catalog_stale p (calls sp) (GetVariant ''V1'')))
                      | Some v \<Rightarrow> 0))"
    for p s2
  proof -
    let ?cat = "catalog_stale p"
    let ?v = "sample_variant (Some p)"
    let ?bd = "variant_body ?v"
    let ?s1 = "snd (withTimeout ?cat ?c ?s)"
    let ?ready = "fst (waitForVariantReady ?cat (v_id ?v) (Fin 20) ?s1)"
    let ?s2 = "snd (waitForVariantReady ?cat (v_id ?v) (Fin 20) ?s1)"
    let ?nv = "case ?ready of None \<Rightarrow> ?v | Some w \<Rightarrow> w"
    have h: "took (?cat (calls ?s) ?c) < API_TIMEOUT"
      "result (?cat (calls ?s) ?c) = Resolve ?bd" "body_variant ?bd = Some ?v"
      by (simp_all add: API_TIMEOUT_def sample_defs)
    have vid: "v_id ?v = ''V1''" "v_price ?v = Some p" by (simp_all add: sample_variant_def)
    note T = creation_price_outcomes[where cat = ?cat and s = ?s and pid = "''P''"
        and req = ?req and b = "''120''" and e = "''80''" and m = "''pamuk''"
        and cp = "Fin 20" and bd = ?bd and created = ?v and ?s1.0 = ?s1 and ready = ?ready
        and ?s2.0 = ?s2 and nv = ?nv and session = ?u and adminSession = ?u
        and key = "''120-80-pamuk''" and rid = "GivenId ''R''"]
    from T h have
      B: "\<forall>v. fst (poll_variant ?cat (v_id ?v) (Fin 20) 8 0 ?s1) = Some v \<longrightarrow>
            ?ready = Some v \<and> (\<exists>q. v_price v = Some q \<and> price_matches q (Fin 20))"
      and C: "price_blank (v_price ?nv) \<longrightarrow>
        calls (snd (creation_path ?cat ?req ?u ?u ''P'' ''120'' ''80'' ''pamuk'' (Fin 20)
                      ''120-80-pamuk'' (GivenId ''R'') ?s))
          = calls ?s2 @ UpdateVariantPrice (v_id ?nv) (ToFixed2 (Fin 20))
              # (case result (?cat (calls ?s2)
                                (UpdateVariantPrice (v_id ?nv) (ToFixed2 (Fin 20)))) of
                   Resolve bd' \<Rightarrow> [GetVariant (v_id ?nv)] | Reject err \<Rightarrow> [])"
      and D: "\<not> price_blank (v_price ?nv) \<longrightarrow>
          fst (creation_path ?cat ?req ?u ?u ''P'' ''120'' ''80'' ''pamuk'' (Fin 20)
                 ''120-80-pamuk'' (GivenId ''R'') ?s)
            = created_response ?nv (Fin 20)
                (calculateWeight (parseInt10 ''120'') (parseInt10 ''80'') ''pamuk'') ''P''
                (GivenId ''R'')
          \<and> calls (snd (creation_path ?cat ?req ?u ?u ''P'' ''120'' ''80'' ''pamuk'' (Fin 20)
                 ''120-80-pamuk'' (GivenId ''R'') ?s))
            = calls ?s2"
      and E: "let g = GetVariant (v_id ?v);
                  sp = snd (poll_variant ?cat (v_id ?v) (Fin 20) 8 0 ?s1);
                  k = length (calls sp) - length (calls ?s1)
              in k \<le> 8 \<and> calls sp = calls ?s1 @ replicate k g
                 \<and> (fst (poll_variant ?cat (v_id ?v) (Fin 20) 8 0 ?s1) = None \<longrightarrow> k = 8)
                 \<and> clock sp = clock ?s1
                       + int (\<Sum>j<k. 600 * (j + 1)
                                + call_time ?cat (calls ?s1 @ replicate j g) g)
                 \<and> clock ?s2 = clock sp
                       + (case fst (poll_variant ?cat (v_id ?v) (Fin 20) 8 0 ?s1) of
                            None \<Rightarrow> int (took (?cat (calls sp) g))
                          | Some v \<Rightarrow> 0)"
      by blast+
    have E': "let sp = snd (poll_variant ?cat ''V1'' (Fin 20) 8 0 ?s1);
                  k = length (calls sp) - length (calls ?s1)
          in (fst (poll_variant ?cat ''V1'' (Fin 20) 8 0 ?s1) = None \<longrightarrow> k = 8)
             \<and> clock sp = clock ?s1
                   + int (\<Sum>j<k. 600 * (j + 1)
                            + call_time ?cat (calls ?s1 @ replicate j (GetVariant ''V1''))
                                (GetVariant ''V1''))
             \<and> clock (snd (waitForVariantReady ?cat ''V1'' (Fin 20) ?s1))
                 = clock sp
                   + (case fst (poll_variant ?cat ''V1'' (Fin 20) 8 0 ?s1) of
                        None \<Rightarrow> int (took (?cat (calls sp) (GetVariant ''V1'')))
                      | Some v \<Rightarrow> 0)"
      using E unfolding Let_def vid by blast
    have nv: "?ready = Some ?v \<and> ?s2 = s2 \<and> ?nv = ?v"
      if "waitForVariantReady ?cat ''V1'' (Fin 20) ?s1 = (Some ?v, s2)"
      using that by (simp add: vid)
    have B': "\<forall>v. fst (poll_variant ?cat ''V1'' (Fin 20) 8 0 ?s1) = Some v \<longrightarrow>
            (\<exists>q. v_price v = Some q \<and> price_matches q (Fin 20))"
      using B by (simp add: vid)
    have CD: "(price_blank (Some p) \<longrightarrow>
            calls (snd (creation_path ?cat ?req ?u ?u ''P'' ''120'' ''80''
                          ''pamuk'' (Fin 20) ''120-80-pamuk'' (GivenId ''R'') ?s))
              = calls s2 @ UpdateVariantPrice ''V1'' (ToFixed2 (Fin 20))
                  # (case result (?cat (calls s2)
                                    (UpdateVariantPrice ''V1'' (ToFixed2 (Fin 20)))) of
                       Resolve bd' \<Rightarrow> [GetVariant ''V1''] | Reject err \<Rightarrow> []))
         \<and> (\<not> price_blank (Some p) \<longrightarrow>
            fst (creation_path ?cat ?req ?u ?u ''P'' ''120'' ''80''
                          ''pamuk'' (Fin 20) ''120-80-pamuk'' (GivenId ''R'') ?s)
              = created_response ?v (Fin 20)
                  (calculateWeight (parseInt10 ''120'') (parseInt10 ''80'') ''pamuk'') ''P''
                  (GivenId ''R'')
            \<and> calls (snd (creation_path ?cat ?req ?u ?u ''P'' ''120'' ''80''
                          ''pamuk'' (Fin 20) ''120-80-pamuk'' (GivenId ''R'') ?s))
              = calls s2)"
      if w: "waitForVariantReady ?cat ''V1'' (Fin 20) ?s1 = (Some ?v, s2)"
    proof -
      from nv[OF w] have e: "?nv = ?v" "?s2 = s2" by simp_all
      show ?thesis using C D unfolding e by (simp only: vid)
    qed
    show ?thesis using B' CD E' by blast
  qed
  have s1: "snd (withTimeout (catalog_stale p) ?c ?s) = ?s1'" for p
    by (simp add: withTimeout_def API_TIMEOUT_def sample_defs Let_def)
  have nb: "\<not> price_blank (Some ''5.00'')" "price_blank (Some ''0.00'')"
    by (simp_all add: price_blank_def present_def)
  have upd: "result (catalog_stale p cs (UpdateVariantPrice i t))
      = Resolve (variant_body (sample_variant (Some p)))" for p cs i t
    by (simp add: catalog_stale_def replied_def)
  have w5: "waitForVariantReady (catalog_stale ''5.00'') ''V1'' (Fin 20)
              (snd (withTimeout (catalog_stale ''5.00'') ?c ?s))
            = (Some (sample_variant (Some ''5.00'')), ?s2')"
    unfolding s1 by (rule stale_wait)
  have w0: "waitForVariantReady (catalog_stale ''0.00'') ''V1'' (Fin 20)
              (snd (withTimeout (catalog_stale ''0.00'') ?c ?s))
            = (Some (sample_variant (Some ''0.00'')), ?s2')"
    unfolding s1 by (rule blank_wait)
  have p20: "fst (poll_variant (catalog_stale ''20.00'') ''V1'' (Fin 20) 8 0
                    (snd (withTimeout (catalog_stale ''20.00'') ?c ?s)))
             = Some (sample_variant (Some ''20.00''))"
    unfolding s1 by (simp add: matching_poll)
  from general[of "''5.00''" ?s2'] w5 nb(1)
  have five: "fst (creation_path (catalog_stale ''5.00'') ?req ?u ?u ''P'' ''120'' ''80''
                     ''pamuk'' (Fin 20) ''120-80-pamuk'' (GivenId ''R'') ?s)
      = created_response (sample_variant (Some ''5.00'')) (Fin 20)
          (calculateWeight (parseInt10 ''120'') (parseInt10 ''80'') ''pamuk'') ''P''
          (GivenId ''R'')
    \<and> calls (snd (creation_path (catalog_stale ''5.00'') ?req ?u ?u ''P'' ''120'' ''80''
                     ''pamuk'' (Fin 20) ''120-80-pamuk'' (GivenId ''R'') ?s))
      = calls ?s2'"
    by blast
  from general[of "''0.00''" ?s2'] w0 nb(2)
  have zero: "calls (snd (creation_path (catalog_stale ''0.00'') ?req ?u ?u ''P'' ''120'' ''80''
                     ''pamuk'' (Fin 20) ''120-80-pamuk'' (GivenId ''R'') ?s))
      = calls ?s2' @ UpdateVariantPrice ''V1'' (ToFixed2 (Fin 20))
          # (case result (catalog_stale ''0.00'' (calls ?s2')
                            (UpdateVariantPrice ''V1'' (ToFixed2 (Fin 20)))) of
               Resolve bd' \<Rightarrow> [GetVariant ''V1''] | Reject err \<Rightarrow> [])"
    by blast
  from general[of "''20.00''" ?s2'] p20
  have twenty: "\<exists>q. v_price (sample_variant (Some ''20.00'')) = Some q
                    \<and> price_matches q (Fin 20)"
    by blast
  have t: "price_matches ''20.00'' (Fin 20)"
    using twenty by (simp add: sample_variant_def)
  have ct: "call_time (catalog_stale p) h (GetVariant ''V1'') = 100" for p h
    by (simp add: call_time_def catalog_stale_def replied_def API_TIMEOUT_def)
  have tk: "took (catalog_stale p h (GetVariant ''V1'')) = 100" for p h
    by (simp add: catalog_stale_def replied_def)
  have c1: "clock ?s1' = 1300" "length (calls ?s1') = 1" by (simp_all add: sample_system_def)
  have n5: "fst (poll_variant (catalog_stale ''5.00'') ''V1'' (Fin 20) 8 0 ?s1') = None"
    by (rule stale_poll)
  from general[of "''5.00''" ?s2'] n5
  have k5: "clock (snd (poll_variant (catalog_stale ''5.00'') ''V1'' (Fin 20) 8 0 ?s1'))
              = clock ?s1' + int (\<Sum>j<8. 600 * (j + 1) + 100)
     \<and> clock (snd (waitForVariantReady (catalog_stale ''5.00'') ''V1'' (Fin 20) ?s1'))
         = clock (snd (poll_variant (catalog_stale ''5.00'') ''V1'' (Fin 20) 8 0 ?s1')) + 100"
    unfolding s1 Let_def ct tk by simp
  have l20: "length (calls (snd (poll_variant (catalog_stale ''20.00'') ''V1'' (Fin 20) 8 0
                                   ?s1'))) - length (calls ?s1') = 1"
    unfolding matching_poll by (simp add: sample_system_def)
  from general[of "''20.00''" ?s2']
  have k20: "clock (snd (poll_variant (catalog_stale ''20.00'') ''V1'' (Fin 20) 8 0 ?s1'))
              = clock ?s1' + int (\<Sum>j<1. 600 * (j + 1) + 100)"
    unfolding s1 Let_def ct tk l20 by blast
  have sums: "(\<Sum>j<8. 600 * (j + 1) + 100) = (22400 :: nat)"
    "(\<Sum>j<1. 600 * (j + 1) + 100) = (700 :: nat)"
    by (simp_all add: lessThan_nat_numeral lessThan_Suc)
  have clocks:
    "clock (snd (poll_variant (catalog_stale ''5.00'') ''V1'' (Fin 20) 8 0 ?s1'))
       = 1300 + 600 * (1 + 2 + 3 + 4 + 5 + 6 + 7 + 8) + 8 * 100"
    "clock (snd (waitForVariantReady (catalog_stale ''5.00'') ''V1'' (Fin 20) ?s1'))
       = 1300 + 600 * (1 + 2 + 3 + 4 + 5 + 6 + 7 + 8) + 8 * 100 + 100"
    "clock (snd (poll_variant (catalog_stale ''20.00'') ''V1'' (Fin 20) 8 0 ?s1'))
       = 1300 + 600 * 1 + 100"
    using k5 k20 unfolding sums c1 by simp_all
  have prices: "fst (creation_path (catalog_stale ''5.00'') ?req ?u ?u ''P'' ''120'' ''80''
                     ''pamuk'' (Fin 20) ''120-80-pamuk'' (GivenId ''R'') ?s)
      = created_response (sample_variant (Some ''5.00'')) (Fin 20) (Fin 1440) ''P''
          (GivenId ''R'')
    \<and> calls (snd (creation_path (catalog_stale ''5.00'') ?req ?u ?u ''P'' ''120'' ''80''
                     ''pamuk'' (Fin 20) ''120-80-pamuk'' (GivenId ''R'') ?s))
      = ?c' # replicate 9 (GetVariant ''V1'')
    \<and> calls (snd (creation_path (catalog_stale ''0.00'') ?req ?u ?u ''P'' ''120'' ''80''
                     ''pamuk'' (Fin 20) ''120-80-pamuk'' (GivenId ''R'') ?s))
      = ?c' # replicate 9 (GetVariant ''V1'')
          @ [UpdateVariantPrice ''V1'' (ToFixed2 (Fin 20)), GetVariant ''V1'']
    \<and> price_matches ''20.00'' (Fin 20)"
    using five zero t by (simp add: upd ground_numbers)
  show ?thesis using prices clocks by (intro conjI) (simp_all only:)
qed

text \<open>
  C2 as stated fails: the requested price is 20, every read returns \<^verbatim>\<open>"5.00"\<close>; the
  response is a success with price \<^verbatim>\<open>"5.00"\<close>, no price update was issued, and nothing
  in the response reports a mismatch.
\<close>

theorem silent_wrong_price_counterexample:
  "validatePrice ''20'' = Inr (Fin 20)
   \<and> price_matches ''5.00'' (Fin 20) = False
   \<and> action (catalog_stale ''5.00'') sample_sessions (sample_request ''120'' ''20'')
       (sample_system [] 1000)
   = (\<lparr>r_status = 200, r_success = True, r_errorType = None,
       r_text = NewProductCreated, r_retryAfter = None, r_details = None,
       r_variant =
         Some \<lparr>rv_id = ''V1'', rv_price = CatalogPrice ''5.00'',
               rv_price_numeric = Some (Fin 5), rv_weight = Some (Fin 1440)\<rparr>,
       r_product_id = Some ''P'', r_usedExisting = Some False,
       r_requestId = Some (GivenId ''R''),
       r_debug =
         Some \<lparr>dbg_originalPrice = Some ''5.00'', dbg_calculatedPrice = Fin 20,
               dbg_priceString = ToFixed2 (Fin 20)\<rparr>\<rparr>,
      \<lparr>store =
         [\<lparr>row_id = ''row1'', productId = ''P'', variantId = ''V1'',
           createdAt = 23800, scheduledDeletionAt = 7223800, deletedAt = None,
           boy = 120, en = 80, materyal = ''pamuk'', calculatedPrice = 20,
           area = 9600, isOrdered = False, orderIds = [], cleanupAttempts = 0,
           lastCleanupError = None, shopDomain = ''shop'',
           sessionId = Some ''S''\<rparr>],
       cleanupLogs =
         [\<lparr>log_createdAt = 23800, log_action = Variant_created,
           log_productId = Some ''P'', log_variantId = Some ''V1'',
           log_message =
             TemporaryVariantCreated ''120'' ''80'' ''pamuk'' (Fin 1440) (Some ''5.00''),
           log_errorDetails = None\<rparr>],
       recentErrors = [], requestCache = [],
       calls =
         [GetVariant ''B'', ListVariants ''P'',
          CreateVariant ''P''
            \<lparr>d_product_id = ''P'', d_price = ToFixed2 (Fin 20),
             d_sku_timestamp = 1200, d_sku_suffix = ''x'',
             d_option1 = ''120'', d_option2 = ''80'', d_option3 = ''pamuk'',
             d_weight = Fin 1440\<rparr>,
          GetVariant ''V1'', GetVariant ''V1'', GetVariant ''V1'',
          GetVariant ''V1'', GetVariant ''V1'', GetVariant ''V1'',
          GetVariant ''V1'', GetVariant ''V1'', GetVariant ''V1''],
       clock = 23800, console = []\<rparr>)"
  by (simp add: route_defs sample_defs ground_numbers eval_nat_numeral Let_def)

subsection \<open>A failed lookup followed by a refused create\<close>

text \<open>The theorem at a catalog whose first listing fails: the create call is made and
  refused because the variant exists, and only the second listing, made by the handler
  of that refusal, finds the variant.\<close>

theorem lookup_failure_proceeds_to_create_witness:
  "fst (findExistingVariant catalog_flaky ''P'' ''120'' ''80'' ''pamuk''
          ((sample_system [] 1100)\<lparr>calls := [GetVariant ''B'']\<rparr>)) = None
   \<and> action catalog_flaky sample_sessions (sample_request ''120'' ''20'') (sample_system [] 1000)
     = (existing_response ''V1'' (Some ''20.00'') (Fin 20) ''P'' (GivenId ''R''),
        \<lparr>store = [], cleanupLogs = [], recentErrors = [], requestCache = [],
         calls =
           [GetVariant ''B'', ListVariants ''P'',
            CreateVariant ''P''
              (build_variantData (sample_request ''120'' ''20'') ''P'' ''120'' ''80'' ''pamuk''
                 (Fin 20) 1200),
            ListVariants ''P''],
         clock = 1400, console = []\<rparr>)"
proof -
  let ?u = "\<lparr>session_id = ''S'', shop = ''shop''\<rparr>"
  let ?req = "sample_request ''120'' ''20''"
  let ?s = "sample_system [] 1000"
  let ?bd = "variant_body (sample_variant (Some ''20.00''))"
  have acc: "acceptable sample_sessions ?req ?u ?u ''B'' ''120'' ''80'' ''pamuk'' (Fin 20)"
    by (rule sample_acceptable) simp
  have nodup: "\<not> duplicate_in_flight (clock ?s) (cleanupCache (clock ?s) (requestCache ?s))
                   (cacheKey_of ''120'' ''80'' ''pamuk'')"
    by (simp add: duplicate_in_flight_def cleanupCache_def sample_system_def MAX_CACHE_SIZE_def)
  have base: "took (catalog_flaky (calls ?s) (GetVariant ''B'')) < API_TIMEOUT"
    "result (catalog_flaky (calls ?s) (GetVariant ''B'')) = Resolve ?bd"
    "body_variant ?bd = Some (sample_variant (Some ''20.00''))"
    by (simp_all add: API_TIMEOUT_def sample_defs)
  have pid: "v_product_id (sample_variant (Some ''20.00'')) = ''P''"
    by (simp add: sample_variant_def)
  have fail: "\<exists>err. result (catalog_flaky (calls ?s @ [GetVariant ''B''])
                  (ListVariants (v_product_id (sample_variant (Some ''20.00''))))) = Reject err"
    by (simp add: sample_defs)
  from lookup_failure_proceeds_to_create[where ses = sample_sessions and req = ?req
      and session = ?u and adminSession = ?u and base = "''B''" and b = "''120''"
      and e = "''80''" and m = "''pamuk''" and cp = "Fin 20" and s = ?s and cat = catalog_flaky
      and bd = ?bd and bv = "sample_variant (Some ''20.00'')"]
    acc nodup base fail
  have "\<forall>s1. calls s1 = calls ?s @ [GetVariant ''B''] \<longrightarrow>
          fst (findExistingVariant catalog_flaky
                 (v_product_id (sample_variant (Some ''20.00''))) ''120'' ''80'' ''pamuk'' s1)
            = None"
    by blast
  then have 1: "fst (findExistingVariant catalog_flaky ''P'' ''120'' ''80'' ''pamuk''
          ((sample_system [] 1100)\<lparr>calls := [GetVariant ''B'']\<rparr>)) = None"
    by (simp add: pid sample_system_def)
  have 2: "action catalog_flaky sample_sessions ?req ?s
     = (existing_response ''V1'' (Some ''20.00'') (Fin 20) ''P'' (GivenId ''R''),
        \<lparr>store = [], cleanupLogs = [], recentErrors = [], requestCache = [],
         calls =
           [GetVariant ''B'', ListVariants ''P'',
            CreateVariant ''P''
              (build_variantData ?req ''P'' ''120'' ''80'' ''pamuk'' (Fin 20) 1200),
            ListVariants ''P''],
         clock = 1400, console = []\<rparr>)"
    by (simp add: route_defs sample_defs ground_numbers Let_def)
  show ?thesis using 1 2 by simp
qed

end
